(* ===== verification/Prelude.thy ===== *)
theory Prelude
  imports Main "HOL-Library.AList" "HOL-Library.Sublist"
begin

text \<open>
  Shared ground of the development.

  \<^item> JavaScript's \<open>Map\<close> iterates in insertion order and overwrites in place: it is an
    association list with \<open>AList.update\<close>, \<open>AList.delete\<close> and \<open>map_of\<close>. A
    JavaScript \<open>Set\<close> is a duplicate-free list with \<open>js_add\<close> and \<open>js_remove\<close>.
  \<^item> \<open>latest n xs\<close> is \<open>xs.slice(-n)\<close>; the locale \<open>bounded_log\<close> is the
    contract of the three capped logs of the web client (alert feed, trails, audit log).
  \<^item> \<open>run\<close> runs a component over a list of events and collects what it emits; the
    locale \<open>io_machine\<close> lifts a one-step invariant to whole runs, \<open>guarded_machine\<close> one that needs
    good inputs, and \<open>fair_progress\<close> the recovery of a component in a fair environment.
  \<^item> the locale \<open>id_minter\<close> is the contract of everything that mints command ids.
\<close>

named_theorems js_simps "unfolding of the model's elementary operations"
named_theorems inv_intros "invariant preservation, one lemma per operation"

section \<open>Lists\<close>

definition latest :: "nat \<Rightarrow> 'a list \<Rightarrow> 'a list" where
  "latest n xs = drop (length xs - n) xs"

lemma latest_length [simp]: "length (latest n xs) = min n (length xs)"
  by (simp add: latest_def)

lemma latest_short [simp]: "length xs \<le> n \<Longrightarrow> latest n xs = xs"
  by (simp add: latest_def)

lemma latest_append_latest: "latest n (latest n xs @ ys) = latest n (xs @ ys)"
proof (cases "length xs \<le> n")
  case True
  then show ?thesis by simp
next
  case False
  then have eq: "length (latest n xs) = n" by simp
  have "latest n (latest n xs @ ys) = drop (n + length ys - n) (latest n xs @ ys)"
    by (simp add: latest_def[of n "latest n xs @ ys"] eq del: latest_length)
  also have "\<dots> = drop (length xs + length ys - n) (xs @ ys)"
    using False by (simp add: latest_def add.commute)
  finally show ?thesis by (simp add: latest_def)
qed

lemma latest_suffix: "suffix (latest n xs) xs"
  by (simp add: latest_def suffix_drop)

lemma set_latest: "set (latest n xs) \<subseteq> set xs"
  by (auto simp: latest_def dest: in_set_dropD)

lemma distinct_latest: "distinct xs \<Longrightarrow> distinct (latest n xs)"
  by (simp add: latest_def)

lemma latest_append_long: "n \<le> length ys \<Longrightarrow> latest n (xs @ ys) = latest n ys"
  by (simp add: latest_def)

lemma latest_map: "latest n (map f xs) = map f (latest n xs)"
  by (simp add: latest_def drop_map)

lemma take_rev_latest: "take n (rev xs) = rev (latest n xs)"
  by (simp add: latest_def take_rev)

text \<open>The first element that satisfies a predicate (\<open>Array.prototype.find\<close>), and the
  update of that element in place (a mutation of the object that \<open>find\<close> returned).\<close>

fun update_first :: "('a \<Rightarrow> bool) \<Rightarrow> ('a \<Rightarrow> 'a) \<Rightarrow> 'a list \<Rightarrow> 'a list" where
  "update_first p f [] = []"
| "update_first p f (x # xs) = (if p x then f x # xs else x # update_first p f xs)"

lemma length_update_first [simp]: "length (update_first p f xs) = length xs"
  by (induction xs) auto

lemma update_first_none: "find p xs = None \<Longrightarrow> update_first p f xs = xs"
  by (induction xs) (auto split: if_splits)

lemma map_update_first: "(\<And>x. g (f x) = g x) \<Longrightarrow> map g (update_first p f xs) = map g xs"
  by (induction xs) auto

lemma list_all_update_first:
  "list_all q xs \<Longrightarrow> (\<And>x. q x \<Longrightarrow> p x \<Longrightarrow> q (f x)) \<Longrightarrow> list_all q (update_first p f xs)"
  by (induction xs) auto

lemma find_update_first:
  "(\<And>x. p (f x) = p x) \<Longrightarrow> find p (update_first p f xs) = map_option f (find p xs)"
  by (induction xs) auto

lemma find_update_first_other:
  "(\<And>x. p x \<Longrightarrow> \<not> q x) \<Longrightarrow> (\<And>x. q (f x) = q x) \<Longrightarrow>
     find q (update_first p f xs) = find q xs"
  by (induction xs) auto

lemma find_Some_set: "find p xs = Some x \<Longrightarrow> x \<in> set xs \<and> p x"
  by (induction xs) (auto split: if_splits)

text \<open>The last element that satisfies a predicate.\<close>

fun last_of :: "('a \<Rightarrow> bool) \<Rightarrow> 'a list \<Rightarrow> 'a option" where
  "last_of p [] = None"
| "last_of p (x # xs) = (case last_of p xs of Some y \<Rightarrow> Some y | None \<Rightarrow> if p x then Some x else None)"

lemma last_of_None: "last_of p xs = None \<longleftrightarrow> (\<forall>x \<in> set xs. \<not> p x)"
  by (induction xs) (auto split: option.split)

lemma last_of_append:
  "last_of p (xs @ ys) = (case last_of p ys of Some y \<Rightarrow> Some y | None \<Rightarrow> last_of p xs)"
  by (induction xs) (auto split: option.split)

section \<open>JavaScript Map and Set\<close>

type_synonym ('k, 'v) jsmap = "('k \<times> 'v) list"

definition js_add :: "'a \<Rightarrow> 'a list \<Rightarrow> 'a list" where
  "js_add x xs = (if x \<in> set xs then xs else xs @ [x])"

definition js_remove :: "'a \<Rightarrow> 'a list \<Rightarrow> 'a list" where
  "js_remove x xs = filter (\<lambda>y. y \<noteq> x) xs"

definition js_set :: "'a list \<Rightarrow> 'a list" where
  "js_set xs = foldl (\<lambda>acc x. js_add x acc) [] xs"

lemma set_js_add [simp]: "set (js_add x xs) = insert x (set xs)"
  by (auto simp: js_add_def)

lemma distinct_js_add [simp]: "distinct (js_add x xs) = distinct xs"
  by (auto simp: js_add_def)

lemma set_js_remove [simp]: "set (js_remove x xs) = set xs - {x}"
  by (auto simp: js_remove_def)

lemma distinct_js_remove [simp]: "distinct xs \<Longrightarrow> distinct (js_remove x xs)"
  by (simp add: js_remove_def)

lemma foldl_js_add:
  "set (foldl (\<lambda>acc x. js_add x acc) acc xs) = set acc \<union> set xs"
  "distinct (foldl (\<lambda>acc x. js_add x acc) acc xs) = distinct acc"
  by (induction xs arbitrary: acc) auto

lemma set_js_set [simp]: "set (js_set xs) = set xs"
  by (simp add: js_set_def foldl_js_add)

lemma js_set_Nil [simp]: "js_set [] = []"
  by (simp add: js_set_def)

lemma distinct_js_set [simp]: "distinct (js_set xs)"
  by (simp add: js_set_def foldl_js_add)

lemma map_of_update [simp]: "map_of (AList.update k v m) = (map_of m)(k \<mapsto> v)"
  by (rule update_conv')

lemma keys_update: "fst ` set (AList.update k v m) = insert k (fst ` set m)"
  by (simp add: dom_update)

lemma update_same: "map_of m k = Some v \<Longrightarrow> distinct (map fst m) \<Longrightarrow> AList.update k v m = m"
  by (induction m) (auto dest: map_of_SomeD)

section \<open>Running a component over events\<close>

fun run :: "('s \<Rightarrow> 'e \<Rightarrow> 's \<times> 'o list) \<Rightarrow> 's \<Rightarrow> 'e list \<Rightarrow> 's \<times> 'o list" where
  "run step s [] = (s, [])"
| "run step s (e # es) =
     (let (s', os) = step s e; (s'', os') = run step s' es in (s'', os @ os'))"

lemma run_append:
  "run step s (es @ fs) =
     (let (s', os) = run step s es; (s'', os') = run step s' fs in (s'', os @ os'))"
  by (induction es arbitrary: s) (auto simp: split_beta)

locale io_machine =
  fixes step :: "'s \<Rightarrow> 'e \<Rightarrow> 's \<times> 'o list"
    and inv :: "'s \<Rightarrow> bool"
    and ok :: "'o \<Rightarrow> bool"
  assumes step_inv: "inv s \<Longrightarrow> inv (fst (step s e))"
    and step_ok: "inv s \<Longrightarrow> list_all ok (snd (step s e))"
begin

lemma run_inv: "inv s \<Longrightarrow> inv (fst (run step s es))"
  by (induction es arbitrary: s) (auto simp: split_beta dest: step_inv)

lemma run_ok: "inv s \<Longrightarrow> list_all ok (snd (run step s es))"
  by (induction es arbitrary: s) (auto simp: split_beta step_inv step_ok)

end

text \<open>The same when the invariant needs the inputs to be good: what is emitted is then ok.\<close>

locale guarded_machine =
  fixes step :: "'s \<Rightarrow> 'e \<Rightarrow> 's \<times> 'o list"
    and inv :: "'s \<Rightarrow> bool"
    and good :: "'e \<Rightarrow> bool"
    and ok :: "'o \<Rightarrow> bool"
  assumes step_keeps: "inv s \<Longrightarrow> good e \<Longrightarrow> inv (fst (step s e)) \<and> list_all ok (snd (step s e))"
begin

lemma run_keeps:
  "inv s \<Longrightarrow> list_all good es \<Longrightarrow> inv (fst (run step s es)) \<and> list_all ok (snd (run step s es))"
  by (induction es arbitrary: s) (auto simp: split_beta dest: step_keeps)

end

text \<open>The same for an invariant that relates the state to everything output so far.\<close>

locale history_machine =
  fixes step :: "'s \<Rightarrow> 'e \<Rightarrow> 's \<times> 'o list"
    and hist :: "'s \<Rightarrow> 'o list \<Rightarrow> bool"
  assumes step_hist: "hist s os \<Longrightarrow> hist (fst (step s e)) (os @ snd (step s e))"
begin

lemma run_hist: "hist s os \<Longrightarrow> hist (fst (run step s es)) (os @ snd (run step s es))"
proof (induction es arbitrary: s os)
  case Nil
  then show ?case by simp
next
  case (Cons e es)
  from Cons.IH[OF step_hist[OF Cons.prems, of e]] show ?case by (simp add: split_beta)
qed

end

text \<open>
  A component refines an abstract machine when a projection of its state and a selection of
  its outputs follow that machine, each concrete event standing for a list of abstract ones.
  The law is about one step; the client lemma is about every run.
\<close>

locale simulation =
  fixes step :: "'s \<Rightarrow> 'e \<Rightarrow> 's \<times> 'o list"
    and spec :: "'p \<Rightarrow> 'v \<Rightarrow> 'p \<times> 'q list"
    and proj :: "'s \<Rightarrow> 'p"
    and sel :: "'o \<Rightarrow> 'q list"
    and obs :: "'e \<Rightarrow> 'v list"
  assumes step_refines:
    "run spec (proj s) (obs e) = (proj (fst (step s e)), concat (map sel (snd (step s e))))"
begin

lemma run_refines:
  "run spec (proj s) (concat (map obs es)) =
     (proj (fst (run step s es)), concat (map sel (snd (run step s es))))"
  by (induction es arbitrary: s) (simp_all add: run_append step_refines split_beta)

end

section \<open>Progress under a fair environment\<close>

text \<open>
  A component that waits for its environment names what it is owed next (\<open>owed\<close>), and a distance
  from where it wants to be. Calm events do not take it further away, and what it is owed
  brings it closer. A fair environment works in rounds: any calm events, then what is owed at
  that moment. The client lemma: after as many rounds as the distance, the component has arrived,
  and calm events keep it there.
\<close>

fun calm_run :: "('s \<Rightarrow> 'e \<Rightarrow> 's) \<Rightarrow> ('s \<Rightarrow> 'e \<Rightarrow> bool) \<Rightarrow> 's \<Rightarrow> 'e list \<Rightarrow> bool" where
  "calm_run step calm s [] = True"
| "calm_run step calm s (e # es) = (calm s e \<and> calm_run step calm (step s e) es)"

definition round_end :: "('s \<Rightarrow> 'e \<Rightarrow> 's) \<Rightarrow> ('s \<Rightarrow> 'e list) \<Rightarrow> 's \<Rightarrow> 'e list \<Rightarrow> 's" where
  "round_end step owed s es = (let t = foldl step s es in foldl step t (owed t))"

fun calm_rounds ::
  "('s \<Rightarrow> 'e \<Rightarrow> 's) \<Rightarrow> ('s \<Rightarrow> 'e \<Rightarrow> bool) \<Rightarrow> ('s \<Rightarrow> 'e list) \<Rightarrow> 's \<Rightarrow> 'e list list \<Rightarrow> bool"
where
  "calm_rounds step calm owed s [] = True"
| "calm_rounds step calm owed s (es # rs) =
     (calm_run step calm s es \<and> calm_rounds step calm owed (round_end step owed s es) rs)"

locale fair_progress =
  fixes step :: "'s \<Rightarrow> 'e \<Rightarrow> 's"
    and inv :: "'s \<Rightarrow> bool"
    and calm :: "'s \<Rightarrow> 'e \<Rightarrow> bool"
    and owed :: "'s \<Rightarrow> 'e list"
    and dist :: "'s \<Rightarrow> nat"
  assumes calm_step: "inv s \<Longrightarrow> calm s e \<Longrightarrow> inv (step s e) \<and> dist (step s e) \<le> dist s"
    and owed_closer: "inv s \<Longrightarrow> inv (foldl step s (owed s)) \<and> dist (foldl step s (owed s)) \<le> dist s - 1"
begin

lemma calm_run_keeps:
  "inv s \<Longrightarrow> calm_run step calm s es \<Longrightarrow> inv (foldl step s es) \<and> dist (foldl step s es) \<le> dist s"
proof (induction es arbitrary: s)
  case (Cons e es)
  with calm_step[of s e] Cons.IH[of "step s e"] show ?case by force
qed simp

lemma rounds_arrive:
  "inv s \<Longrightarrow> calm_rounds step calm owed s rs \<Longrightarrow>
     inv (foldl (round_end step owed) s rs) \<and> dist (foldl (round_end step owed) s rs) \<le> dist s - length rs"
proof (induction rs arbitrary: s)
  case (Cons es rs)
  let ?t = "foldl step s es" and ?u = "round_end step owed s es"
  from Cons.prems calm_run_keeps have t: "inv ?t" "dist ?t \<le> dist s" by auto
  from owed_closer[OF t(1)] t(2) have u: "inv ?u" "dist ?u \<le> dist s - 1"
    by (auto simp: round_end_def Let_def)
  from Cons.IH[OF u(1)] Cons.prems u(2) show ?case by auto
qed simp

lemma arrived:
  assumes "inv s" "calm_rounds step calm owed s rs" "dist s \<le> length rs"
    "calm_run step calm (foldl (round_end step owed) s rs) es"
  shows "inv (foldl step (foldl (round_end step owed) s rs) es) \<and>
    dist (foldl step (foldl (round_end step owed) s rs) es) = 0"
  using rounds_arrive[OF assms(1,2)] calm_run_keeps[OF _ assms(4)] assms(3) by force

end

section \<open>Capped logs\<close>

text \<open>
  A capped log promises one law: pushing a chunk appends it to what the log shows and keeps
  the newest \<open>cap\<close> entries. The client lemmas say that after any sequence of pushes the log
  shows exactly the newest \<open>cap\<close> entries of the full history, which is the abstract
  specification (an unbounded list) that the log refines.
\<close>

locale bounded_log =
  fixes push :: "'c \<Rightarrow> 'l \<Rightarrow> 'l"
    and chunk :: "'c \<Rightarrow> 'a list"
    and view :: "'l \<Rightarrow> 'a list"
    and cap :: nat
  assumes view_push: "length (view l) \<le> cap \<Longrightarrow> view (push c l) = latest cap (view l @ chunk c)"
begin

lemma view_bounded: "length (view l) \<le> cap \<Longrightarrow> length (view (push c l)) \<le> cap"
  by (simp add: view_push)

lemma fold_view:
  "length (view l) \<le> cap \<Longrightarrow>
     view (fold push cs l) = latest cap (view l @ concat (map chunk cs))"
proof (induction cs arbitrary: l)
  case Nil
  then show ?case by simp
next
  case (Cons c cs)
  from Cons.IH[OF view_bounded[OF Cons.prems]] view_push[OF Cons.prems] show ?case
    by (simp add: latest_append_latest)
qed

lemma fold_bounded: "length (view l) \<le> cap \<Longrightarrow> length (view (fold push cs l)) \<le> cap"
  by (simp add: fold_view)

lemma newest_kept:
  assumes "length (view l) \<le> cap" and "length (chunk c) \<le> cap"
  shows "suffix (chunk c) (view (push c l))"
  using assms by (simp add: view_push latest_def suffix_def)

end

section \<open>Minting correlation ids\<close>

text \<open>
  Every place that mints a command id keeps a counter, builds the id from the environment
  (a clock, or nothing) and the counter, and honours an id the caller supplied. The laws are
  that ids determine the counter and that the counter moves exactly when an id is minted.
  The client lemma: the ids one minter hands out never repeat.
\<close>

fun minted_ids ::
  "('env \<Rightarrow> 's \<Rightarrow> 'id option \<Rightarrow> 's \<times> 'id) \<Rightarrow> 's \<Rightarrow> ('env \<times> 'id option) list \<Rightarrow> 'id list"
where
  "minted_ids issue s [] = []"
| "minted_ids issue s ((e, g) # rs) =
     (case issue e s g of
        (s', i) \<Rightarrow> (case g of None \<Rightarrow> i # minted_ids issue s' rs | Some _ \<Rightarrow> minted_ids issue s' rs))"

locale id_minter =
  fixes mint :: "'env \<Rightarrow> nat \<Rightarrow> 'id"
    and issue :: "'env \<Rightarrow> 's \<Rightarrow> 'id option \<Rightarrow> 's \<times> 'id"
    and ctr :: "'s \<Rightarrow> nat"
  assumes mint_inj: "mint e n = mint e' n' \<Longrightarrow> n = n'"
    and issue_given: "snd (issue e s (Some i)) = i"
    and ctr_given: "ctr (fst (issue e s (Some i))) = ctr s"
    and issue_minted: "snd (issue e s None) = mint e (ctr s)"
    and ctr_minted: "ctr (fst (issue e s None)) = Suc (ctr s)"
begin

lemma minted_from: "i \<in> set (minted_ids issue s rs) \<Longrightarrow> \<exists>e n. i = mint e n \<and> ctr s \<le> n"
proof (induction rs arbitrary: s)
  case Nil
  then show ?case by simp
next
  case (Cons r rs)
  obtain e g where r: "r = (e, g)" by force
  have "ctr s \<le> ctr (fst (issue e s g))"
    by (cases g) (simp_all add: ctr_given ctr_minted)
  then have "\<exists>e n. i = mint e n \<and> ctr s \<le> n"
    if "i \<in> set (minted_ids issue (fst (issue e s g)) rs)"
    using Cons.IH[OF that] order_trans by blast
  with Cons.prems show ?case
    unfolding r by (cases g) (auto simp: split_beta issue_minted)
qed

lemma minted_distinct: "distinct (minted_ids issue s rs)"
proof (induction rs arbitrary: s)
  case Nil
  then show ?case by simp
next
  case (Cons r rs)
  obtain e g where r: "r = (e, g)" by force
  have "mint e (ctr s) \<notin> set (minted_ids issue (fst (issue e s None)) rs)"
    using minted_from mint_inj ctr_minted by (metis Suc_n_not_le_n)
  with Cons show ?case
    unfolding r by (cases g) (auto simp: split_beta issue_minted)
qed

end

end
