(* ===== verification/JsNum.thy ===== *)
theory JsNum
  imports Complex_Main Prelude
begin

text \<open>
  JavaScript's \<open>number\<close>: a finite real, an infinity or \<open>NaN\<close>, with the rules of IEEE 754
  for the special values in \<open>+\<close>, \<open>-\<close>, \<open>*\<close>, \<open>/\<close> and the comparisons (every comparison
  with \<open>NaN\<close> is false). Two idealisations: finite arithmetic is exact (no rounding to 53
  bits, and no overflow: a sum, product or quotient of finite numbers is finite, except by zero,
  where a double may be infinite), and \<open>-0\<close> is identified with \<open>0\<close>; a quotient by zero takes the sign of its
  numerator, which is the quotient by \<open>+0\<close>. Counters, ages and clock readings, which the
  code keeps integral, are \<open>nat\<close> or \<open>int\<close>.
\<close>

datatype jsnum = Fin real | PosInf | NegInf | NaN

section \<open>Arithmetic\<close>

definition inf_of_sign :: "real \<Rightarrow> jsnum" where
  "inf_of_sign s = (if s = 0 then NaN else if 0 < s then PosInf else NegInf)"

fun sign_of :: "jsnum \<Rightarrow> real" where
  "sign_of (Fin a) = sgn a"
| "sign_of PosInf = 1"
| "sign_of NegInf = -1"
| "sign_of NaN = 0"

instantiation jsnum :: "{zero, one, plus, uminus, minus, times, inverse, ord}"
begin

definition zero_jsnum :: jsnum where "zero_jsnum = Fin 0"

definition one_jsnum :: jsnum where "one_jsnum = Fin 1"

fun plus_jsnum :: "jsnum \<Rightarrow> jsnum \<Rightarrow> jsnum" where
  "plus_jsnum (Fin a) (Fin b) = Fin (a + b)"
| "plus_jsnum NaN _ = NaN"
| "plus_jsnum _ NaN = NaN"
| "plus_jsnum PosInf NegInf = NaN"
| "plus_jsnum NegInf PosInf = NaN"
| "plus_jsnum PosInf _ = PosInf"
| "plus_jsnum _ PosInf = PosInf"
| "plus_jsnum NegInf _ = NegInf"
| "plus_jsnum _ NegInf = NegInf"

fun uminus_jsnum :: "jsnum \<Rightarrow> jsnum" where
  "uminus_jsnum (Fin a) = Fin (- a)"
| "uminus_jsnum PosInf = NegInf"
| "uminus_jsnum NegInf = PosInf"
| "uminus_jsnum NaN = NaN"

definition minus_jsnum :: "jsnum \<Rightarrow> jsnum \<Rightarrow> jsnum" where
  "minus_jsnum a b = a + (- b)"

fun times_jsnum :: "jsnum \<Rightarrow> jsnum \<Rightarrow> jsnum" where
  "times_jsnum (Fin a) (Fin b) = Fin (a * b)"
| "times_jsnum NaN _ = NaN"
| "times_jsnum _ NaN = NaN"
| "times_jsnum a b = inf_of_sign (sign_of a * sign_of b)"

fun divide_jsnum :: "jsnum \<Rightarrow> jsnum \<Rightarrow> jsnum" where
  "divide_jsnum (Fin a) (Fin b) = (if b = 0 then inf_of_sign a else Fin (a / b))"
| "divide_jsnum NaN _ = NaN"
| "divide_jsnum _ NaN = NaN"
| "divide_jsnum (Fin a) _ = Fin 0"
| "divide_jsnum a (Fin b) = inf_of_sign (sign_of a * (if b < 0 then -1 else 1))"
| "divide_jsnum _ _ = NaN"

definition inverse_jsnum :: "jsnum \<Rightarrow> jsnum" where
  "inverse_jsnum a = Fin 1 div a"

fun less_jsnum :: "jsnum \<Rightarrow> jsnum \<Rightarrow> bool" where
  "less_jsnum (Fin a) (Fin b) = (a < b)"
| "less_jsnum NaN _ = False"
| "less_jsnum _ NaN = False"
| "less_jsnum NegInf NegInf = False"
| "less_jsnum NegInf _ = True"
| "less_jsnum PosInf _ = False"
| "less_jsnum _ PosInf = True"
| "less_jsnum _ _ = False"

fun less_eq_jsnum :: "jsnum \<Rightarrow> jsnum \<Rightarrow> bool" where
  "less_eq_jsnum (Fin a) (Fin b) = (a \<le> b)"
| "less_eq_jsnum NaN _ = False"
| "less_eq_jsnum _ NaN = False"
| "less_eq_jsnum NegInf _ = True"
| "less_eq_jsnum _ PosInf = True"
| "less_eq_jsnum _ _ = False"

instance ..

end

lemma minus_Fin [simp]: "Fin a - Fin b = Fin (a - b)"
  by (simp add: minus_jsnum_def)

lemma NaN_minus [simp]: "NaN - a = NaN" "a - NaN = NaN"
  by (simp_all add: minus_jsnum_def) (cases a, simp_all)

lemma zero_Fin: "(0 :: jsnum) = Fin 0"
  by (simp add: zero_jsnum_def)

text \<open>Comparisons: the two JavaScript operators disagree with a linear order only on NaN.\<close>

lemma less_imp_not_NaN: "a < b \<Longrightarrow> a \<noteq> NaN \<and> b \<noteq> NaN" for a b :: jsnum
  by (cases a; cases b) auto

lemma not_less_not_NaN: "a \<noteq> NaN \<Longrightarrow> b \<noteq> NaN \<Longrightarrow> \<not> a < b \<longleftrightarrow> b \<le> a" for a b :: jsnum
  by (cases a; cases b) auto

lemma pos_cases:
  assumes "Fin 0 < a"
  obtains r where "a = Fin r" "0 < r" | "a = PosInf"
  using assms by (cases a) auto

section \<open>Library functions\<close>

text \<open>\<open>Number.isFinite\<close>, \<open>Math.floor\<close>, \<open>Math.round\<close> (ties towards plus infinity), the
  trigonometric functions and the remainder operator, whose result has the dividend's sign.\<close>

fun is_finite :: "jsnum \<Rightarrow> bool" where
  "is_finite (Fin _) = True"
| "is_finite _ = False"

fun js_cos :: "jsnum \<Rightarrow> jsnum" where
  "js_cos (Fin a) = Fin (cos a)"
| "js_cos _ = NaN"

fun js_sin :: "jsnum \<Rightarrow> jsnum" where
  "js_sin (Fin a) = Fin (sin a)"
| "js_sin _ = NaN"

definition js_round :: "real \<Rightarrow> int" where
  "js_round r = \<lfloor>r + 1 / 2\<rfloor>"

definition js_rem :: "int \<Rightarrow> int \<Rightarrow> int" where
  "js_rem a b = sgn a * (\<bar>a\<bar> mod \<bar>b\<bar>)"

definition js_fmod :: "real \<Rightarrow> real \<Rightarrow> real" where
  "js_fmod a b = sgn a * (\<bar>a\<bar> - \<bar>b\<bar> * of_int \<lfloor>\<bar>a\<bar> / \<bar>b\<bar>\<rfloor>)"

lemma js_rem_nonneg: "0 \<le> a \<Longrightarrow> 0 < b \<Longrightarrow> js_rem a b = a mod b"
  by (cases "a = 0") (auto simp: js_rem_def sgn_if)

lemma js_fmod_nonneg: "0 \<le> a \<Longrightarrow> 0 < b \<Longrightarrow> js_fmod a b = a - b * of_int \<lfloor>a / b\<rfloor>"
  by (cases "a = 0") (auto simp: js_fmod_def)

lemma js_fmod_bounds:
  assumes "0 \<le> a" "0 < b"
  shows "0 \<le> js_fmod a b \<and> js_fmod a b < b"
  using floor_divide_lower[of b a] floor_divide_upper[of b a] assms
  by (simp add: js_fmod_nonneg algebra_simps)

lemma is_finite_iff: "is_finite n \<longleftrightarrow> (\<exists>r. n = Fin r)"
  by (cases n) auto

lemma js_round_of_int [simp]: "js_round (of_int k) = k"
  by (simp add: js_round_def)

end
