(* ===== verification/JsString.thy ===== *)
theory JsString
  imports JsNum
begin

text \<open>
  JavaScript strings as \<open>string\<close>: the UTF-8 encoding of the text, which is ASCII but for the
  typographic characters of the user interface (\<open>mdash\<close>, \<open>arrow\<close>, \<open>middot\<close>,
  \<open>theta_sign\<close>, \<open>ellipsis\<close>). The operations the code uses, concatenation, equality,
  \<open>join\<close>, \<open>replace\<close> of a literal, \<open>trim\<close>, \<open>split\<close> and \<open>toUpperCase\<close> on ASCII
  letters, agree with JavaScript's on such strings. Decimal and radix printing of naturals,
  \<open>toFixed\<close> and the reading of decimal literals by \<open>Number(s)\<close> are defined here.
\<close>

section \<open>Text of the user interface\<close>

definition mdash :: string where "mdash = [CHR 0xE2, CHR 0x80, CHR 0x94]"
definition arrow :: string where "arrow = [CHR 0xE2, CHR 0x86, CHR 0x92]"
definition middot :: string where "middot = [CHR 0xC2, CHR 0xB7]"
definition theta_sign :: string where "theta_sign = [CHR 0xCE, CHR 0xB8]"
definition ellipsis :: string where "ellipsis = [CHR 0xE2, CHR 0x80, CHR 0xA6]"

text \<open>\<open>parts.join(sep)\<close>, and \<open>s.replace(pat, "")\<close> for a string pattern: the first occurrence
  is dropped.\<close>

fun join :: "string \<Rightarrow> string list \<Rightarrow> string" where
  "join sep [] = ''''"
| "join sep [s] = s"
| "join sep (s # t # ts) = s @ sep @ join sep (t # ts)"

fun drop_first :: "string \<Rightarrow> string \<Rightarrow> string" where
  "drop_first pat [] = []"
| "drop_first pat (c # cs) =
     (if prefix pat (c # cs) then drop (length pat) (c # cs) else c # drop_first pat cs)"

text \<open>\<open>s.split(",")\<close>: the pieces between separators, at least one.\<close>

fun split_on :: "char \<Rightarrow> string \<Rightarrow> string list" where
  "split_on d [] = [[]]"
| "split_on d (c # cs) =
     (if c = d then [] # split_on d cs
      else (case split_on d cs of [] \<Rightarrow> [[c]] | p # ps \<Rightarrow> (c # p) # ps))"

definition ascii_upper :: "char \<Rightarrow> char" where
  "ascii_upper c = (if 97 \<le> (of_char c :: nat) \<and> (of_char c :: nat) \<le> 122
     then char_of ((of_char c :: nat) - 32) else c)"

definition to_upper :: "string \<Rightarrow> string" where
  "to_upper s = map ascii_upper s"

definition is_space :: "char \<Rightarrow> bool" where
  "is_space c = (c \<in> {CHR '' '', CHR 0x09, CHR 0x0A, CHR 0x0B, CHR 0x0C, CHR 0x0D})"

definition trim :: "string \<Rightarrow> string" where
  "trim s = rev (dropWhile is_space (rev (dropWhile is_space s)))"

section \<open>Printing numbers\<close>

fun radix :: "nat \<Rightarrow> nat \<Rightarrow> nat list" where
  "radix b n = (if b < 2 \<or> n < b then [n] else radix b (n div b) @ [n mod b])"

declare radix.simps [simp del]

definition digit_char :: "nat \<Rightarrow> char" where
  "digit_char d = (if d < 10 then char_of (48 + d) else char_of (87 + d))"

definition radix_str :: "nat \<Rightarrow> nat \<Rightarrow> string" where
  "radix_str b n = map digit_char (radix b n)"

definition nat_str :: "nat \<Rightarrow> string" where
  "nat_str n = radix_str 10 n"

definition int_str :: "int \<Rightarrow> string" where
  "int_str k = (if k < 0 then ''-'' @ nat_str (nat (- k)) else nat_str (nat k))"

lemma radix_digits: "2 \<le> b \<Longrightarrow> d \<in> set (radix b n) \<Longrightarrow> d < b"
proof (induction b n rule: radix.induct)
  case (1 b n)
  show ?case
  proof (cases "n < b")
    case True
    with "1.prems" show ?thesis by (simp add: radix.simps[of b n])
  next
    case False
    with "1.prems" have "d \<in> set (radix b (n div b)) \<or> d = n mod b"
      by (auto simp: radix.simps[of b n])
    with "1" False show ?thesis by auto
  qed
qed

lemma radix_nonempty [simp]: "radix b n \<noteq> []"
  by (subst radix.simps) simp

lemma radix_value: "2 \<le> b \<Longrightarrow> foldl (\<lambda>acc d. acc * b + d) 0 (radix b n) = n"
proof (induction b n rule: radix.induct)
  case (1 b n)
  show ?case
  proof (cases "n < b")
    case True
    then show ?thesis by (simp add: radix.simps[of b n])
  next
    case False
    with "1" have "foldl (\<lambda>acc d. acc * b + d) 0 (radix b (n div b)) = n div b" by simp
    with False "1.prems" show ?thesis by (simp add: radix.simps[of b n])
  qed
qed

lemma of_char_small: "n < 256 \<Longrightarrow> (of_char (char_of n :: char) :: nat) = n" for n :: nat
  by (simp only: of_char_of mod_less)

lemma of_digit_char:
  assumes "d < 36"
  shows "(of_char (digit_char d) :: nat) = (if d < 10 then 48 + d else 87 + d)"
proof (cases "d < 10")
  case True
  then have "(48 + d :: nat) < 256" by linarith
  from of_char_small[OF this] True show ?thesis by (simp only: digit_char_def if_True)
next
  case False
  from assms have "(87 + d :: nat) < 256" by linarith
  from of_char_small[OF this] False show ?thesis by (simp only: digit_char_def if_False)
qed

lemma digit_char_inj:
  assumes "d < 36" "e < 36" "digit_char d = digit_char e"
  shows "d = e"
proof -
  have "(if d < 10 then 48 + d else 87 + d) = (if e < 10 then 48 + e else 87 + (e :: nat))"
    using of_digit_char[OF assms(1)] of_digit_char[OF assms(2)] assms(3) by argo
  with assms(1,2) show ?thesis by (auto split: if_splits)
qed

lemma radix_str_inj:
  assumes b: "2 \<le> b" "b \<le> 36" and eq: "radix_str b m = radix_str b n"
  shows "m = n"
proof -
  have small: "d < 36" if "d \<in> set (radix b m) \<union> set (radix b n)" for d
    using that radix_digits[OF b(1), of d m] radix_digits[OF b(1), of d n] b(2) by fastforce
  have "inj_on digit_char (set (radix b m) \<union> set (radix b n))"
    by (rule inj_onI) (rule digit_char_inj[OF small small])
  moreover have "map digit_char (radix b m) = map digit_char (radix b n)"
    using eq by (simp only: radix_str_def)
  ultimately have "radix b m = radix b n"
    by (rule map_inj_on[rotated])
  then show ?thesis using radix_value[OF b(1)] by metis
qed

lemma nat_str_inj [simp]: "nat_str m = nat_str n \<longleftrightarrow> m = n"
  using radix_str_inj[of 10] by (auto simp: nat_str_def)

lemma nat_str_0: "nat_str 0 = ''0''"
  by code_simp

text \<open>Digits and lower-case letters only: the separators used in ids never occur.\<close>

lemma radix_str_chars:
  assumes "2 \<le> b" "b \<le> 36" "c \<in> set (radix_str b n)"
  shows "c \<noteq> CHR ''-'' \<and> c \<noteq> CHR '':''"
proof -
  obtain d where d: "d \<in> set (radix b n)" "c = digit_char d"
    using assms(3) by (auto simp: radix_str_def)
  have "d < 36" using radix_digits[OF assms(1) d(1)] assms(2) by linarith
  from of_digit_char[OF this] have "47 < (of_char c :: nat)" "(of_char c :: nat) \<noteq> 58"
    using \<open>d < 36\<close> d(2) by (auto split: if_splits)
  then show ?thesis by (auto)
qed

text \<open>The text before the first separator determines both parts of an id.\<close>

lemma split_at_first:
  "c \<notin> set a \<Longrightarrow> c \<notin> set b \<Longrightarrow> a @ c # x = b @ c # y \<Longrightarrow> a = b \<and> x = y"
proof -
  assume c: "c \<notin> set a" "c \<notin> set b" and eq: "a @ c # x = b @ c # y"
  have cut: "takeWhile (\<lambda>z. z \<noteq> c) (d @ c # w) = d" if "c \<notin> set d" for d w
    using that by (subst takeWhile_append2) auto
  from cut[OF c(1), of x] cut[OF c(2), of y] eq have "a = b" by simp
  with eq show ?thesis by simp
qed

section \<open>Reading numbers\<close>

text \<open>\<open>Number(s)\<close>: surrounding white space is dropped, the empty text is 0, then the grammar of
  StringNumericLiteral (signed decimal literals and \<open>Infinity\<close>; \<open>0x\<close>, \<open>0o\<close> and \<open>0b\<close>
  integers without a sign); anything else is NaN. A literal too large for a double is an
  infinity.\<close>

definition is_digit :: "char \<Rightarrow> bool" where
  "is_digit c = (48 \<le> (of_char c :: nat) \<and> (of_char c :: nat) \<le> 57)"

definition digit_val :: "char \<Rightarrow> nat" where
  "digit_val c = (let n = of_char c in
     if n \<le> 57 then n - 48 else if n \<le> 90 then n - 55 else n - 87)"

definition is_digit_of :: "nat \<Rightarrow> char \<Rightarrow> bool" where
  "is_digit_of b c = (let n = (of_char c :: nat) in
     (48 \<le> n \<and> n \<le> 57 \<or> 65 \<le> n \<and> n \<le> 90 \<or> 97 \<le> n \<and> n \<le> 122) \<and> digit_val c < b)"

definition digits_value :: "nat \<Rightarrow> string \<Rightarrow> nat" where
  "digits_value b ds = foldl (\<lambda>acc c. acc * b + digit_val c) 0 ds"

definition of_literal :: "real \<Rightarrow> jsnum" where
  "of_literal r = (if 2 ^ 1024 - 2 ^ 970 \<le> r then PosInf
     else if r \<le> - (2 ^ 1024 - 2 ^ 970) then NegInf else Fin r)"

definition read_exponent :: "string \<Rightarrow> int option" where
  "read_exponent s =
     (let (neg, ds) =
        (case s of c # cs \<Rightarrow> if c = CHR ''-'' then (True, cs) else if c = CHR ''+'' then (False, cs)
                             else (False, s)
         | [] \<Rightarrow> (False, s))
      in if ds \<noteq> [] \<and> list_all is_digit ds
         then Some (if neg then - int (digits_value 10 ds) else int (digits_value 10 ds)) else None)"

definition read_unsigned :: "string \<Rightarrow> real option" where
  "read_unsigned s =
     (let ip = takeWhile is_digit s;
          r1 = dropWhile is_digit s;
          (fp, r2) = (case r1 of c # cs \<Rightarrow> if c = CHR ''.'' then (takeWhile is_digit cs, dropWhile is_digit cs)
                                         else ([], r1)
                      | [] \<Rightarrow> ([], r1));
          m = real (digits_value 10 (ip @ fp)) / 10 ^ length fp
      in if ip = [] \<and> fp = [] then None
         else case r2 of
                [] \<Rightarrow> Some m
              | c # cs \<Rightarrow> if c = CHR ''e'' \<or> c = CHR ''E''
                  then map_option (\<lambda>x. m * 10 powi x) (read_exponent cs) else None)"

definition read_signed :: "bool \<Rightarrow> string \<Rightarrow> jsnum" where
  "read_signed neg s =
     (if s = ''Infinity'' then (if neg then NegInf else PosInf)
      else case read_unsigned s of
             None \<Rightarrow> NaN
           | Some r \<Rightarrow> of_literal (if neg then - r else r))"

definition read_radix :: "nat \<Rightarrow> string \<Rightarrow> jsnum" where
  "read_radix b ds =
     (if ds \<noteq> [] \<and> list_all (is_digit_of b) ds then of_literal (real (digits_value b ds)) else NaN)"

fun read_number :: "string \<Rightarrow> jsnum" where
  "read_number [] = Fin 0"
| "read_number [c] = read_signed False [c]"
| "read_number (c # d # s) =
     (if c = CHR ''0'' \<and> (d = CHR ''x'' \<or> d = CHR ''X'') then read_radix 16 s
      else if c = CHR ''0'' \<and> (d = CHR ''o'' \<or> d = CHR ''O'') then read_radix 8 s
      else if c = CHR ''0'' \<and> (d = CHR ''b'' \<or> d = CHR ''B'') then read_radix 2 s
      else if c = CHR ''-'' then read_signed True (d # s)
      else if c = CHR ''+'' then read_signed False (d # s)
      else read_signed False (c # d # s))"

definition js_Number :: "string \<Rightarrow> jsnum" where
  "js_Number s = read_number (trim s)"

section \<open>Printing fractions\<close>

text \<open>\<open>Number.prototype.toString\<close>, which template literals use: integers below \<open>10^21\<close> in
  full, and otherwise the shortest decimal \<open>s * 10^(n - k)\<close> of at most 17 digits, laid out by
  the position \<open>n\<close> of its point.\<close>

definition dec_point :: "real \<Rightarrow> int" where
  "dec_point x = \<lfloor>log 10 x\<rfloor> + 1"

definition dec_digits :: "real \<Rightarrow> nat" where
  "dec_digits x =
     (case find (\<lambda>k. of_int \<lfloor>x * 10 powi (int k - dec_point x)\<rfloor> = x * 10 powi (int k - dec_point x))
        [1 ..< 17] of Some k \<Rightarrow> k | None \<Rightarrow> 17)"

definition zeros :: "nat \<Rightarrow> string" where
  "zeros n = replicate n (CHR ''0'')"

definition layout :: "string \<Rightarrow> int \<Rightarrow> string" where
  "layout ds n =
     (let k = int (length ds) in
      if k \<le> n \<and> n \<le> 21 then ds @ zeros (nat (n - k))
      else if 0 < n \<and> n \<le> 21 then take (nat n) ds @ ''.'' @ drop (nat n) ds
      else if -6 < n \<and> n \<le> 0 then ''0.'' @ zeros (nat (- n)) @ ds
      else take 1 ds @ (if k = 1 then '''' else ''.'' @ drop 1 ds) @ ''e'' @
             (if 0 < n then ''+'' else ''-'') @ nat_str (nat \<bar>n - 1\<bar>))"

definition pos_str :: "real \<Rightarrow> string" where
  "pos_str x =
     (if of_int \<lfloor>x\<rfloor> = x \<and> x < 10 ^ 21 then int_str \<lfloor>x\<rfloor>
      else layout (int_str (js_round (x * 10 powi (int (dec_digits x) - dec_point x)))) (dec_point x))"

fun num_str :: "jsnum \<Rightarrow> string" where
  "num_str (Fin r) = (if r < 0 then ''-'' @ pos_str (- r) else pos_str r)"
| "num_str PosInf = ''Infinity''"
| "num_str NegInf = ''-Infinity''"
| "num_str NaN = ''NaN''"

text \<open>\<open>toFixed(f)\<close>: the nearest multiple of \<open>10^(-f)\<close>, the larger one on a tie.\<close>

definition fixed_digits :: "nat \<Rightarrow> nat \<Rightarrow> string" where
  "fixed_digits f n =
     (let ds = nat_str n; m = zeros (Suc f - length ds) @ ds
      in if f = 0 then m else take (length m - f) m @ ''.'' @ drop (length m - f) m)"

fun toFixed :: "nat \<Rightarrow> jsnum \<Rightarrow> string" where
  "toFixed f (Fin r) =
     (if 10 ^ 21 \<le> \<bar>r\<bar> then num_str (Fin r)
      else (if r < 0 then ''-'' else '''') @ fixed_digits f (nat (js_round (\<bar>r\<bar> * 10 ^ f))))"
| "toFixed f n = num_str n"

lemma num_str_nat: "n < 10 ^ 21 \<Longrightarrow> num_str (Fin (real n)) = nat_str n"
proof -
  assume "n < 10 ^ 21"
  then have "real n < 10 ^ 21" by (metis of_nat_less_iff of_nat_numeral of_nat_power)
  then show ?thesis by (simp add: pos_str_def int_str_def)
qed

lemma toFixed_0_nat: "n < 10 ^ 21 \<Longrightarrow> toFixed 0 (Fin (real n)) = nat_str n"
proof -
  assume "n < 10 ^ 21"
  then have "real n < 10 ^ 21" by (metis of_nat_less_iff of_nat_numeral of_nat_power)
  moreover have "js_round (real n) = int n" using js_round_of_int[of "int n"] by simp
  moreover have "nat_str n \<noteq> []" by (simp add: nat_str_def radix_str_def)
  ultimately show ?thesis by (simp add: fixed_digits_def zeros_def Let_def Suc_le_eq)
qed

section \<open>Reading back what was printed\<close>

lemma digit_char_digit:
  assumes "d < 10"
  shows "is_digit (digit_char d)" "digit_val (digit_char d) = d" "\<not> is_space (digit_char d)"
proof -
  have "d < 36" using assms by simp
  from of_digit_char[OF this] assms have code: "(of_char (digit_char d) :: nat) = 48 + d" by simp
  with assms show "is_digit (digit_char d)" "digit_val (digit_char d) = d"
    by (simp_all add: is_digit_def digit_val_def Let_def)
  have "32 < (of_char (digit_char d) :: nat)" using code by simp
  then show "\<not> is_space (digit_char d)" by (auto simp: is_space_def)
qed

lemma nat_str_digits: "list_all is_digit (nat_str n)"
  by (auto simp: nat_str_def radix_str_def list_all_iff digit_char_digit dest: radix_digits[rotated])

lemma nat_str_not_space: "c \<in> set (nat_str n) \<Longrightarrow> \<not> is_space c"
  by (auto simp: nat_str_def radix_str_def digit_char_digit dest: radix_digits[rotated])

lemma digits_value_nat_str: "digits_value 10 (nat_str n) = n"
proof -
  have "foldl (\<lambda>acc c. acc * 10 + digit_val c) a (map digit_char ds) = foldl (\<lambda>acc d. acc * 10 + d) a ds"
    if "\<forall>d \<in> set ds. d < 10" for a ds
    using that by (induction ds arbitrary: a) (simp_all add: digit_char_digit)
  moreover have "\<forall>d \<in> set (radix 10 n). d < 10" using radix_digits[of 10 _ n] by simp
  ultimately show ?thesis
    using radix_value[of 10 n] by (simp add: digits_value_def nat_str_def radix_str_def)
qed

lemma trim_nat_str: "trim (nat_str n) = nat_str n"
proof -
  have "dropWhile is_space s = s" if "\<forall>c \<in> set s. \<not> is_space c" for s
    using that by (cases s) auto
  from this[of "nat_str n"] this[of "rev (nat_str n)"] show ?thesis
    using nat_str_not_space[of _ n] by (auto simp: trim_def)
qed

lemma nat_str_nonempty [simp]: "nat_str n \<noteq> []"
  by (simp add: nat_str_def radix_str_def)

lemma read_digits:
  assumes "list_all is_digit s" "s \<noteq> []"
  shows "read_number s = of_literal (real (digits_value 10 s))"
proof -
  have no: "is_digit c \<Longrightarrow> c \<noteq> CHR ''-'' \<and> c \<noteq> CHR ''+'' \<and> c \<noteq> CHR ''x'' \<and> c \<noteq> CHR ''X'' \<and> c \<noteq> CHR ''o'' \<and>
      c \<noteq> CHR ''O'' \<and> c \<noteq> CHR ''b'' \<and> c \<noteq> CHR ''B'' \<and> c \<noteq> CHR ''I''" for c
    by (auto simp: is_digit_def)
  have take: "takeWhile is_digit s = s" "dropWhile is_digit s = []"
    using assms(1) by (simp_all add: takeWhile_eq_all_conv list_all_iff)
  have "read_unsigned s = Some (real (digits_value 10 s))"
    using assms(2) by (simp add: read_unsigned_def take Let_def del: takeWhile_eq_all_conv)
  moreover have "s \<noteq> ''Infinity''" using assms no[of "CHR ''I''"] by auto
  ultimately have "read_signed False s = of_literal (real (digits_value 10 s))"
    by (simp add: read_signed_def)
  moreover have "read_number s = read_signed False s"
  proof (cases s)
    case (Cons c cs)
    then show ?thesis using assms(1) no[of c] no[of "hd cs"] by (cases cs) auto
  qed (use assms(2) in simp)
  ultimately show ?thesis by simp
qed

lemma js_Number_nat_str: "n < 10 ^ 21 \<Longrightarrow> js_Number (nat_str n) = Fin (real n)"
proof -
  assume "n < 10 ^ 21"
  then have "real n < 10 ^ 21" by (metis of_nat_less_iff of_nat_numeral of_nat_power)
  moreover have "(10 ^ 21 :: real) \<le> 2 ^ 1024 - 2 ^ 970" by simp
  ultimately have "of_literal (real n) = Fin (real n)" by (simp add: of_literal_def)
  with read_digits[OF nat_str_digits nat_str_nonempty] show ?thesis
    by (simp add: js_Number_def trim_nat_str digits_value_nat_str)
qed

end
