(* ===== verification/WireTypes.thy ===== *)
theory WireTypes
  imports JsString
begin

text \<open>
  The shapes that cross the WebSocket: \<open>bridge/src/types.ts\<close> and its copy
  \<open>web/src/types.ts\<close>, which mirror \<open>proto/robot.proto\<close>. An optional property is an
  \<open>option\<close>, a string-literal union is a datatype with the literals as constructors, and
  the string a constructor stands for is given by \<open>link_str\<close> and \<open>cmd_str\<close>. The two
  status unions carry the order of their protocol numbers as a \<open>linorder\<close>.
\<close>

section \<open>Telemetry and link health\<close>

record timestamp =
  seconds :: int
  nanos :: int

record telemetry =
  tl_robot_id :: string
  tl_seq :: nat
  tl_timestamp :: "timestamp option"
  tl_x :: jsnum
  tl_y :: jsnum
  tl_heading :: jsnum
  tl_speed :: jsnum
  tl_radius :: jsnum

datatype link_status = LINK_STATUS_UNSPECIFIED | LINK_LIVE | LINK_STALE | LINK_LOST

record robot_state =
  rb_telemetry :: telemetry
  rb_link_status :: link_status
  rb_age_ms :: int

abbreviation rb_id :: "robot_state \<Rightarrow> string" where
  "rb_id r \<equiv> tl_robot_id (rb_telemetry r)"

section \<open>Commands\<close>

datatype command_state =
    CMD_STATE_UNSPECIFIED
  | CMD_PENDING
  | CMD_SENT
  | CMD_APPLIED
  | CMD_REJECTED
  | CMD_EXPIRED
  | CMD_ROBOT_OFFLINE

record target_status =
  tg_robot_id :: string
  tg_state :: command_state
  tg_detail :: string

record command_status =
  cs_command_id :: string
  cs_targets :: "target_status list"

record swarm_state =
  sw_seq :: nat
  sw_server_time :: "timestamp option"
  sw_robots :: "robot_state list"
  sw_commands :: "command_status list"

record params =
  pr_speed :: "jsnum option"
  pr_radius :: "jsnum option"
  pr_center_x :: "jsnum option"
  pr_center_y :: "jsnum option"
  pr_theta :: "jsnum option"

definition no_params :: params where
  "no_params = \<lparr>pr_speed = None, pr_radius = None, pr_center_x = None,
     pr_center_y = None, pr_theta = None\<rparr>"

record command_intent =
  in_command_id :: "string option"
  in_targets :: "string list"
  in_params :: params

record accepted =
  ac_command_id :: string
  ac_accepted :: bool
  ac_detail :: string

section \<open>WebSocket envelopes\<close>

datatype source_kind = Grpc | Fake

datatype server_message =
    SwarmMsg swarm_state
  | StatusMsg bool source_kind string
  | AckMsg string bool string

datatype client_message = CommandMsg command_intent

section \<open>The literals and their protocol numbers\<close>

fun link_str :: "link_status \<Rightarrow> string" where
  "link_str LINK_STATUS_UNSPECIFIED = ''LINK_STATUS_UNSPECIFIED''"
| "link_str LINK_LIVE = ''LINK_LIVE''"
| "link_str LINK_STALE = ''LINK_STALE''"
| "link_str LINK_LOST = ''LINK_LOST''"

fun cmd_str :: "command_state \<Rightarrow> string" where
  "cmd_str CMD_STATE_UNSPECIFIED = ''CMD_STATE_UNSPECIFIED''"
| "cmd_str CMD_PENDING = ''CMD_PENDING''"
| "cmd_str CMD_SENT = ''CMD_SENT''"
| "cmd_str CMD_APPLIED = ''CMD_APPLIED''"
| "cmd_str CMD_REJECTED = ''CMD_REJECTED''"
| "cmd_str CMD_EXPIRED = ''CMD_EXPIRED''"
| "cmd_str CMD_ROBOT_OFFLINE = ''CMD_ROBOT_OFFLINE''"

fun kind_str :: "source_kind \<Rightarrow> string" where
  "kind_str Grpc = ''grpc''"
| "kind_str Fake = ''fake''"

fun link_num :: "link_status \<Rightarrow> nat" where
  "link_num LINK_STATUS_UNSPECIFIED = 0"
| "link_num LINK_LIVE = 1"
| "link_num LINK_STALE = 2"
| "link_num LINK_LOST = 3"

fun cmd_num :: "command_state \<Rightarrow> nat" where
  "cmd_num CMD_STATE_UNSPECIFIED = 0"
| "cmd_num CMD_PENDING = 1"
| "cmd_num CMD_SENT = 2"
| "cmd_num CMD_APPLIED = 3"
| "cmd_num CMD_REJECTED = 4"
| "cmd_num CMD_EXPIRED = 5"
| "cmd_num CMD_ROBOT_OFFLINE = 6"

lemma link_num_inj [simp]: "link_num a = link_num b \<longleftrightarrow> a = b"
  by (cases a; cases b) auto

lemma cmd_num_inj [simp]: "cmd_num a = cmd_num b \<longleftrightarrow> a = b"
  by (cases a; cases b) auto

instantiation link_status :: linorder
begin

definition less_eq_link_status :: "link_status \<Rightarrow> link_status \<Rightarrow> bool" where
  "less_eq_link_status a b \<longleftrightarrow> link_num a \<le> link_num b"

definition less_link_status :: "link_status \<Rightarrow> link_status \<Rightarrow> bool" where
  "less_link_status a b \<longleftrightarrow> link_num a < link_num b"

instance
  by standard (auto simp: less_eq_link_status_def less_link_status_def)

end

instantiation command_state :: linorder
begin

definition less_eq_command_state :: "command_state \<Rightarrow> command_state \<Rightarrow> bool" where
  "less_eq_command_state a b \<longleftrightarrow> cmd_num a \<le> cmd_num b"

definition less_command_state :: "command_state \<Rightarrow> command_state \<Rightarrow> bool" where
  "less_command_state a b \<longleftrightarrow> cmd_num a < cmd_num b"

instance
  by standard (auto simp: less_eq_command_state_def less_command_state_def)

end

lemma link_str_inj [simp]: "link_str a = link_str b \<longleftrightarrow> a = b"
  by (cases a; cases b) auto

lemma cmd_str_inj [simp]: "cmd_str a = cmd_str b \<longleftrightarrow> a = b"
  by (cases a; cases b) auto

text \<open>The shortened labels of \<open>viz.ts\<close>: the prefix is dropped from the literal.\<close>

definition shortStatus :: "link_status \<Rightarrow> string" where
  "shortStatus s = drop_first ''LINK_'' (link_str s)"

definition shortCmd :: "command_state \<Rightarrow> string" where
  "shortCmd s = drop_first ''CMD_'' (cmd_str s)"

lemma shortStatus_simps [simp]:
  "shortStatus LINK_STATUS_UNSPECIFIED = ''STATUS_UNSPECIFIED''"
  "shortStatus LINK_LIVE = ''LIVE''"
  "shortStatus LINK_STALE = ''STALE''"
  "shortStatus LINK_LOST = ''LOST''"
  by (simp_all add: shortStatus_def)

lemma shortCmd_simps [simp]:
  "shortCmd CMD_STATE_UNSPECIFIED = ''STATE_UNSPECIFIED''"
  "shortCmd CMD_PENDING = ''PENDING''"
  "shortCmd CMD_SENT = ''SENT''"
  "shortCmd CMD_APPLIED = ''APPLIED''"
  "shortCmd CMD_REJECTED = ''REJECTED''"
  "shortCmd CMD_EXPIRED = ''EXPIRED''"
  "shortCmd CMD_ROBOT_OFFLINE = ''ROBOT_OFFLINE''"
  by (simp_all add: shortCmd_def)

section \<open>Severities and the palette of viz.ts\<close>

datatype severity = Info | Warn | Critical

fun STATUS_COLOR :: "link_status \<Rightarrow> string" where
  "STATUS_COLOR LINK_LIVE = ''#3fb950''"
| "STATUS_COLOR LINK_STALE = ''#d29922''"
| "STATUS_COLOR LINK_LOST = ''#f85149''"
| "STATUS_COLOR LINK_STATUS_UNSPECIFIED = ''#8b949e''"

fun CMD_COLOR :: "command_state \<Rightarrow> string" where
  "CMD_COLOR CMD_PENDING = ''#8b949e''"
| "CMD_COLOR CMD_SENT = ''#58a6ff''"
| "CMD_COLOR CMD_APPLIED = ''#3fb950''"
| "CMD_COLOR CMD_REJECTED = ''#f85149''"
| "CMD_COLOR CMD_EXPIRED = ''#d29922''"
| "CMD_COLOR CMD_ROBOT_OFFLINE = ''#f85149''"
| "CMD_COLOR CMD_STATE_UNSPECIFIED = ''#8b949e''"

definition FENCE_UNION_COLOR :: string where "FENCE_UNION_COLOR = ''#39c5cf''"

definition INPUT_COLOR :: string where "INPUT_COLOR = ''#c9d1d9''"

definition BUFFER_COLOR :: "string \<rightharpoonup> string" where
  "BUFFER_COLOR = map_of
     [(''fence_launch_point'', ''#3b82f6''),
      (''fence_ingress_route'', ''#14b8a6''),
      (''fence_region_of_interest'', ''#a855f7'')]"

fun SEVERITY_COLOR :: "severity \<Rightarrow> string" where
  "SEVERITY_COLOR Info = ''#58a6ff''"
| "SEVERITY_COLOR Warn = ''#d29922''"
| "SEVERITY_COLOR Critical = ''#f85149''"

fun severity_str :: "severity \<Rightarrow> string" where
  "severity_str Info = ''info''"
| "severity_str Warn = ''warn''"
| "severity_str Critical = ''critical''"

end
