(* ===== verification/Source.thy ===== *)
theory Source
  imports WireTypes
begin

text \<open>
  \<open>bridge/src/source.ts\<close>: the interface between the bridge and whatever produces frames.
  A source reports through two callbacks, \<open>onFrame\<close> and \<open>onStatus\<close>; here an operation
  returns what it passed to them, in order, as a list of \<open>source_out\<close>. The locale
  \<open>source\<close> states what the bridge relies on: the source keeps the command ids it is
  given and never repeats one it mints, and starting a source whose status callback is
  registered reports a status at once.
\<close>

datatype source_out = EmitFrame swarm_state | EmitStatus bool string

text \<open>A callback that was never registered is the initial no-op.\<close>

definition emit_frame :: "bool \<Rightarrow> swarm_state \<Rightarrow> source_out list" where
  "emit_frame registered f = (if registered then [EmitFrame f] else [])"

definition emit_status :: "bool \<Rightarrow> bool \<Rightarrow> string \<Rightarrow> source_out list" where
  "emit_status registered conn detail = (if registered then [EmitStatus conn detail] else [])"

fun is_frame :: "source_out \<Rightarrow> bool" where
  "is_frame (EmitFrame _) = True"
| "is_frame (EmitStatus _ _) = False"

locale source = id_minter mint issue ctr
  for mint :: "'env \<Rightarrow> nat \<Rightarrow> string"
    and issue :: "'env \<Rightarrow> 's \<Rightarrow> string option \<Rightarrow> 's \<times> string"
    and ctr :: "'s \<Rightarrow> nat" +
  fixes onStatus :: "'s \<Rightarrow> 's"
    and onFrame :: "'s \<Rightarrow> 's"
    and start :: "'s \<Rightarrow> 's \<times> source_out list"
  assumes start_reports:
    "\<exists>conn detail. snd (start (onFrame (onStatus s))) = [EmitStatus conn detail]"
begin

lemma start_no_frame: "filter is_frame (snd (start (onFrame (onStatus s)))) = []"
  using start_reports[of s] by auto

end

end
