(* ===== verification/FakeSource.thy ===== *)
theory FakeSource
  imports Source
begin

text \<open>
  \<open>bridge/src/fakeSource.ts\<close>: the self-contained simulator. The state is the class's private
  fields; \<open>elapsed\<close> is a real number of seconds, since nothing but \<open>DT\<close> is ever added to
  it, and the physical parameters of a robot are \<open>jsnum\<close>, since commands write them. The
  interval handles of the host are numbers: \<open>fs_live_timers\<close> are the running ones,
  \<open>fs_timer\<close> the one the field remembers.
\<close>

section \<open>Data\<close>

definition DT :: real where "DT = 1 / 5"

definition RETAIN_TICKS :: nat where "RETAIN_TICKS = 40"

record fake_robot =
  fr_id :: string
  fr_cx :: jsnum
  fr_cy :: jsnum
  fr_R :: jsnum
  fr_V :: jsnum
  fr_theta0 :: jsnum
  fr_frozen :: bool
  fr_cycle :: bool

definition CYCLE_live :: real where "CYCLE_live = 9"
definition CYCLE_stale :: real where "CYCLE_stale = 6"
definition CYCLE_lost :: real where "CYCLE_lost = 4"
definition CYCLE_PERIOD :: real where "CYCLE_PERIOD = CYCLE_live + CYCLE_stale + CYCLE_lost"

record target_progress =
  tp_robot_id :: string
  tp_state :: command_state
  tp_detail :: string
  tp_ticksToNext :: int
  tp_pending :: "params option"

record fake_command =
  fc_command_id :: string
  fc_targets :: "target_progress list"
  fc_retire :: int

record fake_source =
  fs_robots :: "fake_robot list"
  fs_elapsed :: real
  fs_seq :: nat
  fs_timer :: "nat option"
  fs_live_timers :: "nat list"
  fs_next_timer :: nat
  fs_commands :: "fake_command list"
  fs_frameCb :: bool
  fs_statusCb :: bool
  fs_commandSeq :: nat

definition fake_robot_of ::
  "string \<Rightarrow> real \<Rightarrow> real \<Rightarrow> real \<Rightarrow> real \<Rightarrow> real \<Rightarrow> bool \<Rightarrow> fake_robot"
where
  "fake_robot_of i cx cy R V theta0 cyc =
     \<lparr>fr_id = i, fr_cx = Fin cx, fr_cy = Fin cy, fr_R = Fin R, fr_V = Fin V,
      fr_theta0 = Fin theta0, fr_frozen = False, fr_cycle = cyc\<rparr>"

definition new_fake_source :: fake_source where
  "new_fake_source =
     \<lparr>fs_robots =
        [fake_robot_of ''R-01'' 0 0 80 14 0 False,
         fake_robot_of ''R-02'' 300 250 60 11 (11 / 10) False,
         fake_robot_of ''R-03'' 700 600 95 16 (22 / 10) False,
         fake_robot_of ''R-04'' 500 420 70 12 (33 / 10) False,
         fake_robot_of ''R-05'' 760 560 65 9 (44 / 10) False,
         fake_robot_of ''R-06'' 140 90 70 13 (55 / 10) True],
      fs_elapsed = 0, fs_seq = 0, fs_timer = None, fs_live_timers = [], fs_next_timer = 0,
      fs_commands = [], fs_frameCb = False, fs_statusCb = False, fs_commandSeq = 0\<rparr>"

section \<open>Motion and link of one robot\<close>

definition robotById :: "fake_robot list \<Rightarrow> string \<Rightarrow> fake_robot option" where
  "robotById rs i = find (\<lambda>r. fr_id r = i) rs"

definition fake_robotState :: "real \<Rightarrow> nat \<Rightarrow> fake_robot \<Rightarrow> robot_state" where
  "fake_robotState elapsed sq r =
     (let omega = fr_V r / fr_R r;
          live = (omega * Fin elapsed + fr_theta0 r, LINK_LIVE, 60);
          (phi, link, ageMs) =
            (if fr_frozen r then
               (fr_theta0 r, LINK_STALE, js_round (2000 + elapsed * 1000))
             else if fr_cycle r then
               (let ph = js_fmod elapsed CYCLE_PERIOD in
                if ph \<ge> CYCLE_live then
                  (let staleStart = elapsed - (ph - CYCLE_live) in
                   (omega * Fin staleStart + fr_theta0 r,
                    if ph < CYCLE_live + CYCLE_stale then LINK_STALE else LINK_LOST,
                    js_round ((ph - CYCLE_live) * 1000)))
                else live)
             else live)
      in \<lparr>rb_telemetry =
            \<lparr>tl_robot_id = fr_id r, tl_seq = sq, tl_timestamp = None,
             tl_x = fr_cx r + fr_R r * js_cos phi,
             tl_y = fr_cy r + fr_R r * js_sin phi,
             tl_heading = phi + Fin (pi / 2),
             tl_speed = fr_V r, tl_radius = fr_R r\<rparr>,
          rb_link_status = link, rb_age_ms = ageMs\<rparr>)"

definition apply_to :: "real \<Rightarrow> params \<Rightarrow> fake_robot \<Rightarrow> fake_robot" where
  "apply_to elapsed p r0 =
     (let phiOld = (fr_V r0 / fr_R r0) * Fin elapsed + fr_theta0 r0;
          r1 = (case pr_center_x p of Some v \<Rightarrow> r0\<lparr>fr_cx := v\<rparr> | None \<Rightarrow> r0);
          r2 = (case pr_center_y p of Some v \<Rightarrow> r1\<lparr>fr_cy := v\<rparr> | None \<Rightarrow> r1);
          r3 = (case pr_radius p of Some v \<Rightarrow> if Fin 0 < v then r2\<lparr>fr_R := v\<rparr> else r2 | None \<Rightarrow> r2);
          r4 = (case pr_speed p of Some v \<Rightarrow> r3\<lparr>fr_V := v\<rparr> | None \<Rightarrow> r3)
      in (case pr_theta p of
            Some v \<Rightarrow> r4\<lparr>fr_theta0 := v\<rparr>
          | None \<Rightarrow> r4\<lparr>fr_theta0 := phiOld - (fr_V r4 / fr_R r4) * Fin elapsed\<rparr>))"

definition applyParams :: "real \<Rightarrow> fake_robot list \<Rightarrow> string \<Rightarrow> params \<Rightarrow> fake_robot list" where
  "applyParams elapsed rs i p = update_first (\<lambda>r. fr_id r = i) (apply_to elapsed p) rs"

section \<open>Command lifecycle\<close>

definition in_flight :: "command_state \<Rightarrow> bool" where
  "in_flight s \<longleftrightarrow> s = CMD_PENDING \<or> s = CMD_SENT"

definition advance_target ::
  "real \<Rightarrow> fake_robot list \<Rightarrow> target_progress \<Rightarrow> fake_robot list \<times> target_progress list"
where
  "advance_target elapsed rs t =
     (if in_flight (tp_state t) then
        (let t1 = t\<lparr>tp_ticksToNext := tp_ticksToNext t - 1\<rparr> in
         if tp_ticksToNext t1 \<le> 0 then
           (if tp_state t1 = CMD_PENDING
            then (rs, [t1\<lparr>tp_state := CMD_SENT, tp_ticksToNext := 2\<rparr>])
            else (applyParams elapsed rs (tp_robot_id t1)
                    (case tp_pending t1 of Some p \<Rightarrow> p | None \<Rightarrow> no_params),
                  [t1\<lparr>tp_state := CMD_APPLIED\<rparr>]))
         else (rs, [t1]))
      else (rs, [t]))"

definition settle :: "fake_command \<Rightarrow> fake_command" where
  "settle c = (if list_all (\<lambda>t. \<not> in_flight (tp_state t)) (fc_targets c)
     then c\<lparr>fc_retire := fc_retire c - 1\<rparr> else c)"

definition advance_command ::
  "real \<Rightarrow> fake_robot list \<Rightarrow> fake_command \<Rightarrow> fake_robot list \<times> fake_command list"
where
  "advance_command elapsed rs c =
     (let (rs', ts) = run (advance_target elapsed) rs (fc_targets c)
      in (rs', [settle (c\<lparr>fc_targets := ts\<rparr>)]))"

definition advanceCommands :: "fake_source \<Rightarrow> fake_source" where
  "advanceCommands s =
     (let (rs, cs) = run (advance_command (fs_elapsed s)) (fs_robots s) (fs_commands s)
      in s\<lparr>fs_robots := rs, fs_commands := filter (\<lambda>c. fc_retire c > 0) cs\<rparr>)"

definition command_statuses :: "fake_source \<Rightarrow> command_status list" where
  "command_statuses s =
     map (\<lambda>c. \<lparr>cs_command_id = fc_command_id c,
                cs_targets = map (\<lambda>t. \<lparr>tg_robot_id = tp_robot_id t, tg_state = tp_state t,
                                        tg_detail = tp_detail t\<rparr>) (fc_targets c)\<rparr>) (fs_commands s)"

definition tick :: "fake_source \<Rightarrow> fake_source \<times> source_out list" where
  "tick s =
     (let s1 = advanceCommands (s\<lparr>fs_elapsed := fs_elapsed s + DT\<rparr>);
          robots = map (fake_robotState (fs_elapsed s1) (fs_seq s1)) (fs_robots s1);
          commands = command_statuses s1
      in (s1\<lparr>fs_seq := Suc (fs_seq s1)\<rparr>,
          emit_frame (fs_frameCb s1)
            \<lparr>sw_seq = fs_seq s1, sw_server_time = None, sw_robots = robots, sw_commands = commands\<rparr>))"

definition fake_target :: "fake_robot list \<Rightarrow> params \<Rightarrow> string \<Rightarrow> target_progress" where
  "fake_target rs p i =
     (case robotById rs i of
        None \<Rightarrow> \<lparr>tp_robot_id = i, tp_state = CMD_ROBOT_OFFLINE, tp_detail = ''unknown robot'',
                 tp_ticksToNext = 0, tp_pending = None\<rparr>
      | Some r \<Rightarrow>
          if fr_frozen r
          then \<lparr>tp_robot_id = i, tp_state = CMD_ROBOT_OFFLINE, tp_detail = ''link lost'',
                tp_ticksToNext = 0, tp_pending = None\<rparr>
          else \<lparr>tp_robot_id = i, tp_state = CMD_PENDING, tp_detail = '''',
                tp_ticksToNext = 1, tp_pending = Some p\<rparr>)"

definition fake_id :: "unit \<Rightarrow> nat \<Rightarrow> string" where
  "fake_id e n = ''fake-'' @ nat_str n"

definition issue_fake_id :: "unit \<Rightarrow> fake_source \<Rightarrow> string option \<Rightarrow> fake_source \<times> string" where
  "issue_fake_id e s given =
     (case given of
        Some i \<Rightarrow> (s, i)
      | None \<Rightarrow> (s\<lparr>fs_commandSeq := Suc (fs_commandSeq s)\<rparr>, fake_id e (fs_commandSeq s)))"

definition fake_sendCommand :: "fake_source \<Rightarrow> command_intent \<Rightarrow> fake_source \<times> accepted" where
  "fake_sendCommand s intent =
     (let (s1, command_id) = issue_fake_id () s (in_command_id intent);
          targets = map (fake_target (fs_robots s1) (in_params intent)) (in_targets intent)
      in (s1\<lparr>fs_commands := fs_commands s1 @
               [\<lparr>fc_command_id = command_id, fc_targets = targets, fc_retire = int RETAIN_TICKS\<rparr>]\<rparr>,
          \<lparr>ac_command_id = command_id, ac_accepted = True, ac_detail = ''fake''\<rparr>))"

section \<open>Starting, stopping, callbacks\<close>

definition fake_onFrame :: "fake_source \<Rightarrow> fake_source" where
  "fake_onFrame s = s\<lparr>fs_frameCb := True\<rparr>"

definition fake_onStatus :: "fake_source \<Rightarrow> fake_source" where
  "fake_onStatus s = s\<lparr>fs_statusCb := True\<rparr>"

definition fake_start :: "fake_source \<Rightarrow> fake_source \<times> source_out list" where
  "fake_start s =
     (s\<lparr>fs_timer := Some (fs_next_timer s), fs_live_timers := fs_next_timer s # fs_live_timers s,
         fs_next_timer := Suc (fs_next_timer s)\<rparr>,
      emit_status (fs_statusCb s) True ''fake simulator running (no C2 server needed)'')"

definition fake_stop :: "fake_source \<Rightarrow> fake_source" where
  "fake_stop s =
     (case fs_timer s of
        None \<Rightarrow> s
      | Some k \<Rightarrow> s\<lparr>fs_live_timers := js_remove k (fs_live_timers s)\<rparr>)\<lparr>fs_timer := None\<rparr>"

datatype fake_event =
    FakeOnFrame | FakeOnStatus | FakeStart | FakeStop | FakeTimer | FakeSend command_intent

fun fake_step :: "fake_source \<Rightarrow> fake_event \<Rightarrow> fake_source \<times> source_out list" where
  "fake_step s FakeOnFrame = (fake_onFrame s, [])"
| "fake_step s FakeOnStatus = (fake_onStatus s, [])"
| "fake_step s FakeStart = fake_start s"
| "fake_step s FakeStop = (fake_stop s, [])"
| "fake_step s FakeTimer = (if fs_live_timers s = [] then (s, []) else tick s)"
| "fake_step s (FakeSend intent) = (fst (fake_sendCommand s intent), [])"

definition fake_session :: "fake_event list \<Rightarrow> fake_source" where
  "fake_session evs = fst (run fake_step new_fake_source evs)"

section \<open>Robots stay well-formed\<close>

definition robot_ok :: "fake_robot \<Rightarrow> bool" where
  "robot_ok r \<longleftrightarrow> Fin 0 < fr_R r \<and> \<not> fr_frozen r"

lemma apply_to_fields [simp]:
  "fr_id (apply_to e p r) = fr_id r"
  "fr_frozen (apply_to e p r) = fr_frozen r"
  "fr_cycle (apply_to e p r) = fr_cycle r"
  "fr_cx (apply_to e p r) = (case pr_center_x p of Some v \<Rightarrow> v | None \<Rightarrow> fr_cx r)"
  "fr_cy (apply_to e p r) = (case pr_center_y p of Some v \<Rightarrow> v | None \<Rightarrow> fr_cy r)"
  "fr_V (apply_to e p r) = (case pr_speed p of Some v \<Rightarrow> v | None \<Rightarrow> fr_V r)"
  "fr_R (apply_to e p r) =
     (case pr_radius p of Some v \<Rightarrow> if Fin 0 < v then v else fr_R r | None \<Rightarrow> fr_R r)"
  by (simp_all add: apply_to_def Let_def split: option.split)

lemma robot_ok_apply: "robot_ok r \<Longrightarrow> robot_ok (apply_to e p r)"
  by (auto simp: robot_ok_def split: option.split)

definition robots_ok :: "fake_robot list \<Rightarrow> bool" where
  "robots_ok rs \<longleftrightarrow> list_all robot_ok rs \<and> map fr_id rs = map fr_id (fs_robots new_fake_source)"

lemma robots_ok_apply: "robots_ok rs \<Longrightarrow> robots_ok (applyParams e rs i p)"
  by (auto simp: robots_ok_def applyParams_def map_update_first robot_ok_apply
      intro!: list_all_update_first)

interpretation target_machine: io_machine "advance_target e" robots_ok "\<lambda>_. True" for e
  by unfold_locales (auto simp: advance_target_def Let_def robots_ok_apply list_all_iff)

interpretation command_machine: io_machine "advance_command e" robots_ok "\<lambda>_. True" for e
  by unfold_locales
    (auto simp: advance_command_def split_beta list_all_iff target_machine.run_inv)

text \<open>The invariant of the source: its robots are well-formed, time never runs backwards and is
  a whole number of ticks.\<close>

definition fake_inv :: "fake_source \<Rightarrow> bool" where
  "fake_inv s \<longleftrightarrow> robots_ok (fs_robots s) \<and> (\<exists>n. fs_elapsed s = real n * DT)"

lemma advanceCommands_fields [simp]:
  "fs_elapsed (advanceCommands s) = fs_elapsed s"
  "fs_seq (advanceCommands s) = fs_seq s"
  "fs_frameCb (advanceCommands s) = fs_frameCb s"
  "fs_statusCb (advanceCommands s) = fs_statusCb s"
  "fs_live_timers (advanceCommands s) = fs_live_timers s"
  "fs_commandSeq (advanceCommands s) = fs_commandSeq s"
  by (simp_all add: advanceCommands_def split_beta)

lemma tick_fields [simp]:
  "fs_elapsed (fst (tick s)) = fs_elapsed s + DT"
  "fs_seq (fst (tick s)) = Suc (fs_seq s)"
  "fs_frameCb (fst (tick s)) = fs_frameCb s"
  "fs_live_timers (fst (tick s)) = fs_live_timers s"
  "fs_robots (fst (tick s)) = fs_robots (advanceCommands (s\<lparr>fs_elapsed := fs_elapsed s + DT\<rparr>))"
  "fs_commands (fst (tick s)) = fs_commands (advanceCommands (s\<lparr>fs_elapsed := fs_elapsed s + DT\<rparr>))"
  by (simp_all add: tick_def Let_def)

lemma issue_fake_id_fields [simp]:
  "fs_robots (fst (issue_fake_id u s g)) = fs_robots s"
  "fs_elapsed (fst (issue_fake_id u s g)) = fs_elapsed s"
  "fs_commands (fst (issue_fake_id u s g)) = fs_commands s"
  by (simp_all add: issue_fake_id_def split: option.split)

lemma fake_sendCommand_fields [simp]:
  "fs_robots (fst (fake_sendCommand s i)) = fs_robots s"
  "fs_elapsed (fst (fake_sendCommand s i)) = fs_elapsed s"
  by (simp_all add: fake_sendCommand_def split_beta Let_def)

lemma robots_ok_advance: "robots_ok (fs_robots s) \<Longrightarrow> robots_ok (fs_robots (advanceCommands s))"
  by (simp add: advanceCommands_def split_beta command_machine.run_inv)

lemma fake_inv_new [inv_intros]: "fake_inv new_fake_source"
  by (auto simp: fake_inv_def robots_ok_def new_fake_source_def fake_robot_of_def robot_ok_def
      intro: exI[of _ 0])

lemma fake_inv_tick [inv_intros]: "fake_inv s \<Longrightarrow> fake_inv (fst (tick s))"
proof -
  assume inv: "fake_inv s"
  then obtain n where "fs_elapsed s = real n * DT" by (auto simp: fake_inv_def)
  then have "fs_elapsed (fst (tick s)) = real (Suc n) * DT" by (simp add: algebra_simps)
  moreover have "robots_ok (fs_robots (fst (tick s)))"
    using inv robots_ok_advance[of "s\<lparr>fs_elapsed := fs_elapsed s + DT\<rparr>"]
    by (simp add: fake_inv_def)
  ultimately show ?thesis unfolding fake_inv_def by blast
qed

lemma fake_inv_step: "fake_inv s \<Longrightarrow> fake_inv (fst (fake_step s ev))"
proof (cases ev)
  case FakeTimer
  assume "fake_inv s"
  then show ?thesis by (auto simp: FakeTimer intro: inv_intros)
qed (auto simp: fake_inv_def fake_onFrame_def fake_onStatus_def fake_start_def fake_stop_def
    split: option.split)

interpretation fake_machine: io_machine fake_step fake_inv "\<lambda>_. True"
  by unfold_locales (auto simp: fake_inv_step list_all_iff)

lemma fake_inv_session: "fake_inv (fake_session evs)"
  unfolding fake_session_def by (rule fake_machine.run_inv[OF fake_inv_new])

section \<open>Commands age independently of the robots\<close>

text \<open>What a tick does to one command, without the parameters it writes.\<close>

definition age_target :: "target_progress \<Rightarrow> target_progress" where
  "age_target t = hd (snd (advance_target 0 [] t))"

definition age_command :: "fake_command \<Rightarrow> fake_command" where
  "age_command c = settle (c\<lparr>fc_targets := map age_target (fc_targets c)\<rparr>)"

lemma advance_target_age: "snd (advance_target e rs t) = [age_target t]"
  by (simp add: age_target_def advance_target_def Let_def)

lemma advance_targets_age: "snd (run (advance_target e) rs ts) = map age_target ts"
  by (induction ts arbitrary: rs) (simp_all add: split_beta advance_target_age)

lemma advance_commands_age: "snd (run (advance_command e) rs cs) = map age_command cs"
  by (induction cs arbitrary: rs)
    (simp_all add: split_beta advance_command_def advance_targets_age age_command_def)

lemma tick_commands:
  "fs_commands (fst (tick s)) = filter (\<lambda>c. fc_retire c > 0) (map age_command (fs_commands s))"
  by (simp add: advanceCommands_def split_beta advance_commands_age)

text \<open>Ticks a target still needs to settle, and ticks a command still needs to be dropped.\<close>

definition wait :: "target_progress \<Rightarrow> nat" where
  "wait t = (if tp_state t = CMD_PENDING then nat (tp_ticksToNext t) + 2
             else if tp_state t = CMD_SENT then nat (tp_ticksToNext t) else 0)"

fun waits :: "target_progress list \<Rightarrow> nat" where
  "waits [] = 0"
| "waits (t # ts) = max (wait t) (waits ts)"

definition remaining :: "fake_command \<Rightarrow> nat" where
  "remaining c = (waits (fc_targets c) - 1) + nat (fc_retire c)"

definition target_ok :: "target_progress \<Rightarrow> bool" where
  "target_ok t \<longleftrightarrow> (in_flight (tp_state t) \<longrightarrow> 1 \<le> tp_ticksToNext t)"

definition command_ok :: "fake_command \<Rightarrow> bool" where
  "command_ok c \<longleftrightarrow> list_all target_ok (fc_targets c) \<and> 1 \<le> fc_retire c"

lemma age_target_wait: "target_ok t \<Longrightarrow> target_ok (age_target t) \<and> wait (age_target t) = wait t - 1"
  by (auto simp: target_ok_def age_target_def advance_target_def wait_def in_flight_def Let_def)

lemma age_targets_wait:
  "list_all target_ok ts \<Longrightarrow>
     list_all target_ok (map age_target ts) \<and> waits (map age_target ts) = waits ts - 1"
  by (induction ts) (auto simp: age_target_wait)

lemma settled_iff:
  "list_all target_ok ts \<Longrightarrow> list_all (\<lambda>t. \<not> in_flight (tp_state t)) ts \<longleftrightarrow> waits ts = 0"
  by (induction ts) (auto simp: target_ok_def in_flight_def wait_def)

lemma age_command_remaining:
  assumes "command_ok c"
  shows "remaining (age_command c) = remaining c - 1"
    and "fc_retire (age_command c) > 0 \<longleftrightarrow> remaining c > 1"
    and "fc_retire (age_command c) > 0 \<Longrightarrow> command_ok (age_command c)"
proof -
  note age = age_targets_wait[of "fc_targets c"]
  from assms have ok: "list_all target_ok (fc_targets c)" "1 \<le> fc_retire c"
    by (simp_all add: command_ok_def)
  note settled = settled_iff[OF conjunct1[OF age[OF ok(1)]]]
  show "remaining (age_command c) = remaining c - 1"
    using ok age[OF ok(1)] by (auto simp: age_command_def settle_def settled remaining_def)
  show "fc_retire (age_command c) > 0 \<longleftrightarrow> remaining c > 1"
    using ok age[OF ok(1)] by (auto simp: age_command_def settle_def settled remaining_def)
  show "command_ok (age_command c)" if "fc_retire (age_command c) > 0"
    using that ok age[OF ok(1)]
    by (auto simp: age_command_def settle_def command_ok_def split: if_splits)
qed

text \<open>A command is dropped at the latest 42 ticks after it was submitted: three for the slowest
  lifecycle, and 40 of retention of which the first is the tick it settles in.\<close>

definition commands_ok :: "nat \<Rightarrow> fake_source \<Rightarrow> bool" where
  "commands_ok n s \<longleftrightarrow> list_all (\<lambda>c. command_ok c \<and> remaining c \<le> n) (fs_commands s)"

lemma commands_ok_tick: "commands_ok (Suc n) s \<Longrightarrow> commands_ok n (fst (tick s))"
  by (auto simp: commands_ok_def tick_commands list_all_iff age_command_remaining simp del: tick_fields)

lemma commands_ok_mono: "commands_ok m s \<Longrightarrow> m \<le> n \<Longrightarrow> commands_ok n s"
  by (auto simp: commands_ok_def list_all_iff)

lemma fake_target_ok: "target_ok (fake_target rs p i) \<and> wait (fake_target rs p i) \<le> 3"
  by (auto simp: fake_target_def target_ok_def wait_def in_flight_def split: option.split)

lemma waits_le: "list_all (\<lambda>t. wait t \<le> n) ts \<Longrightarrow> waits ts \<le> n"
  by (induction ts) auto

lemma commands_ok_send: "commands_ok 42 s \<Longrightarrow> commands_ok 42 (fst (fake_sendCommand s i))"
proof -
  let ?ts = "map (fake_target (fs_robots s) (in_params i)) (in_targets i)"
  have "waits ?ts \<le> 3" by (rule waits_le) (simp add: list_all_iff fake_target_ok)
  moreover have "list_all target_ok ?ts" by (simp add: list_all_iff fake_target_ok)
  ultimately show "commands_ok 42 s \<Longrightarrow> ?thesis"
    by (simp add: commands_ok_def fake_sendCommand_def split_beta Let_def command_ok_def
        remaining_def RETAIN_TICKS_def)
qed

interpretation retention: io_machine fake_step "commands_ok 42" "\<lambda>_. True"
proof unfold_locales
  fix s e
  assume ok: "commands_ok 42 s"
  show "commands_ok 42 (fst (fake_step s e))"
  proof (cases e)
    case FakeTimer
    have "commands_ok 42 (fst (tick s))"
      by (rule commands_ok_mono[OF commands_ok_tick[of 41]]) (use ok in simp_all)
    with ok show ?thesis by (simp add: FakeTimer)
  next
    case (FakeSend i)
    with commands_ok_send[OF ok] show ?thesis by simp
  qed (use ok in \<open>auto simp: commands_ok_def fake_onFrame_def fake_onStatus_def fake_start_def
      fake_stop_def split: option.split\<close>)
qed (simp add: list_all_iff)

lemma commands_ok_session: "commands_ok 42 (fake_session evs)"
  unfolding fake_session_def
  by (rule retention.run_inv) (simp add: commands_ok_def new_fake_source_def)

lemma commands_ok_ticks: "commands_ok n s \<Longrightarrow> fs_commands (((\<lambda>s. fst (tick s)) ^^ n) s) = []"
proof (induction n arbitrary: s)
  case 0
  have nz: "command_ok c \<Longrightarrow> remaining c \<noteq> 0" for c
    by (auto simp: command_ok_def remaining_def)
  from 0 show ?case by (cases "fs_commands s") (auto simp: commands_ok_def dest: nz)
next
  case (Suc n)
  from Suc.IH[OF commands_ok_tick[OF Suc.prems]] show ?case
    by (simp add: funpow_Suc_right del: funpow.simps)
qed

section \<open>The timeline of one command\<close>

definition life_state :: "nat \<Rightarrow> command_state \<Rightarrow> command_state" where
  "life_state k s = (if s = CMD_PENDING then
     (if k = 0 then CMD_PENDING else if k < 3 then CMD_SENT else CMD_APPLIED) else s)"

definition life_target :: "nat \<Rightarrow> target_progress \<Rightarrow> target_progress" where
  "life_target k t = (if tp_state t = CMD_PENDING
     then t\<lparr>tp_state := life_state k CMD_PENDING,
            tp_ticksToNext := (if k = 0 then 1 else if k < 3 then 3 - int k else 0)\<rparr> else t)"

lemma life_target_0: "life_target 0 (fake_target rs p i) = fake_target rs p i"
  by (simp add: life_target_def life_state_def fake_target_def split: option.split)

lemma life_target_Suc:
  "age_target (life_target k (fake_target rs p i)) = life_target (Suc k) (fake_target rs p i)"
  by (auto simp: life_target_def life_state_def fake_target_def age_target_def advance_target_def
      in_flight_def Let_def less_Suc_eq numeral_3_eq_3 split: option.split)

lemma settle_fields [simp]:
  "fc_targets (settle c) = fc_targets c" "fc_command_id (settle c) = fc_command_id c"
  "fc_retire c - 1 \<le> fc_retire (settle c)"
  by (simp_all add: settle_def)

lemma age_command_fields:
  "fc_targets (age_command c) = map age_target (fc_targets c)"
  "fc_command_id (age_command c) = fc_command_id c"
  "fc_retire c - 1 \<le> fc_retire (age_command c)"
  using settle_fields(3)[of "c\<lparr>fc_targets := map age_target (fc_targets c)\<rparr>"]
  by (simp_all add: age_command_def)

lemma age_command_timeline:
  assumes "fc_targets c = map (fake_target rs p) ids"
  shows "fc_targets ((age_command ^^ k) c) = map (\<lambda>i. life_target k (fake_target rs p i)) ids \<and>
    fc_command_id ((age_command ^^ k) c) = fc_command_id c \<and>
    fc_retire c - int k \<le> fc_retire ((age_command ^^ k) c)"
proof (induction k)
  case 0
  with assms show ?case by (simp add: life_target_0)
next
  case (Suc k)
  with age_command_fields(3)[of "(age_command ^^ k) c"] show ?case
    by (simp add: age_command_fields(1,2) life_target_Suc)
qed

lemma newest_command:
  "fs_commands s = cs @ [c] \<Longrightarrow> (\<And>j. j \<le> k \<Longrightarrow> 0 < fc_retire ((age_command ^^ j) c)) \<Longrightarrow>
     \<exists>cs'. fs_commands (((\<lambda>s. fst (tick s)) ^^ k) s) = cs' @ [(age_command ^^ k) c]"
proof (induction k)
  case 0
  then show ?case by simp
next
  case (Suc k)
  then obtain cs' where "fs_commands (((\<lambda>s. fst (tick s)) ^^ k) s) = cs' @ [(age_command ^^ k) c]"
    by auto
  with Suc.prems(2)[of "Suc k"] show ?case
    by (simp add: tick_commands del: tick_fields)
qed

section \<open>Phase\<close>

definition fake_phase :: "real \<Rightarrow> fake_robot \<Rightarrow> jsnum" where
  "fake_phase elapsed r = (fr_V r / fr_R r) * Fin elapsed + fr_theta0 r"

definition robot_finite :: "fake_robot \<Rightarrow> bool" where
  "robot_finite r \<longleftrightarrow> is_finite (fr_cx r) \<and> is_finite (fr_cy r) \<and> is_finite (fr_R r) \<and>
     is_finite (fr_V r) \<and> is_finite (fr_theta0 r) \<and> Fin 0 < fr_R r"

definition params_finite :: "params \<Rightarrow> bool" where
  "params_finite p \<longleftrightarrow> pred_option is_finite (pr_speed p) \<and> pred_option is_finite (pr_radius p) \<and>
     pred_option is_finite (pr_center_x p) \<and> pred_option is_finite (pr_center_y p) \<and>
     pred_option is_finite (pr_theta p)"

lemma finite_div: "is_finite a \<Longrightarrow> is_finite b \<Longrightarrow> Fin 0 < b \<Longrightarrow> is_finite (a / b)"
  by (cases a; cases b) auto

lemma finite_ops [simp]:
  "is_finite a \<Longrightarrow> is_finite b \<Longrightarrow> is_finite (a + b)"
  "is_finite a \<Longrightarrow> is_finite b \<Longrightarrow> is_finite (a - b)"
  "is_finite a \<Longrightarrow> is_finite b \<Longrightarrow> is_finite (a * b)"
  by (cases a; cases b; simp)+

lemma sub_add_cancel: "is_finite a \<Longrightarrow> is_finite b \<Longrightarrow> a + (b - a) = b"
  by (cases a; cases b) auto

lemma apply_to_theta:
  "fr_theta0 (apply_to e p r) =
     (case pr_theta p of
        Some v \<Rightarrow> v
      | None \<Rightarrow> fake_phase e r - (fr_V (apply_to e p r) / fr_R (apply_to e p r)) * Fin e)"
  by (simp add: apply_to_def fake_phase_def Let_def split: option.split)

lemma apply_to_finite_VR:
  "robot_finite r \<Longrightarrow> params_finite p \<Longrightarrow>
     is_finite (fr_V (apply_to e p r)) \<and> is_finite (fr_R (apply_to e p r)) \<and>
     Fin 0 < fr_R (apply_to e p r)"
  by (auto simp: robot_finite_def params_finite_def split: option.split)

lemma phase_finite: "robot_finite r \<Longrightarrow> is_finite (fake_phase e r)"
  by (simp add: robot_finite_def fake_phase_def finite_div)

lemma phase_preserved:
  assumes "robot_finite r" "params_finite p" "pr_theta p = None"
  shows "fake_phase e (apply_to e p r) = fake_phase e r"
proof -
  have "is_finite ((fr_V (apply_to e p r) / fr_R (apply_to e p r)) * Fin e)"
    using apply_to_finite_VR[OF assms(1,2)] by (simp add: finite_div)
  from sub_add_cancel[OF this phase_finite[OF assms(1)]] show ?thesis
    by (simp add: fake_phase_def[of e "apply_to e p r"] apply_to_theta assms(3))
qed

lemma robot_finite_apply: "robot_finite r \<Longrightarrow> params_finite p \<Longrightarrow> robot_finite (apply_to e p r)"
  using apply_to_finite_VR[of r p e] phase_finite[of r e]
  by (auto simp: robot_finite_def params_finite_def apply_to_theta finite_div split: option.split)

lemma live_state:
  "\<not> fr_frozen r \<Longrightarrow> \<not> fr_cycle r \<Longrightarrow>
     fake_robotState e q r =
       \<lparr>rb_telemetry =
          \<lparr>tl_robot_id = fr_id r, tl_seq = q, tl_timestamp = None,
           tl_x = fr_cx r + fr_R r * js_cos (fake_phase e r),
           tl_y = fr_cy r + fr_R r * js_sin (fake_phase e r),
           tl_heading = fake_phase e r + Fin (pi / 2), tl_speed = fr_V r, tl_radius = fr_R r\<rparr>,
        rb_link_status = LINK_LIVE, rb_age_ms = 60\<rparr>"
  by (simp add: fake_robotState_def fake_phase_def Let_def)

section \<open>The scripted link-loss cycle\<close>

text \<open>Where the current cycle began, and the phase within it.\<close>

definition cycle_start :: "real \<Rightarrow> real" where
  "cycle_start e = CYCLE_PERIOD * of_int \<lfloor>e / CYCLE_PERIOD\<rfloor>"

lemma cycle_phase: "0 \<le> e \<Longrightarrow> js_fmod e CYCLE_PERIOD = e - cycle_start e"
  by (simp add: js_fmod_nonneg cycle_start_def CYCLE_PERIOD_def CYCLE_live_def CYCLE_stale_def CYCLE_lost_def)

lemma same_cycle:
  assumes "e1 \<le> e2" "e2 < cycle_start e1 + CYCLE_PERIOD"
  shows "cycle_start e2 = cycle_start e1"
proof -
  have P: "0 < CYCLE_PERIOD"
    by (simp add: CYCLE_PERIOD_def CYCLE_live_def CYCLE_stale_def CYCLE_lost_def)
  have "of_int \<lfloor>e1 / CYCLE_PERIOD\<rfloor> \<le> e2 / CYCLE_PERIOD"
    using assms(1) P by (meson divide_right_mono floor_correct less_eq_real_def order_trans)
  moreover have "e2 / CYCLE_PERIOD < of_int \<lfloor>e1 / CYCLE_PERIOD\<rfloor> + 1"
    using assms(2) P by (simp add: cycle_start_def field_simps)
  ultimately have "\<lfloor>e2 / CYCLE_PERIOD\<rfloor> = \<lfloor>e1 / CYCLE_PERIOD\<rfloor>" by linarith
  then show ?thesis by (simp add: cycle_start_def)
qed

lemma cycle_state:
  assumes "fr_cycle r" "\<not> fr_frozen r" "0 \<le> e"
  shows "fake_robotState e q r =
    (let down = CYCLE_live \<le> e - cycle_start e;
         phi = fake_phase (if down then cycle_start e + CYCLE_live else e) r
     in \<lparr>rb_telemetry =
          \<lparr>tl_robot_id = fr_id r, tl_seq = q, tl_timestamp = None,
           tl_x = fr_cx r + fr_R r * js_cos phi, tl_y = fr_cy r + fr_R r * js_sin phi,
           tl_heading = phi + Fin (pi / 2), tl_speed = fr_V r, tl_radius = fr_R r\<rparr>,
        rb_link_status =
          (if \<not> down then LINK_LIVE
           else if e - cycle_start e < CYCLE_live + CYCLE_stale then LINK_STALE else LINK_LOST),
        rb_age_ms = (if down then js_round ((e - cycle_start e - CYCLE_live) * 1000) else 60)\<rparr>)"
  using assms by (auto simp: fake_robotState_def cycle_phase fake_phase_def Let_def algebra_simps)

section \<open>Ids and the source contract\<close>

interpretation fake_source: source fake_id issue_fake_id fs_commandSeq fake_onStatus fake_onFrame fake_start
  by unfold_locales
    (auto simp: fake_id_def issue_fake_id_def fake_start_def fake_onStatus_def fake_onFrame_def
      emit_status_def)

section \<open>Frames\<close>

fun frame_of :: "source_out \<Rightarrow> swarm_state list" where
  "frame_of (EmitFrame f) = [f]"
| "frame_of (EmitStatus _ _) = []"

definition frames_emitted :: "source_out list \<Rightarrow> swarm_state list" where
  "frames_emitted os = concat (map frame_of os)"

lemma frames_emitted_append [simp]:
  "frames_emitted (os @ ps) = frames_emitted os @ frames_emitted ps"
  "frames_emitted [] = []"
  by (simp_all add: frames_emitted_def)

lemma frames_emitted_iff: "f \<in> set (frames_emitted os) \<longleftrightarrow> EmitFrame f \<in> set os"
proof -
  have "f \<in> set (frame_of x) \<longleftrightarrow> x = EmitFrame f" for x by (cases x) auto
  then show ?thesis by (auto simp: frames_emitted_def)
qed

lemma frames_emitted_emit [simp]:
  "frames_emitted (emit_frame b f) = (if b then [f] else [])"
  "frames_emitted (emit_status b c d) = []"
  by (simp_all add: frames_emitted_def emit_frame_def emit_status_def)

lemma robotState_id [simp]: "rb_id (fake_robotState e q r) = fr_id r"
  by (simp add: fake_robotState_def Let_def split_beta)

definition FAKE_IDS :: "string list" where
  "FAKE_IDS = [''R-01'', ''R-02'', ''R-03'', ''R-04'', ''R-05'', ''R-06'']"

lemma new_fake_ids: "map fr_id (fs_robots new_fake_source) = FAKE_IDS"
  by (simp add: new_fake_source_def fake_robot_of_def FAKE_IDS_def)

lemma tick_frame:
  assumes "fake_inv s" "fs_frameCb s"
  shows "map sw_seq (frames_emitted (snd (tick s))) = [fs_seq s] \<and>
    list_all (\<lambda>f. map rb_id (sw_robots f) = FAKE_IDS) (frames_emitted (snd (tick s)))"
proof -
  have "robots_ok (fs_robots (advanceCommands (s\<lparr>fs_elapsed := fs_elapsed s + DT\<rparr>)))"
    using assms(1) by (intro robots_ok_advance) (simp add: fake_inv_def)
  with assms(2) show ?thesis
    by (simp add: tick_def Let_def robots_ok_def new_fake_ids comp_def)
qed

lemma step_frames:
  assumes "fake_inv s" "fs_frameCb s"
  shows "let (s', os) = fake_step s ev in fs_frameCb s' \<and>
    map sw_seq (frames_emitted os) = [fs_seq s ..< fs_seq s'] \<and> fs_seq s \<le> fs_seq s' \<and>
    list_all (\<lambda>f. map rb_id (sw_robots f) = FAKE_IDS) (frames_emitted os)"
  using assms tick_frame[OF assms]
  by (cases ev)
    (auto simp: split_beta Let_def fake_onFrame_def fake_onStatus_def fake_start_def fake_stop_def
      fake_sendCommand_def issue_fake_id_def split: option.split)

lemma upt_join: "a \<le> b \<Longrightarrow> b \<le> c \<Longrightarrow> [a ..< b] @ [b ..< c] = [a ..< c]"
  using upt_add_eq_append[of a b "c - b"] by simp

lemma robotById_total: "i \<in> fr_id ` set rs \<Longrightarrow> \<exists>r \<in> set rs. robotById rs i = Some r"
  unfolding robotById_def by (induction rs) auto

lemma run_frames:
  "fake_inv s \<Longrightarrow> fs_frameCb s \<Longrightarrow>
     (let (s', os) = run fake_step s evs in
      map sw_seq (frames_emitted os) = [fs_seq s ..< fs_seq s'] \<and> fs_seq s \<le> fs_seq s' \<and>
      list_all (\<lambda>f. map rb_id (sw_robots f) = FAKE_IDS) (frames_emitted os))"
proof (induction evs arbitrary: s)
  case Nil
  then show ?case by simp
next
  case (Cons ev evs)
  let ?s = "fst (fake_step s ev)"
  from step_frames[OF Cons.prems, of ev] have "fs_frameCb ?s" by (simp add: split_beta Let_def)
  with Cons.IH[OF fake_inv_step[OF Cons.prems(1), of ev]] step_frames[OF Cons.prems, of ev] show ?case
    by (auto simp: split_beta Let_def upt_join)
qed

section \<open>Properties\<close>

text \<open>Whatever commands, timers and restarts the simulator goes through, it always has the
  same six robots in the same order, every radius is positive (so the angular rate
  \<open>V / R\<close> never divides by zero), and none of them is frozen.\<close>

theorem fake_robots_well_formed:
  "map fr_id (fs_robots (fake_session evs)) = FAKE_IDS \<and>
   list_all (\<lambda>r. Fin 0 < fr_R r \<and> \<not> fr_frozen r) (fs_robots (fake_session evs))"
  using fake_inv_session[of evs] by (simp add: fake_inv_def robots_ok_def robot_ok_def[abs_def] new_fake_ids)

text \<open>Bounded memory: in any state the simulator can reach, every tracked command is gone
  after 42 more ticks (8.4 seconds), so the command list never outlives the retention window.\<close>

theorem fake_commands_expire:
  "fs_commands (((\<lambda>s. fst (tick s)) ^^ 42) (fake_session evs)) = []"
  by (rule commands_ok_ticks[OF commands_ok_session])

text \<open>The timeline of a submitted command, tick by tick, while it is retained: a target that
  was admitted is PENDING when submitted, SENT after one and two ticks and APPLIED from the
  third on; a target that was refused stays ROBOT_OFFLINE; the id and the details never change.\<close>

theorem fake_command_timeline:
  assumes "k < 40"
  shows "last (command_statuses (((\<lambda>s. fst (tick s)) ^^ k) (fst (fake_sendCommand s i)))) =
    \<lparr>cs_command_id = ac_command_id (snd (fake_sendCommand s i)),
     cs_targets = map (\<lambda>r. let t = fake_target (fs_robots s) (in_params i) r in
       \<lparr>tg_robot_id = r, tg_state = life_state k (tp_state t), tg_detail = tp_detail t\<rparr>) (in_targets i)\<rparr>"
proof -
  let ?c = "\<lparr>fc_command_id = ac_command_id (snd (fake_sendCommand s i)),
     fc_targets = map (fake_target (fs_robots s) (in_params i)) (in_targets i),
     fc_retire = int RETAIN_TICKS\<rparr>"
  note timeline = age_command_timeline[of ?c "fs_robots s" "in_params i" "in_targets i"]
  obtain cs where "fs_commands (fst (fake_sendCommand s i)) = cs @ [?c]"
    by (simp add: fake_sendCommand_def split_beta Let_def)
  moreover have "0 < fc_retire ((age_command ^^ j) ?c)" if "j \<le> k" for j
  proof -
    from timeline[of j] have "fc_retire ?c - int j \<le> fc_retire ((age_command ^^ j) ?c)" by simp
    with that assms show ?thesis by (simp add: RETAIN_TICKS_def)
  qed
  ultimately obtain cs' where
    "fs_commands (((\<lambda>s. fst (tick s)) ^^ k) (fst (fake_sendCommand s i))) = cs' @ [(age_command ^^ k) ?c]"
    using newest_command by blast
  with timeline[of k] show ?thesis
    by (simp add: command_statuses_def Let_def life_target_def life_state_def fake_target_def
        split: option.split)
qed

theorem fake_command_timeline_witness:
  "last (command_statuses (((\<lambda>s. fst (tick s)) ^^ 3) (fst (fake_sendCommand new_fake_source
     \<lparr>in_command_id = Some ''c'', in_targets = [''R-01'', ''R-99''], in_params = no_params\<rparr>)))) =
   \<lparr>cs_command_id = ''c'', cs_targets =
      [\<lparr>tg_robot_id = ''R-01'', tg_state = CMD_APPLIED, tg_detail = ''''\<rparr>,
       \<lparr>tg_robot_id = ''R-99'', tg_state = CMD_ROBOT_OFFLINE, tg_detail = ''unknown robot''\<rparr>]\<rparr>"
proof -
  have "(3::nat) < 40" by simp
  show ?thesis
    unfolding fake_command_timeline[OF \<open>(3::nat) < 40\<close>]
    by (simp add: fake_sendCommand_def issue_fake_id_def fake_target_def robotById_def
        new_fake_source_def fake_robot_of_def life_state_def)
qed

text \<open>Applying finite parameters without a phase keeps the motion continuous: at that instant
  the robot's heading does not change, and its position stays on the same ray from the orbit
  centre, so only the radius (or the centre) jumps.\<close>

theorem apply_keeps_heading:
  assumes "robot_finite r" "params_finite p" "pr_theta p = None" "\<not> fr_frozen r" "\<not> fr_cycle r"
  shows "tl_heading (rb_telemetry (fake_robotState e q (apply_to e p r))) =
           tl_heading (rb_telemetry (fake_robotState e q r)) \<and>
         tl_x (rb_telemetry (fake_robotState e q (apply_to e p r))) =
           fr_cx (apply_to e p r) + fr_R (apply_to e p r) * js_cos (fake_phase e r) \<and>
         tl_y (rb_telemetry (fake_robotState e q (apply_to e p r))) =
           fr_cy (apply_to e p r) + fr_R (apply_to e p r) * js_sin (fake_phase e r)"
  using assms by (simp add: live_state phase_preserved del: apply_to_fields(4-7))

theorem apply_keeps_heading_witness:
  "tl_heading (rb_telemetry (fake_robotState 2 0
     (apply_to 2 (no_params\<lparr>pr_radius := Some (Fin 40)\<rparr>) (fake_robot_of ''R-01'' 0 0 80 14 0 False)))) =
   Fin (7 / 20 + pi / 2)"
proof -
  let ?r = "fake_robot_of ''R-01'' 0 0 80 14 0 False"
  have "robot_finite ?r" "params_finite (no_params\<lparr>pr_radius := Some (Fin 40)\<rparr>)"
    "pr_theta (no_params\<lparr>pr_radius := Some (Fin 40)\<rparr>) = None" "\<not> fr_frozen ?r" "\<not> fr_cycle ?r"
    by (simp_all add: robot_finite_def fake_robot_of_def params_finite_def no_params_def)
  note this = apply_keeps_heading[OF this, of 2 0] this
  then show ?thesis by (simp add: live_state fake_phase_def) (simp add: fake_robot_of_def)
qed

text \<open>While the scripted robot's link is down the simulator reports one frozen position and
  heading: two samples of the same outage, in order, agree on where the robot is, and its link
  status only ever degrades between them.\<close>

theorem outage_is_frozen:
  assumes "fr_cycle r" "\<not> fr_frozen r" "0 \<le> e1" "e1 \<le> e2"
    "cycle_start e1 + CYCLE_live \<le> e1" "e2 < cycle_start e1 + CYCLE_PERIOD"
  shows "tl_x (rb_telemetry (fake_robotState e2 q r)) = tl_x (rb_telemetry (fake_robotState e1 q r)) \<and>
         tl_y (rb_telemetry (fake_robotState e2 q r)) = tl_y (rb_telemetry (fake_robotState e1 q r)) \<and>
         tl_heading (rb_telemetry (fake_robotState e2 q r)) =
           tl_heading (rb_telemetry (fake_robotState e1 q r)) \<and>
         LINK_STALE \<le> rb_link_status (fake_robotState e1 q r) \<and>
         rb_link_status (fake_robotState e1 q r) \<le> rb_link_status (fake_robotState e2 q r)"
proof -
  have "cycle_start e2 = cycle_start e1" using assms(4,6) by (rule same_cycle)
  then show ?thesis
    using assms by (simp add: cycle_state Let_def less_eq_link_status_def)
qed

lemma cycle_start_first: "0 \<le> e \<Longrightarrow> e < 19 \<Longrightarrow> cycle_start e = 0"
  using same_cycle[of 0 e]
  by (simp add: cycle_start_def CYCLE_PERIOD_def CYCLE_live_def CYCLE_stale_def CYCLE_lost_def)

theorem outage_is_frozen_witness:
  "tl_x (rb_telemetry (fake_robotState 16 0 (fake_robot_of ''R-06'' 140 90 70 13 5 True))) =
   tl_x (rb_telemetry (fake_robotState 10 0 (fake_robot_of ''R-06'' 140 90 70 13 5 True)))"
proof -
  let ?r = "fake_robot_of ''R-06'' 140 90 70 13 5 True"
  have "fr_cycle ?r" "\<not> fr_frozen ?r" "(0::real) \<le> 10" "(10::real) \<le> 16"
    "cycle_start 10 + CYCLE_live \<le> 10" "16 < cycle_start 10 + CYCLE_PERIOD"
    by (simp_all add: fake_robot_of_def cycle_start_first CYCLE_PERIOD_def CYCLE_live_def
        CYCLE_stale_def CYCLE_lost_def)
  from outage_is_frozen[OF this, of 0] show ?thesis by blast
qed

text \<open>Once the frame callback is registered, the frames the simulator emits are numbered
  0, 1, 2, ... without a gap, and each lists exactly the six robots in their fixed order.\<close>

theorem fake_frames_numbered:
  "map sw_seq (frames_emitted (snd (run fake_step new_fake_source (FakeOnFrame # evs)))) =
     [0 ..< length (frames_emitted (snd (run fake_step new_fake_source (FakeOnFrame # evs))))] \<and>
   list_all (\<lambda>f. map rb_id (sw_robots f) = FAKE_IDS)
     (frames_emitted (snd (run fake_step new_fake_source (FakeOnFrame # evs))))"
proof -
  let ?s = "fake_onFrame new_fake_source"
  have "fake_inv ?s" "fs_frameCb ?s" "fs_seq ?s = 0"
    using fake_inv_new by (simp_all add: fake_onFrame_def fake_inv_def new_fake_source_def)
  with run_frames[of ?s evs] have
    "map sw_seq (frames_emitted (snd (run fake_step ?s evs))) = [0 ..< fs_seq (fst (run fake_step ?s evs))]"
    "list_all (\<lambda>f. map rb_id (sw_robots f) = FAKE_IDS) (frames_emitted (snd (run fake_step ?s evs)))"
    by (simp_all add: split_beta Let_def)
  moreover from arg_cong[OF this(1), of length]
  have "length (frames_emitted (snd (run fake_step ?s evs))) = fs_seq (fst (run fake_step ?s evs))"
    by simp
  ultimately show ?thesis by (simp add: split_beta)
qed

text \<open>The comment in \<open>sendCommand\<close> has a robot that is offline at dispatch surfaced
  immediately, with no send. The guard tests \<open>frozen\<close>, which no robot ever is: after 15
  seconds the scripted robot R-06 is published as LOST, and a command to it is nevertheless
  admitted as PENDING.\<close>

theorem lost_robot_accepts_command:
  "fs_elapsed (((\<lambda>s. fst (tick s)) ^^ 75) new_fake_source) = 15 \<and>
   map (\<lambda>r. rb_link_status (fake_robotState 15 0 r))
     (filter (\<lambda>r. fr_id r = ''R-06'') (fs_robots new_fake_source)) = [LINK_LOST] \<and>
   tp_state (fake_target (fs_robots (((\<lambda>s. fst (tick s)) ^^ 75) new_fake_source)) no_params ''R-06'') = CMD_PENDING"
proof -
  let ?s = "\<lambda>n. ((\<lambda>s. fst (tick s)) ^^ n) new_fake_source"
  have elapsed: "fs_elapsed (?s n) = real n * DT" for n
    by (induction n) (simp_all add: new_fake_source_def algebra_simps)
  have ok: "fake_inv (?s n)" for n
    by (induction n) (simp_all add: fake_inv_new fake_inv_tick)
  have "robots_ok (fs_robots (?s 75))" using ok[of 75] by (simp add: fake_inv_def)
  then have ids: "map fr_id (fs_robots (?s 75)) = FAKE_IDS"
    and thawed: "\<And>r. r \<in> set (fs_robots (?s 75)) \<Longrightarrow> \<not> fr_frozen r"
    by (auto simp: robots_ok_def new_fake_ids list_all_iff robot_ok_def)
  have "''R-06'' \<in> fr_id ` set (fs_robots (?s 75))"
    using arg_cong[OF ids, of set] by (simp add: FAKE_IDS_def)
  then obtain r where "r \<in> set (fs_robots (?s 75))" "robotById (fs_robots (?s 75)) ''R-06'' = Some r"
    using robotById_total by blast
  then have "tp_state (fake_target (fs_robots (?s 75)) no_params ''R-06'') = CMD_PENDING"
    by (simp add: fake_target_def thawed)
  then show ?thesis
    using elapsed[of 75]
    by (simp add: DT_def)
      (simp add: new_fake_source_def fake_robot_of_def cycle_state cycle_start_first CYCLE_live_def
        CYCLE_stale_def Let_def)
qed

text \<open>A radius that is not positive is skipped when the parameters are applied, but the
  target is reported APPLIED all the same, where the specification's lifecycle has a robot
  refuse bad parameters as REJECTED.\<close>

theorem bad_radius_reported_applied:
  assumes "\<not> Fin 0 < v"
  shows "advance_target e [r] \<lparr>tp_robot_id = fr_id r, tp_state = CMD_SENT, tp_detail = '''',
           tp_ticksToNext = 1, tp_pending = Some (no_params\<lparr>pr_radius := Some v\<rparr>)\<rparr> =
         ([apply_to e no_params r],
          [\<lparr>tp_robot_id = fr_id r, tp_state = CMD_APPLIED, tp_detail = '''', tp_ticksToNext = 0,
            tp_pending = Some (no_params\<lparr>pr_radius := Some v\<rparr>)\<rparr>])"
  using assms
  by (simp add: advance_target_def in_flight_def applyParams_def apply_to_def no_params_def Let_def)

theorem bad_radius_reported_applied_witness:
  "map tp_state (snd (advance_target 0 [fake_robot_of ''R-01'' 0 0 80 14 0 False]
     \<lparr>tp_robot_id = ''R-01'', tp_state = CMD_SENT, tp_detail = '''', tp_ticksToNext = 1,
      tp_pending = Some (no_params\<lparr>pr_radius := Some (Fin (-5))\<rparr>)\<rparr>)) = [CMD_APPLIED]"
proof -
  have "\<not> Fin 0 < Fin (-5)" by simp
  from bad_radius_reported_applied[OF this, of 0 "fake_robot_of ''R-01'' 0 0 80 14 0 False"]
  show ?thesis by (simp add: fake_robot_of_def)
qed

text \<open>The simulator applies any number, finite or not: a JSON \<open>1e999\<close> arrives as Infinity,
  passes the \<open>typeof\<close> guard, and from then on the robot's position is NaN.\<close>

theorem infinite_speed_gives_nan:
  assumes "robot_finite r" "\<not> fr_frozen r" "\<not> fr_cycle r" "0 < e"
  shows "tl_x (rb_telemetry (fake_robotState e q
           (apply_to e (no_params\<lparr>pr_speed := Some PosInf\<rparr>) r))) = NaN"
proof -
  from assms obtain R where R: "fr_R r = Fin R" "0 < R"
    by (auto simp: robot_finite_def is_finite_iff)
  have cx: "n + NaN = NaN" for n :: jsnum by (cases n) simp_all
  have "is_finite (fake_phase e r)" using assms(1) by (rule phase_finite)
  with R assms(4) have "fake_phase e (apply_to e (no_params\<lparr>pr_speed := Some PosInf\<rparr>) r) = NaN"
    by (auto simp: fake_phase_def[of e "apply_to e _ r"] apply_to_theta no_params_def is_finite_iff
        inf_of_sign_def minus_jsnum_def)
  with R show ?thesis
    using assms(2,3) by (simp add: live_state no_params_def cx)
qed

theorem infinite_speed_gives_nan_witness:
  "tl_x (rb_telemetry (fake_robotState 1 0
     (apply_to 1 (no_params\<lparr>pr_speed := Some PosInf\<rparr>) (fake_robot_of ''R-01'' 0 0 80 14 0 False)))) = NaN"
proof -
  have "robot_finite (fake_robot_of ''R-01'' 0 0 80 14 0 False)"
    "\<not> fr_frozen (fake_robot_of ''R-01'' 0 0 80 14 0 False)"
    "\<not> fr_cycle (fake_robot_of ''R-01'' 0 0 80 14 0 False)" "(0::real) < 1"
    by (simp_all add: robot_finite_def fake_robot_of_def)
  then show ?thesis by (rule infinite_speed_gives_nan)
qed

end
