(* ===== verification/GrpcSource.thy ===== *)
theory GrpcSource
  imports Source
begin

text \<open>
  \<open>bridge/src/grpcSource.ts\<close>: the client of the real C2 server. The transport (grpc-js, and
  the stubs that \<open>bridge/src/proto.ts\<close> loads from \<open>robot.proto\<close>) is outside the source: what
  the class asks of it is emitted as an output (\<open>CallSubscribe\<close>, \<open>CallCancel\<close>, ...), what it
  delivers is an event, and its documented contract is \<open>transport_ok\<close>: a stream delivers data
  until it delivers one terminal event, an error or an end. \<open>gs_live_calls\<close> are the streams
  that have not terminated and \<open>gs_timers\<close> the delays of the pending \<open>setTimeout\<close>s; both
  belong to the host, the other fields are the class's own.
\<close>

section \<open>Timestamps and parameters\<close>

definition RECONNECT_MIN_MS :: nat where "RECONNECT_MIN_MS = 500"
definition RECONNECT_MAX_MS :: nat where "RECONNECT_MAX_MS = 5000"
definition COMMAND_EXPIRY_MS :: int where "COMMAND_EXPIRY_MS = 5000"

definition toProtoTimestamp :: "int \<Rightarrow> timestamp" where
  "toProtoTimestamp ms = \<lparr>seconds = ms div 1000, nanos = js_rem ms 1000 * 1000000\<rparr>"

definition timestamp_ms :: "timestamp \<Rightarrow> int" where
  "timestamp_ms t = seconds t * 1000 + nanos t div 1000000"

text \<open>A property of a JSON object, as far as \<open>cleanParams\<close> looks at it.\<close>

datatype js_value = JsNumber jsnum | JsUndefined | JsOther

fun cleanParams :: "(string \<times> js_value) list \<Rightarrow> (string \<times> jsnum) list" where
  "cleanParams [] = []"
| "cleanParams ((k, JsNumber v) # es) = (if is_finite v then (k, v) # cleanParams es else cleanParams es)"
| "cleanParams ((k, _) # es) = cleanParams es"

fun js_opt :: "jsnum option \<Rightarrow> js_value" where
  "js_opt None = JsUndefined"
| "js_opt (Some v) = JsNumber v"

definition param_entries :: "params \<Rightarrow> (string \<times> js_value) list" where
  "param_entries p =
     [(''speed'', js_opt (pr_speed p)), (''radius'', js_opt (pr_radius p)),
      (''center_x'', js_opt (pr_center_x p)), (''center_y'', js_opt (pr_center_y p)),
      (''theta'', js_opt (pr_theta p))]"

record operator_command =
  oc_command_id :: string
  oc_timestamp :: timestamp
  oc_expiry :: timestamp
  oc_targets :: "string list"
  oc_set_parameters :: "(string \<times> jsnum) list"

section \<open>State and effects\<close>

record grpc_source =
  gs_target :: string
  gs_call :: "nat option"
  gs_next_call :: nat
  gs_live_calls :: "nat list"
  gs_timers :: "nat list"
  gs_frameCb :: bool
  gs_statusCb :: bool
  gs_backoff :: nat
  gs_stopped :: bool
  gs_healthy :: bool
  gs_commandSeq :: nat

datatype grpc_out =
    Callback source_out
  | CallSubscribe nat
  | CallCancel nat
  | ClientClose
  | SetTimeout nat
  | CallSendCommand operator_command

definition new_grpc_source :: "string \<Rightarrow> grpc_source" where
  "new_grpc_source target =
     \<lparr>gs_target = target, gs_call = None, gs_next_call = 0, gs_live_calls = [], gs_timers = [],
      gs_frameCb = False, gs_statusCb = False, gs_backoff = RECONNECT_MIN_MS, gs_stopped = False,
      gs_healthy = False, gs_commandSeq = 0\<rparr>"

definition grpc_status :: "grpc_source \<Rightarrow> bool \<Rightarrow> string \<Rightarrow> grpc_out list" where
  "grpc_status s conn detail = map Callback (emit_status (gs_statusCb s) conn detail)"

definition grpc_onFrame :: "grpc_source \<Rightarrow> grpc_source" where
  "grpc_onFrame s = s\<lparr>gs_frameCb := True\<rparr>"

definition grpc_onStatus :: "grpc_source \<Rightarrow> grpc_source" where
  "grpc_onStatus s = s\<lparr>gs_statusCb := True\<rparr>"

definition subscribe :: "grpc_source \<Rightarrow> grpc_source \<times> grpc_out list" where
  "subscribe s =
     (if gs_stopped s then (s, [])
      else (s\<lparr>gs_call := Some (gs_next_call s), gs_next_call := Suc (gs_next_call s),
               gs_live_calls := gs_next_call s # gs_live_calls s\<rparr>,
            grpc_status s False (''connecting to '' @ gs_target s @ ellipsis) @
            [CallSubscribe (gs_next_call s)]))"

definition grpc_start :: "grpc_source \<Rightarrow> grpc_source \<times> grpc_out list" where
  "grpc_start s = subscribe (s\<lparr>gs_stopped := False\<rparr>)"

definition grpc_stop :: "grpc_source \<Rightarrow> grpc_source \<times> grpc_out list" where
  "grpc_stop s =
     (s\<lparr>gs_stopped := True\<rparr>,
      (case gs_call s of Some c \<Rightarrow> [CallCancel c] | None \<Rightarrow> []) @ [ClientClose])"

definition grpc_onData :: "grpc_source \<Rightarrow> swarm_state \<Rightarrow> grpc_source \<times> grpc_out list" where
  "grpc_onData s frame =
     (let (s1, os) =
        (if \<not> gs_healthy s
         then (s\<lparr>gs_healthy := True, gs_backoff := RECONNECT_MIN_MS\<rparr>,
               grpc_status s True (''streaming from '' @ gs_target s))
         else (s, []))
      in (s1, os @ map Callback (emit_frame (gs_frameCb s1) frame)))"

definition onDrop :: "grpc_source \<Rightarrow> string \<Rightarrow> grpc_source \<times> grpc_out list" where
  "onDrop s detail =
     (if gs_stopped s then (s, [])
      else (let wait = gs_backoff s in
        (s\<lparr>gs_healthy := False, gs_backoff := min (gs_backoff s * 2) RECONNECT_MAX_MS,
            gs_timers := gs_timers s @ [wait]\<rparr>,
         grpc_status s False
           (''disconnected ('' @ detail @ ''); retry in '' @ nat_str (gs_backoff s) @ ''ms'') @
         [SetTimeout wait])))"

definition grpc_id :: "nat \<Rightarrow> nat \<Rightarrow> string" where
  "grpc_id now n = ''op-'' @ nat_str now @ ''-'' @ nat_str n"

definition issue_grpc_id :: "nat \<Rightarrow> grpc_source \<Rightarrow> string option \<Rightarrow> grpc_source \<times> string" where
  "issue_grpc_id now s given =
     (case given of
        Some i \<Rightarrow> (s, i)
      | None \<Rightarrow> (s\<lparr>gs_commandSeq := Suc (gs_commandSeq s)\<rparr>, grpc_id now (gs_commandSeq s)))"

definition grpc_sendCommand :: "nat \<Rightarrow> grpc_source \<Rightarrow> command_intent \<Rightarrow> grpc_source \<times> grpc_out list" where
  "grpc_sendCommand now s intent =
     (let (s1, command_id) = issue_grpc_id now s (in_command_id intent)
      in (s1, [CallSendCommand
                 \<lparr>oc_command_id = command_id,
                  oc_timestamp = toProtoTimestamp (int now),
                  oc_expiry = toProtoTimestamp (int now + COMMAND_EXPIRY_MS),
                  oc_targets = in_targets intent,
                  oc_set_parameters = cleanParams (param_entries (in_params intent))\<rparr>]))"

text \<open>The callback of the unary call settles the promise: an error rejects it.\<close>

definition grpc_settle :: "string option \<Rightarrow> accepted \<Rightarrow> string + accepted" where
  "grpc_settle err resp = (case err of Some e \<Rightarrow> Inl e | None \<Rightarrow> Inr resp)"

section \<open>Events\<close>

datatype grpc_event =
    GrpcData nat swarm_state
  | GrpcError nat string
  | GrpcEnd nat
  | GrpcTimer nat
  | GrpcSend nat command_intent
  | GrpcStop

definition close_call :: "nat \<Rightarrow> grpc_source \<Rightarrow> grpc_source" where
  "close_call c s = s\<lparr>gs_live_calls := remove1 c (gs_live_calls s)\<rparr>"

fun grpc_step :: "grpc_source \<Rightarrow> grpc_event \<Rightarrow> grpc_source \<times> grpc_out list" where
  "grpc_step s (GrpcData c frame) = grpc_onData s frame"
| "grpc_step s (GrpcError c message) = onDrop (close_call c s) message"
| "grpc_step s (GrpcEnd c) = onDrop (close_call c s) ''stream ended''"
| "grpc_step s (GrpcTimer k) =
     (if k < length (gs_timers s)
      then subscribe (s\<lparr>gs_timers := take k (gs_timers s) @ drop (Suc k) (gs_timers s)\<rparr>)
      else (s, []))"
| "grpc_step s (GrpcSend now intent) = grpc_sendCommand now s intent"
| "grpc_step s GrpcStop = grpc_stop s"

text \<open>The documented contract of a server-streaming call: nothing after the terminal event.\<close>

fun transport_ok :: "grpc_source \<Rightarrow> grpc_event \<Rightarrow> bool" where
  "transport_ok s (GrpcData c _) = (c \<in> set (gs_live_calls s))"
| "transport_ok s (GrpcError c _) = (c \<in> set (gs_live_calls s))"
| "transport_ok s (GrpcEnd c) = (c \<in> set (gs_live_calls s))"
| "transport_ok s _ = True"

text \<open>A life of the source in the bridge: both callbacks are registered, it is started once,
  and then the transport, the timers and the operators act in any order. The second argument is
  everything the source has output.\<close>

inductive grpc_life :: "string \<Rightarrow> grpc_source \<Rightarrow> grpc_out list \<Rightarrow> bool" for target where
  started: "grpc_start (grpc_onFrame (grpc_onStatus (new_grpc_source target))) = (s, os) \<Longrightarrow>
     grpc_life target s os"
| stepped: "grpc_life target s os \<Longrightarrow> transport_ok s ev \<Longrightarrow> grpc_step s ev = (s', os') \<Longrightarrow>
     grpc_life target s' (os @ os')"

inductive_cases grpc_lifeE: "grpc_life target s os"

section \<open>The stream and its retries\<close>

fun status_flag :: "grpc_out \<Rightarrow> bool list" where
  "status_flag (Callback (EmitStatus conn _)) = [conn]"
| "status_flag _ = []"

definition status_flags :: "grpc_out list \<Rightarrow> bool list" where
  "status_flags os = concat (map status_flag os)"

lemma status_flags_simps [simp]:
  "status_flags [] = []"
  "status_flags (os @ ps) = status_flags os @ status_flags ps"
  "status_flags (Callback (EmitStatus b d) # os) = b # status_flags os"
  "status_flags (CallSubscribe c # os) = status_flags os"
  "status_flags (SetTimeout n # os) = status_flags os"
  "status_flags (map Callback (emit_frame r f)) = []"
  by (simp_all add: status_flags_def emit_frame_def)

lemma status_flags_grpc_status [simp]:
  "status_flags (grpc_status s b d) = (if gs_statusCb s then [b] else [])"
  by (simp add: grpc_status_def emit_status_def status_flags_def)

text \<open>What a life of the source looks like from outside, as one invariant: exactly one stream
  or one pending retry while it runs, a healthy source has its stream, and the last status
  it reported is its health.\<close>

definition grpc_inv :: "grpc_source \<Rightarrow> grpc_out list \<Rightarrow> bool" where
  "grpc_inv s os \<longleftrightarrow>
     gs_statusCb s \<and>
     (\<not> gs_stopped s \<longrightarrow> length (gs_live_calls s) + length (gs_timers s) = 1) \<and>
     (gs_healthy s \<and> \<not> gs_stopped s \<longrightarrow> gs_timers s = []) \<and>
     gs_backoff s \<in> {RECONNECT_MIN_MS..RECONNECT_MAX_MS} \<and>
     status_flags os \<noteq> [] \<and> last (status_flags os) = gs_healthy s \<and>
     (\<forall>i < length (status_flags os) - 1. \<not> (status_flags os ! i \<and> status_flags os ! Suc i))"

lemma backoff_step: "b \<in> {RECONNECT_MIN_MS..RECONNECT_MAX_MS} \<Longrightarrow>
    min (b * 2) RECONNECT_MAX_MS \<in> {RECONNECT_MIN_MS..RECONNECT_MAX_MS}"
  by (auto simp: RECONNECT_MIN_MS_def RECONNECT_MAX_MS_def)

lemma alternating_snoc:
  assumes "\<forall>i < length bs - 1. \<not> (bs ! i \<and> bs ! Suc i)" "bs \<noteq> []" "\<not> (last bs \<and> b)"
  shows "\<forall>i < length (bs @ [b]) - 1. \<not> ((bs @ [b]) ! i \<and> (bs @ [b]) ! Suc i)"
proof (intro allI impI)
  fix i
  assume "i < length (bs @ [b]) - 1"
  then consider "i < length bs - 1" | "i = length bs - 1" by fastforce
  then show "\<not> ((bs @ [b]) ! i \<and> (bs @ [b]) ! Suc i)"
    using assms by cases (auto simp: nth_append last_conv_nth)
qed

lemma grpc_inv_start:
  "grpc_start (grpc_onFrame (grpc_onStatus (new_grpc_source target))) = (s, os) \<Longrightarrow> grpc_inv s os"
  by (auto simp: grpc_start_def subscribe_def grpc_onFrame_def grpc_onStatus_def new_grpc_source_def
      grpc_inv_def RECONNECT_MIN_MS_def RECONNECT_MAX_MS_def)

lemma grpc_inv_data:
  assumes "grpc_inv s os" "gs_live_calls s \<noteq> []"
  shows "grpc_inv (fst (grpc_onData s f)) (os @ snd (grpc_onData s f))"
proof (cases "gs_healthy s")
  case True
  with assms show ?thesis by (auto simp: grpc_onData_def grpc_inv_def)
next
  case False
  have "length (gs_timers s) = 0" if "\<not> gs_stopped s"
    using assms that by (cases "gs_live_calls s") (auto simp: grpc_inv_def)
  with False assms alternating_snoc[of "status_flags os" True] show ?thesis
    by (simp add: grpc_onData_def grpc_inv_def Let_def RECONNECT_MIN_MS_def RECONNECT_MAX_MS_def)
qed

lemma grpc_inv_drop:
  assumes "grpc_inv s os" "c \<in> set (gs_live_calls s)"
  shows "grpc_inv (fst (onDrop (close_call c s) d)) (os @ snd (onDrop (close_call c s) d))"
proof (cases "gs_stopped s")
  case True
  with assms show ?thesis by (simp add: onDrop_def grpc_inv_def close_call_def)
next
  case False
  with assms obtain k where "gs_live_calls s = [k]" "c = k" "gs_timers s = []"
    by (cases "gs_live_calls s") (auto simp: grpc_inv_def)
  with assms False alternating_snoc[of "status_flags os" False] backoff_step[of "gs_backoff s"] show ?thesis
    by (simp add: onDrop_def grpc_inv_def close_call_def Let_def del: atLeastAtMost_iff)
qed

lemma grpc_inv_timer:
  assumes "grpc_inv s os"
  shows "grpc_inv (fst (grpc_step s (GrpcTimer k))) (os @ snd (grpc_step s (GrpcTimer k)))"
proof (cases "k < length (gs_timers s) \<and> \<not> gs_stopped s")
  case True
  with assms obtain w where "gs_timers s = [w]" "gs_live_calls s = []" "k = 0" "\<not> gs_healthy s"
    by (cases "gs_timers s") (auto simp: grpc_inv_def)
  with assms True alternating_snoc[of "status_flags os" False] show ?thesis
    by (simp add: subscribe_def grpc_inv_def)
next
  case False
  with assms show ?thesis by (auto simp: subscribe_def grpc_inv_def)
qed

lemma grpc_inv_send:
  "grpc_inv s os \<Longrightarrow> grpc_inv (fst (grpc_sendCommand n s i)) (os @ snd (grpc_sendCommand n s i))"
  by (cases "in_command_id i")
    (simp_all add: grpc_inv_def grpc_sendCommand_def issue_grpc_id_def status_flags_def)

lemma grpc_inv_stop: "grpc_inv s os \<Longrightarrow> grpc_inv (fst (grpc_stop s)) (os @ snd (grpc_stop s))"
  by (cases "gs_call s") (simp_all add: grpc_inv_def grpc_stop_def status_flags_def)

lemma grpc_inv_step:
  assumes "grpc_inv s os" "transport_ok s ev"
  shows "grpc_inv (fst (grpc_step s ev)) (os @ snd (grpc_step s ev))"
proof (cases ev)
  case (GrpcData c f)
  with assms show ?thesis by (auto simp: GrpcData intro: grpc_inv_data)
next
  case (GrpcTimer k)
  with grpc_inv_timer[OF assms(1)] show ?thesis by blast
qed (use assms in \<open>simp_all add: grpc_inv_drop grpc_inv_send grpc_inv_stop\<close>)

lemma grpc_life_inv: "grpc_life target s os \<Longrightarrow> grpc_inv s os"
proof (induction rule: grpc_life.induct)
  case (started s os)
  then show ?case by (rule grpc_inv_start)
next
  case (stepped s os ev s' os')
  from grpc_inv_step[OF stepped.IH stepped.hyps(2)] stepped.hyps(3) show ?case by simp
qed

section \<open>Backoff\<close>

text \<open>A failing server: the stream drops, the retry fires, the next stream drops, ...\<close>

fun outage :: "nat \<Rightarrow> grpc_source \<Rightarrow> grpc_source \<times> grpc_out list" where
  "outage 0 s = (s, [])"
| "outage (Suc n) s =
     (let (s1, os1) = grpc_step s (GrpcError (the (gs_call s)) ''unavailable'');
          (s2, os2) = grpc_step s1 (GrpcTimer 0);
          (s3, os3) = outage n s2
      in (s3, os1 @ os2 @ os3))"

fun timeout_of :: "grpc_out \<Rightarrow> nat list" where
  "timeout_of (SetTimeout n) = [n]"
| "timeout_of _ = []"

definition timeouts :: "grpc_out list \<Rightarrow> nat list" where
  "timeouts os = concat (map timeout_of os)"

lemma timeouts_simps [simp]:
  "timeouts [] = []" "timeouts (os @ ps) = timeouts os @ timeouts ps"
  "timeouts (SetTimeout n # os) = n # timeouts os"
  "timeouts (CallSubscribe n # os) = timeouts os"
  "timeouts (map Callback cs) = []"
  by (simp_all add: timeouts_def comp_def)

lemma timeouts_status [simp]: "timeouts (grpc_status s b d) = []"
  by (simp add: grpc_status_def)

lemma min_doubling: "min (min (b * 2) m * 2 ^ k) m = min (b * 2 ^ Suc k) m" for b m k :: nat
proof (cases "b * 2 \<le> m")
  case True
  then show ?thesis by (simp add: mult.assoc)
next
  case False
  have "m \<le> b * 2" using False by simp
  also have "b * 2 \<le> b * 2 * 2 ^ k" by simp
  also have "\<dots> = b * 2 ^ Suc k" by simp
  finally have "m \<le> b * 2 ^ Suc k" .
  moreover have "m \<le> m * 2 ^ k" by simp
  ultimately show ?thesis using False by (simp only: min_absorb2 nat_le_linear not_le less_imp_le)
qed

lemma outage_waits:
  "\<not> gs_stopped s \<Longrightarrow> gs_timers s = [] \<Longrightarrow>
     timeouts (snd (outage n s)) =
       map (\<lambda>k. min (gs_backoff s * 2 ^ k) (if k = 0 then gs_backoff s else RECONNECT_MAX_MS)) [0 ..< n]"
proof (induction n arbitrary: s)
  case 0
  then show ?case by simp
next
  case (Suc n)
  let ?s1 = "fst (grpc_step s (GrpcError (the (gs_call s)) ''unavailable''))"
  let ?s2 = "fst (grpc_step ?s1 (GrpcTimer 0))"
  have s2: "\<not> gs_stopped ?s2" "gs_timers ?s2 = []" "gs_backoff ?s2 = min (gs_backoff s * 2) RECONNECT_MAX_MS"
    using Suc.prems by (simp_all add: onDrop_def close_call_def subscribe_def Let_def)
  have "timeouts (snd (outage (Suc n) s)) = gs_backoff s # timeouts (snd (outage n ?s2))"
    using Suc.prems by (simp add: split_beta onDrop_def close_call_def subscribe_def Let_def)
  also have "timeouts (snd (outage n ?s2)) =
      map (\<lambda>k. min (min (gs_backoff s * 2) RECONNECT_MAX_MS * 2 ^ k) RECONNECT_MAX_MS) [0 ..< n]"
    unfolding Suc.IH[OF s2(1,2)] s2(3) by (rule map_cong) auto
  also have "\<dots> = map (\<lambda>k. min (gs_backoff s * 2 ^ k) RECONNECT_MAX_MS) (map Suc [0 ..< n])"
    by (simp add: min_doubling del: map_Suc_upt)
  finally show ?case
    by (simp add: upt_conv_Cons map_Suc_upt del: upt_Suc)
qed

section \<open>Reconnecting\<close>

text \<open>The source with everything it has output; what the transport owes it: the retry timer, or
  the first frame of the stream it opened. Calm is anything the transport contract allows but the
  end of a stream, and not \<open>stop\<close>.\<close>

type_synonym grpc_history = "grpc_source \<times> grpc_out list"

definition life_step :: "grpc_history \<Rightarrow> grpc_event \<Rightarrow> grpc_history" where
  "life_step h ev = (fst (grpc_step (fst h) ev), snd h @ snd (grpc_step (fst h) ev))"

fun grpc_calm :: "grpc_history \<Rightarrow> grpc_event \<Rightarrow> bool" where
  "grpc_calm h (GrpcError c m) = False"
| "grpc_calm h (GrpcEnd c) = False"
| "grpc_calm h GrpcStop = False"
| "grpc_calm h ev = transport_ok (fst h) ev"

definition grpc_owed :: "swarm_state \<Rightarrow> grpc_history \<Rightarrow> grpc_event list" where
  "grpc_owed f h =
     (if gs_timers (fst h) \<noteq> [] then [GrpcTimer 0]
      else if gs_healthy (fst h) then [] else [GrpcData (hd (gs_live_calls (fst h))) f])"

definition grpc_distance :: "grpc_history \<Rightarrow> nat" where
  "grpc_distance h = (if gs_timers (fst h) \<noteq> [] then 2 else if gs_healthy (fst h) then 0 else 1)"

definition life_running :: "string \<Rightarrow> grpc_history \<Rightarrow> bool" where
  "life_running target h \<longleftrightarrow> grpc_life target (fst h) (snd h) \<and> \<not> gs_stopped (fst h)"

lemma life_cases:
  assumes "life_running target h"
  obtains c where "gs_live_calls (fst h) = [c]" "gs_timers (fst h) = []"
    | w where "gs_live_calls (fst h) = []" "gs_timers (fst h) = [w]" "\<not> gs_healthy (fst h)"
  using assms grpc_life_inv[of target "fst h" "snd h"]
  by (cases "gs_live_calls (fst h)"; cases "gs_timers (fst h)") (auto simp: life_running_def grpc_inv_def)

lemma life_step_running:
  assumes "life_running target h" "transport_ok (fst h) ev" "ev \<noteq> GrpcStop"
  shows "life_running target (life_step h ev)"
proof -
  have "grpc_life target (fst (life_step h ev)) (snd (life_step h ev))"
    using grpc_life.stepped[of target "fst h" "snd h" ev] assms(1,2)
    by (simp add: life_running_def life_step_def)
  moreover have "\<not> gs_stopped (fst (life_step h ev))"
    using assms(1,3) by (cases ev)
      (auto simp: life_running_def life_step_def grpc_onData_def onDrop_def close_call_def subscribe_def
        grpc_sendCommand_def issue_grpc_id_def Let_def split: option.split)
  ultimately show ?thesis by (simp add: life_running_def)
qed

lemma calm_distance:
  assumes "life_running target h" "grpc_calm h ev"
  shows "grpc_distance (life_step h ev) \<le> grpc_distance h"
proof (cases ev)
  case (GrpcData c f)
  then show ?thesis by (simp add: grpc_distance_def life_step_def grpc_onData_def Let_def)
next
  case (GrpcTimer k)
  with assms(1) show ?thesis
    by (cases rule: life_cases) (auto simp: grpc_distance_def life_step_def subscribe_def life_running_def)
next
  case (GrpcSend n i)
  then show ?thesis
    by (simp add: grpc_distance_def life_step_def grpc_sendCommand_def issue_grpc_id_def split: option.split)
qed (use assms in simp_all)

lemma owed_distance:
  assumes "life_running target h"
  shows "life_running target (foldl life_step h (grpc_owed f h)) \<and>
    grpc_distance (foldl life_step h (grpc_owed f h)) \<le> grpc_distance h - 1"
  using assms
proof (cases rule: life_cases)
  case (1 c)
  then show ?thesis
    using life_step_running[OF assms, of "GrpcData c f"] assms
    by (simp add: grpc_owed_def grpc_distance_def) (simp add: life_step_def grpc_onData_def Let_def)
next
  case (2 w)
  then show ?thesis
    using life_step_running[OF assms, of "GrpcTimer 0"] assms
    by (simp add: grpc_owed_def grpc_distance_def) (simp add: life_step_def subscribe_def life_running_def)
qed

lemma healthy_backoff: "grpc_life target s os \<Longrightarrow> gs_healthy s \<longrightarrow> gs_backoff s = RECONNECT_MIN_MS"
proof (induction rule: grpc_life.induct)
  case (started s os)
  then show ?case
    by (auto simp: grpc_start_def subscribe_def grpc_onFrame_def grpc_onStatus_def new_grpc_source_def)
next
  case (stepped s os ev s' os')
  then have "s' = fst (grpc_step s ev)" by simp
  with stepped.IH show ?case
    by (cases ev) (auto simp: grpc_onData_def onDrop_def close_call_def subscribe_def grpc_sendCommand_def
        issue_grpc_id_def grpc_stop_def Let_def split: option.split)
qed

interpretation grpc_progress: fair_progress life_step "life_running target" grpc_calm "grpc_owed f" grpc_distance
  for target f
proof unfold_locales
  fix h ev
  assume h: "life_running target h"
  show "life_running target (foldl life_step h (grpc_owed f h)) \<and>
      grpc_distance (foldl life_step h (grpc_owed f h)) \<le> grpc_distance h - 1"
    using h by (rule owed_distance)
  assume calm: "grpc_calm h ev"
  then have "transport_ok (fst h) ev" "ev \<noteq> GrpcStop" by (cases ev; simp)+
  with h calm show "life_running target (life_step h ev) \<and> grpc_distance (life_step h ev) \<le> grpc_distance h"
    by (blast intro: life_step_running calm_distance)
qed

section \<open>Timestamps, parameters and ids\<close>

lemma timestamp_roundtrip:
  "0 \<le> ms \<Longrightarrow> timestamp_ms (toProtoTimestamp ms) = ms \<and>
     0 \<le> nanos (toProtoTimestamp ms) \<and> nanos (toProtoTimestamp ms) < 1000000000"
proof -
  assume "0 \<le> ms"
  moreover have "0 \<le> ms mod 1000" "ms mod 1000 < 1000" by simp_all
  ultimately show ?thesis
    by (simp add: timestamp_ms_def toProtoTimestamp_def js_rem_nonneg)
qed

lemma cleanParams_set: "(k, v) \<in> set (cleanParams es) \<longleftrightarrow> (k, JsNumber v) \<in> set es \<and> is_finite v"
  by (induction es rule: cleanParams.induct) auto

lemma param_entries_set:
  "(k, JsNumber v) \<in> set (param_entries p) \<longleftrightarrow>
     (k, Some v) \<in> {(''speed'', pr_speed p), (''radius'', pr_radius p), (''center_x'', pr_center_x p),
       (''center_y'', pr_center_y p), (''theta'', pr_theta p)}"
proof -
  have "JsNumber v = js_opt o1 \<longleftrightarrow> Some v = o1" for o1 by (cases o1) auto
  then show ?thesis by (simp only: param_entries_def list.set prod.inject insert_iff empty_iff)
qed

lemma cleanParams_keys: "distinct (map fst es) \<Longrightarrow> distinct (map fst (cleanParams es))"
proof (induction es rule: cleanParams.induct)
  case (2 k v es)
  then show ?case by (force simp: cleanParams_set)
qed auto

lemma param_entries_keys: "distinct (map fst (param_entries p))"
proof -
  have "map fst (param_entries p) = [''speed'', ''radius'', ''center_x'', ''center_y'', ''theta'']"
    by (simp only: param_entries_def list.map fst_conv)
  then show ?thesis by simp
qed

lemma grpc_id_inj: "grpc_id e n = grpc_id e' n' \<Longrightarrow> n = n'"
proof -
  have nodash: "CHR ''-'' \<notin> set (nat_str m)" for m
    using radix_str_chars[of 10 "CHR ''-''" m] by (auto simp: nat_str_def)
  assume "grpc_id e n = grpc_id e' n'"
  then have "nat_str e @ CHR ''-'' # nat_str n = nat_str e' @ CHR ''-'' # nat_str n'"
    by (simp add: grpc_id_def)
  from split_at_first[OF nodash nodash this] show ?thesis by simp
qed

definition grpc_start_cbs :: "grpc_source \<Rightarrow> grpc_source \<times> source_out list" where
  "grpc_start_cbs s =
     (let (s', os) = grpc_start s
      in (s', concat (map (\<lambda>out. case out of Callback c \<Rightarrow> [c] | _ \<Rightarrow> []) os)))"

interpretation grpc_source: source grpc_id issue_grpc_id gs_commandSeq grpc_onStatus grpc_onFrame grpc_start_cbs
  by unfold_locales
    (auto simp: grpc_id_inj issue_grpc_id_def grpc_start_cbs_def grpc_start_def subscribe_def
      grpc_onFrame_def grpc_onStatus_def grpc_status_def emit_status_def)

section \<open>Properties\<close>

lemma grpc_one_line:
  "grpc_life target s os \<Longrightarrow> \<not> gs_stopped s \<Longrightarrow> length (gs_live_calls s) + length (gs_timers s) = 1"
  by (drule grpc_life_inv) (simp add: grpc_inv_def)

text \<open>In every life of the source under the documented transport contract, while it is not
  stopped there is exactly one subscription in flight or one retry pending, never two and never
  none: the bridge neither doubles its stream nor stops trying.\<close>

theorem grpc_one_stream_or_retry:
  assumes "grpc_life target s os" "\<not> gs_stopped s"
  shows "length (gs_live_calls s) + length (gs_timers s) = 1 \<and> (gs_healthy s \<longrightarrow> gs_live_calls s \<noteq> [])"
  using grpc_life_inv[OF assms(1)] assms(2) by (auto simp: grpc_inv_def)

definition demo_grpc :: grpc_source where
  "demo_grpc = fst (grpc_start (grpc_onFrame (grpc_onStatus (new_grpc_source ''h:1''))))"

lemma demo_grpc_life:
  "grpc_life ''h:1'' demo_grpc (snd (grpc_start (grpc_onFrame (grpc_onStatus (new_grpc_source ''h:1'')))))"
  unfolding demo_grpc_def by (rule grpc_life.started) simp

lemma demo_grpc_drop:
  "grpc_life ''h:1'' (fst (grpc_step demo_grpc (GrpcError 0 ''x'')))
     (snd (grpc_start (grpc_onFrame (grpc_onStatus (new_grpc_source ''h:1'')))) @
      snd (grpc_step demo_grpc (GrpcError 0 ''x'')))"
  by (rule grpc_life.stepped[OF demo_grpc_life, where ev = "GrpcError 0 ''x''"])
    (simp_all add: demo_grpc_def grpc_start_def subscribe_def new_grpc_source_def grpc_onFrame_def
      grpc_onStatus_def)

theorem grpc_one_stream_or_retry_witness:
  "length (gs_live_calls (fst (grpc_step demo_grpc (GrpcError 0 ''x'')))) +
   length (gs_timers (fst (grpc_step demo_grpc (GrpcError 0 ''x'')))) = 1"
proof -
  have "\<not> gs_stopped (fst (grpc_step demo_grpc (GrpcError 0 ''x'')))"
    by (simp add: demo_grpc_def grpc_start_def subscribe_def new_grpc_source_def grpc_onFrame_def
        grpc_onStatus_def onDrop_def close_call_def Let_def)
  from grpc_one_stream_or_retry[OF demo_grpc_drop this] show ?thesis by blast
qed

text \<open>What the contract is worth. \<open>onDrop\<close> does not ask which stream has dropped nor whether a retry
  is already armed, so a transport that ends a failed stream too (an error and then an end for the
  same call) makes it arm two retries. Streams and retries are from then on two in number, however
  well the transport behaves: both come up, every frame is delivered twice, and \<open>stop\<close> cancels
  only the younger stream.\<close>

definition source_lines :: "grpc_source \<Rightarrow> nat" where
  "source_lines s = length (gs_live_calls s) + length (gs_timers s)"

definition follow :: "grpc_source \<Rightarrow> grpc_event list \<Rightarrow> grpc_source" where
  "follow s evs = foldl (\<lambda>s ev. fst (grpc_step s ev)) s evs"

fun follow_ok :: "grpc_source \<Rightarrow> grpc_event list \<Rightarrow> bool" where
  "follow_ok s [] = True"
| "follow_ok s (ev # evs) = (transport_ok s ev \<and> ev \<noteq> GrpcStop \<and> follow_ok (fst (grpc_step s ev)) evs)"

lemma source_lines_step:
  assumes "transport_ok s ev" "ev \<noteq> GrpcStop" "\<not> gs_stopped s"
  shows "\<not> gs_stopped (fst (grpc_step s ev)) \<and> source_lines (fst (grpc_step s ev)) = source_lines s"
  using assms by (cases ev)
    (auto simp: source_lines_def grpc_onData_def onDrop_def close_call_def subscribe_def grpc_sendCommand_def
      issue_grpc_id_def Let_def length_remove1 split: option.split dest: length_pos_if_in_set)

lemma source_lines_follow:
  "follow_ok s evs \<Longrightarrow> \<not> gs_stopped s \<Longrightarrow> \<not> gs_stopped (follow s evs) \<and> source_lines (follow s evs) = source_lines s"
proof (induction evs arbitrary: s)
  case Nil
  then show ?case by (simp add: follow_def)
next
  case (Cons ev evs)
  with source_lines_step[of s ev] Cons.IH[of "fst (grpc_step s ev)"] show ?case by (simp add: follow_def)
qed

theorem second_terminal_event_doubles:
  assumes life: "grpc_life target s os" and running: "\<not> gs_stopped s" and live: "c \<in> set (gs_live_calls s)"
    and dropped: "s' = follow s [GrpcError c m, GrpcEnd c]"
  shows "(follow_ok s' evs \<longrightarrow> source_lines (follow s' evs) = 2) \<and>
    gs_live_calls (follow s' [GrpcTimer 0, GrpcTimer 0]) = [Suc (gs_next_call s), gs_next_call s] \<and>
    snd (grpc_stop (follow s' [GrpcTimer 0, GrpcTimer 0])) = [CallCancel (Suc (gs_next_call s)), ClientClose]"
proof -
  have one: "gs_live_calls s = [c]" "gs_timers s = []"
    using grpc_one_line[OF life running] live
    by (cases "gs_live_calls s"; auto)+
  then have s': "\<not> gs_stopped s'" "gs_live_calls s' = []" "length (gs_timers s') = 2"
    "gs_next_call s' = gs_next_call s"
    using running by (simp_all add: dropped follow_def onDrop_def close_call_def Let_def)
  then obtain v w where tm: "gs_timers s' = [v, w]" by (auto simp: length_Suc_conv numeral_2_eq_2)
  show ?thesis
    using source_lines_follow[of s' evs] s' tm by (simp add: source_lines_def follow_def subscribe_def grpc_stop_def)
qed

theorem second_terminal_event_doubles_witness:
  "gs_live_calls (follow demo_grpc [GrpcError 0 ''x'', GrpcEnd 0, GrpcTimer 0, GrpcTimer 0]) = [2, 1]"
proof -
  have "\<not> gs_stopped demo_grpc" "0 \<in> set (gs_live_calls demo_grpc)" "gs_next_call demo_grpc = 1"
    by (simp_all add: demo_grpc_def grpc_start_def subscribe_def new_grpc_source_def grpc_onFrame_def
        grpc_onStatus_def)
  from second_terminal_event_doubles[OF demo_grpc_life this(1,2) refl, of "''x''" "[]"] this(3)
  show ?thesis by (simp add: follow_def)
qed

text \<open>What the operators are told is the truth: in every life of the source the last status
  it reported is whether it is receiving frames, and it never announces the stream twice in a
  row, so the clients get one status per transition and not one per frame.\<close>

theorem grpc_status_is_health:
  assumes "grpc_life target s os"
  shows "status_flags os \<noteq> [] \<and> last (status_flags os) = gs_healthy s \<and>
    (\<forall>i < length (status_flags os) - 1. \<not> (status_flags os ! i \<and> status_flags os ! Suc i))"
  using grpc_life_inv[OF assms] by (simp only: grpc_inv_def) blast

theorem grpc_status_is_health_witness:
  "last (status_flags (snd (grpc_start (grpc_onFrame (grpc_onStatus (new_grpc_source ''h:1'')))) @
      snd (grpc_step demo_grpc (GrpcError 0 ''x'')))) = False"
  using grpc_status_is_health[OF demo_grpc_drop]
  by (simp add: demo_grpc_def grpc_start_def subscribe_def new_grpc_source_def grpc_onFrame_def
      grpc_onStatus_def onDrop_def close_call_def Let_def)

text \<open>Exponential backoff: when a freshly started source meets a server that keeps failing,
  the k-th retry is scheduled after min(500 * 2^k, 5000) milliseconds.\<close>

theorem grpc_backoff_schedule:
  "timeouts (snd (outage n (fst (grpc_start (grpc_onStatus (new_grpc_source target)))))) =
     map (\<lambda>k. min (500 * 2 ^ k) 5000) [0 ..< n]"
proof -
  let ?s = "fst (grpc_start (grpc_onStatus (new_grpc_source target)))"
  have "\<not> gs_stopped ?s" "gs_timers ?s = []" "gs_backoff ?s = 500"
    by (simp_all add: grpc_start_def subscribe_def grpc_onStatus_def new_grpc_source_def RECONNECT_MIN_MS_def)
  from outage_waits[OF this(1,2), of n] this(3) show ?thesis
    by (auto simp: RECONNECT_MAX_MS_def)
qed

text \<open>The operator command that goes to the server: stamped with the current time, expiring
  exactly five seconds later, both timestamps in normal form and losing nothing of the clock;
  the targets as given, and the id of the intent when it has one.\<close>

theorem grpc_command_stamped:
  "\<exists>c. snd (grpc_sendCommand now s intent) = [CallSendCommand c] \<and>
     timestamp_ms (oc_timestamp c) = int now \<and>
     timestamp_ms (oc_expiry c) = int now + 5000 \<and>
     nanos (oc_timestamp c) \<in> {0 ..< 1000000000} \<and> nanos (oc_expiry c) \<in> {0 ..< 1000000000} \<and>
     oc_targets c = in_targets intent \<and>
     oc_command_id c = (case in_command_id intent of Some i \<Rightarrow> i | None \<Rightarrow> grpc_id now (gs_commandSeq s))"
  using timestamp_roundtrip[of "int now"] timestamp_roundtrip[of "int now + 5000"]
  by (simp add: grpc_sendCommand_def split_beta issue_grpc_id_def COMMAND_EXPIRY_MS_def split: option.split)

text \<open>The parameters that go to the server are exactly the ones the operator set to a finite
  number, each under its own name and none twice: an absent field stays absent, and a NaN or an
  infinity never reaches the wire.\<close>

theorem grpc_params_exact:
  "((k, v) \<in> set (cleanParams (param_entries p)) \<longleftrightarrow>
     is_finite v \<and>
     (k, Some v) \<in> {(''speed'', pr_speed p), (''radius'', pr_radius p), (''center_x'', pr_center_x p),
       (''center_y'', pr_center_y p), (''theta'', pr_theta p)}) \<and>
   distinct (map fst (cleanParams (param_entries p)))"
  using cleanParams_keys[OF param_entries_keys, of p]
  by (simp only: cleanParams_set param_entries_set conj_commute[of "is_finite v"] simp_thms)

text \<open>The ids that the gRPC source mints for commands that came without one never repeat,
  at whatever times they are sent and however they interleave with commands that bring an id.\<close>

theorem grpc_ids_distinct: "distinct (minted_ids issue_grpc_id s requests)"
  by (rule grpc_source.minted_distinct)

definition quiet :: "grpc_out \<Rightarrow> bool" where
  "quiet out \<longleftrightarrow> timeout_of out = [] \<and> False \<notin> set (status_flag out) \<and> (\<forall>c. out \<noteq> CallSubscribe c)"

interpretation stopped_machine: io_machine grpc_step gs_stopped quiet
proof unfold_locales
  fix s :: grpc_source and e
  assume "gs_stopped s"
  then show "gs_stopped (fst (grpc_step s e))" "list_all quiet (snd (grpc_step s e))"
    by (cases e; auto simp: quiet_def grpc_onData_def onDrop_def close_call_def subscribe_def
        grpc_sendCommand_def issue_grpc_id_def grpc_stop_def grpc_status_def emit_status_def
        emit_frame_def Let_def split: option.split)+
qed

text \<open>After \<open>stop\<close> nothing is scheduled any more: whatever the transport, the timers and the
  operators do, no stream is opened, no retry is armed and no disconnection is reported.\<close>

theorem grpc_stopped_is_quiet:
  "list_all quiet (snd (run grpc_step (fst (grpc_stop s)) evs))"
  by (rule stopped_machine.run_ok) (simp add: grpc_stop_def)

text \<open>C20: The source finds its way back: from every running state of every life, after two rounds of
  calm (in each, anything the transport may do but end a stream, and then what it owes: the retry
  timer fires, the stream opened delivers a frame), the source is receiving, has said so as the
  last status it reported, has its backoff reset to the minimum and no retry pending; and it
  stays so as long as the calm lasts.\<close>

theorem grpc_source_reconnects:
  assumes "grpc_life target s os" "\<not> gs_stopped s" "2 \<le> length rs"
    and "calm_rounds life_step grpc_calm (grpc_owed f) (s, os) rs"
    and "calm_run life_step grpc_calm (foldl (round_end life_step (grpc_owed f)) (s, os) rs) es"
    and "h = foldl life_step (foldl (round_end life_step (grpc_owed f)) (s, os) rs) es"
  shows "gs_healthy (fst h) \<and> last (status_flags (snd h)) \<and> gs_timers (fst h) = [] \<and>
    length (gs_live_calls (fst h)) = 1 \<and> gs_backoff (fst h) = RECONNECT_MIN_MS"
proof -
  have "life_running target (s, os)" using assms(1,2) by (simp add: life_running_def)
  moreover have "grpc_distance (s, os) \<le> length rs" using assms(3) by (simp add: grpc_distance_def)
  ultimately have h: "life_running target h" "grpc_distance h = 0"
    using grpc_progress.arrived[of target "(s, os)" f rs es] assms(4-6) by blast+
  then have "gs_healthy (fst h)" "gs_timers (fst h) = []"
    by (simp_all add: grpc_distance_def split: if_splits)
  with h(1) grpc_life_inv[of target "fst h" "snd h"] healthy_backoff[of target "fst h" "snd h"] show ?thesis
    by (auto simp: life_running_def grpc_inv_def)
qed

theorem grpc_source_reconnects_witness:
  "gs_healthy (fst (foldl (round_end life_step (grpc_owed \<lparr>sw_seq = 0, sw_server_time = None, sw_robots = [], sw_commands = []\<rparr>))
      (fst (grpc_step demo_grpc (GrpcError 0 ''x'')),
       snd (grpc_start (grpc_onFrame (grpc_onStatus (new_grpc_source ''h:1'')))) @
         snd (grpc_step demo_grpc (GrpcError 0 ''x''))) [[], []]))"
proof -
  let ?s = "fst (grpc_step demo_grpc (GrpcError 0 ''x''))"
  let ?os = "snd (grpc_start (grpc_onFrame (grpc_onStatus (new_grpc_source ''h:1'')))) @
         snd (grpc_step demo_grpc (GrpcError 0 ''x''))"
  let ?f = "\<lparr>sw_seq = 0, sw_server_time = None, sw_robots = [], sw_commands = []\<rparr>"
  have "\<not> gs_stopped ?s"
    by (simp add: demo_grpc_def grpc_start_def subscribe_def new_grpc_source_def grpc_onFrame_def
        grpc_onStatus_def onDrop_def close_call_def Let_def)
  from grpc_source_reconnects[OF demo_grpc_drop this, of "[[], []]" ?f "[]"] show ?thesis
    by simp
qed

end
