(* ===== verification/Bridge.thy ===== *)
theory Bridge
  imports FakeSource GrpcSource "HOL-Library.Multiset"
begin

text \<open>
  \<open>bridge/src/index.ts\<close>: the gateway process. It owns one source, caches the last frame and
  the last status, and fans both out to the connected browsers; a command from a browser goes
  to the source and its answer back to that browser alone. The WebSocket library and the
  transport are outside the source: sockets are numbers, \<open>br_open\<close> are the ones whose
  \<open>readyState\<close> is \<open>OPEN\<close>, \<open>br_seen\<close> all that ever connected; what the process asks of them is output. The
  console is not modelled, except that the line logged after an acknowledgement joins the targets,
  which throws when there is nothing to join: an entry of \<open>br_inflight\<close> is a command whose unary call
  has not returned, with its socket and the exception that \<open>msg.intent.targets.join(",")\<close> will raise.
\<close>

section \<open>The command line\<close>

record bridge_args =
  ag_fake :: bool
  ag_target :: "string option"
  ag_port :: jsnum

definition default_args :: bridge_args where
  "default_args = \<lparr>ag_fake = False, ag_target = Some ''localhost:50051'', ag_port = Fin 8081\<rparr>"

text \<open>\<open>argv[++i]\<close> past the end is \<open>undefined\<close>: no target, and \<open>Number(undefined)\<close> is NaN.\<close>

fun parse_from :: "bridge_args \<Rightarrow> string list \<Rightarrow> bridge_args" where
  "parse_from args [] = args"
| "parse_from args [a] =
     (if a = ''--fake'' then args\<lparr>ag_fake := True\<rparr>
      else if a = ''--target'' then args\<lparr>ag_target := None\<rparr>
      else if a = ''--port'' then args\<lparr>ag_port := NaN\<rparr>
      else args)"
| "parse_from args (a # b # rest) =
     (if a = ''--fake'' then parse_from (args\<lparr>ag_fake := True\<rparr>) (b # rest)
      else if a = ''--target'' then parse_from (args\<lparr>ag_target := Some b\<rparr>) rest
      else if a = ''--port'' then parse_from (args\<lparr>ag_port := js_Number b\<rparr>) rest
      else parse_from args (b # rest))"

definition parseArgs :: "string list \<Rightarrow> bridge_args" where
  "parseArgs argv = parse_from default_args argv"

section \<open>State\<close>

datatype bridge_source = FakeSrc fake_source | GrpcSrc grpc_source

fun source_kind_of :: "bridge_source \<Rightarrow> source_kind" where
  "source_kind_of (FakeSrc _) = Fake"
| "source_kind_of (GrpcSrc _) = Grpc"

record bridge =
  br_source :: bridge_source
  br_clients :: "nat list"
  br_open :: "nat list"
  br_seen :: "nat list"
  br_lastFrame :: "swarm_state option"
  br_connected :: bool
  br_statusDetail :: string
  br_inflight :: "(nat \<times> operator_command \<times> string option) list"
  br_alive :: bool

datatype bridge_out =
    WsSend nat server_message
  | Transport grpc_out
  | WssClose
  | ProcessExit
  | Crash

text \<open>What arrives on a socket, after \<open>JSON.parse\<close>: text that is not JSON, the value \<open>null\<close>,
  any other value without \<open>type: "command"\<close>, a command whose intent is so malformed that
  \<open>sendCommand\<close> throws (whether it had minted a command id by then, and the message of the
  exception), a command, or a command to the server whose \<open>targets\<close> is no array (with the message of
  the exception that \<open>join\<close> will raise). \<open>Gateway\<close> computes it from the JSON value.\<close>

datatype raw_message =
    NotJson
  | JsonNull
  | JsonOther
  | JsonBadCommand bool string
  | JsonCommand command_intent
  | JsonUnjoinable string command_intent

section \<open>Fan-out\<close>

definition broadcast :: "bridge \<Rightarrow> server_message \<Rightarrow> bridge_out list" where
  "broadcast b msg = map (\<lambda>ws. WsSend ws msg) (filter (\<lambda>ws. ws \<in> set (br_open b)) (br_clients b))"

definition status_msg :: "bridge \<Rightarrow> server_message" where
  "status_msg b = StatusMsg (br_connected b) (source_kind_of (br_source b)) (br_statusDetail b)"

text \<open>The two callbacks the bridge registers with its source.\<close>

fun on_source :: "bridge \<Rightarrow> source_out \<Rightarrow> bridge \<times> bridge_out list" where
  "on_source b (EmitStatus conn detail) =
     (let b1 = b\<lparr>br_connected := conn, br_statusDetail := detail\<rparr>
      in (b1, broadcast b1 (status_msg b1)))"
| "on_source b (EmitFrame state) =
     (let b1 = b\<lparr>br_lastFrame := Some state\<rparr> in (b1, broadcast b1 (SwarmMsg state)))"

text \<open>A source operation: its state is replaced, its callbacks run in order, and its other
  effects go to the transport.\<close>

fun on_grpc_out :: "bridge \<Rightarrow> grpc_out \<Rightarrow> bridge \<times> bridge_out list" where
  "on_grpc_out b (Callback c) = on_source b c"
| "on_grpc_out b out = (b, [Transport out])"

definition with_fake :: "bridge \<Rightarrow> fake_source \<times> source_out list \<Rightarrow> bridge \<times> bridge_out list" where
  "with_fake b r = run on_source (b\<lparr>br_source := FakeSrc (fst r)\<rparr>) (snd r)"

definition with_grpc :: "bridge \<Rightarrow> grpc_source \<times> grpc_out list \<Rightarrow> bridge \<times> bridge_out list" where
  "with_grpc b r = run on_grpc_out (b\<lparr>br_source := GrpcSrc (fst r)\<rparr>) (snd r)"

section \<open>Clients\<close>

definition on_connection :: "bridge \<Rightarrow> nat \<Rightarrow> bridge \<times> bridge_out list" where
  "on_connection b ws =
     (let b1 = b\<lparr>br_clients := js_add ws (br_clients b), br_open := ws # br_open b,
                  br_seen := ws # br_seen b\<rparr>
      in (b1, WsSend ws (status_msg b1) #
              (case br_lastFrame b1 of Some f \<Rightarrow> [WsSend ws (SwarmMsg f)] | None \<Rightarrow> [])))"

definition ack_msg :: "string + accepted \<Rightarrow> server_message" where
  "ack_msg r = (case r of
     Inl detail \<Rightarrow> AckMsg '''' False detail
   | Inr a \<Rightarrow> AckMsg (ac_command_id a) (ac_accepted a) (ac_detail a))"

text \<open>A command to the simulator is answered by a resolved promise, within the same turn; a
  command to the server stays in flight until the unary call returns. \<open>unjoinable\<close> is the exception
  that awaits the handler when it goes on after the answer, if any; the simulator has thrown by then.\<close>

definition submit_command ::
  "nat \<Rightarrow> bridge \<Rightarrow> nat \<Rightarrow> string option \<Rightarrow> command_intent \<Rightarrow> bridge \<times> bridge_out list"
where
  "submit_command now b ws unjoinable intent =
     (case br_source b of
        FakeSrc s \<Rightarrow>
          (let (s1, acc) = fake_sendCommand s intent
           in (b\<lparr>br_source := FakeSrc s1\<rparr>, [WsSend ws (ack_msg (Inr acc))]))
      | GrpcSrc s \<Rightarrow>
          (let (s1, os) = grpc_sendCommand now s intent
           in (b\<lparr>br_source := GrpcSrc s1,
                  br_inflight := br_inflight b @
                    concat (map (\<lambda>out. case out of CallSendCommand c \<Rightarrow> [(ws, c, unjoinable)] | _ \<Rightarrow> []) os)\<rparr>,
               map Transport os)))"

definition on_command :: "nat \<Rightarrow> bridge \<Rightarrow> nat \<Rightarrow> command_intent \<Rightarrow> bridge \<times> bridge_out list" where
  "on_command now b ws intent = submit_command now b ws None intent"

lemmas command_defs = on_command_def submit_command_def

text \<open>An exception after \<open>command_id ?? ...\<close> has already advanced the source's counter.\<close>

definition mint_id :: "nat \<Rightarrow> bridge \<Rightarrow> bridge" where
  "mint_id now b = b\<lparr>br_source := (case br_source b of
     FakeSrc s \<Rightarrow> FakeSrc (fst (issue_fake_id () s None))
   | GrpcSrc s \<Rightarrow> GrpcSrc (fst (issue_grpc_id now s None)))\<rparr>"

text \<open>\<open>msg.type\<close> is read outside the \<open>try\<close>: on \<open>null\<close> it throws inside the async handler, and
  the unhandled rejection ends the process.\<close>

fun on_message :: "nat \<Rightarrow> bridge \<Rightarrow> nat \<Rightarrow> raw_message \<Rightarrow> bridge \<times> bridge_out list" where
  "on_message now b ws NotJson = (b, [])"
| "on_message now b ws JsonNull = (b\<lparr>br_alive := False\<rparr>, [Crash])"
| "on_message now b ws JsonOther = (b, [])"
| "on_message now b ws (JsonBadCommand minted err) =
     (if minted then mint_id now b else b, [WsSend ws (ack_msg (Inl err))])"
| "on_message now b ws (JsonCommand intent) = on_command now b ws intent"
| "on_message now b ws (JsonUnjoinable err intent) = submit_command now b ws (Some err) intent"

text \<open>The unary call number \<open>k\<close> in flight returns. An error rejects the promise, and the \<open>catch\<close> sends
  the one answer; otherwise the answer is sent, and then the targets are joined: if that throws, the
  same \<open>catch\<close> sends a second answer, a rejection without an id.\<close>

definition after_ack :: "string option \<Rightarrow> string option \<Rightarrow> server_message list" where
  "after_ack err unjoinable =
     (if err = None then (case unjoinable of Some e \<Rightarrow> [ack_msg (Inl e)] | None \<Rightarrow> []) else [])"

definition on_reply ::
  "bridge \<Rightarrow> nat \<Rightarrow> string option \<Rightarrow> accepted \<Rightarrow> bridge \<times> bridge_out list"
where
  "on_reply b k err resp =
     (if k < length (br_inflight b)
      then (case br_inflight b ! k of (ws, cmd, unjoinable) \<Rightarrow>
        (b\<lparr>br_inflight := take k (br_inflight b) @ drop (Suc k) (br_inflight b)\<rparr>,
         map (WsSend ws) (ack_msg (grpc_settle err resp) # after_ack err unjoinable)))
      else (b, []))"

definition on_ws_close :: "bridge \<Rightarrow> nat \<Rightarrow> bridge" where
  "on_ws_close b ws = b\<lparr>br_clients := js_remove ws (br_clients b), br_open := js_remove ws (br_open b)\<rparr>"

section \<open>The process\<close>

definition new_bridge :: "bridge_args \<Rightarrow> bridge" where
  "new_bridge args =
     \<lparr>br_source = (if ag_fake args then FakeSrc new_fake_source
                   else GrpcSrc (new_grpc_source (case ag_target args of Some t \<Rightarrow> t | None \<Rightarrow> ''undefined''))),
      br_clients = [], br_open = [], br_seen = [], br_lastFrame = None, br_connected = False,
      br_statusDetail = ''starting'', br_inflight = [], br_alive = True\<rparr>"

definition register_callbacks :: "bridge \<Rightarrow> bridge" where
  "register_callbacks b = b\<lparr>br_source := (case br_source b of
     FakeSrc s \<Rightarrow> FakeSrc (fake_onFrame (fake_onStatus s))
   | GrpcSrc s \<Rightarrow> GrpcSrc (grpc_onFrame (grpc_onStatus s)))\<rparr>"

definition start_source :: "bridge \<Rightarrow> bridge \<times> bridge_out list" where
  "start_source b = (case br_source b of
     FakeSrc s \<Rightarrow> with_fake b (fake_start s)
   | GrpcSrc s \<Rightarrow> with_grpc b (grpc_start s))"

definition main_bridge :: "string list \<Rightarrow> bridge \<times> bridge_out list" where
  "main_bridge argv = start_source (register_callbacks (new_bridge (parseArgs argv)))"

definition shutdown :: "bridge \<Rightarrow> bridge \<times> bridge_out list" where
  "shutdown b =
     (let (b1, os) = (case br_source b of
            FakeSrc s \<Rightarrow> with_fake b (fake_stop s, [])
          | GrpcSrc s \<Rightarrow> with_grpc b (grpc_stop s))
      in (b1\<lparr>br_alive := False\<rparr>, os @ [WssClose, ProcessExit]))"

datatype bridge_event =
    FakeTick
  | GrpcEvent grpc_event
  | Connect nat
  | Message nat nat raw_message
  | Reply nat "string option" accepted
  | Closing nat
  | Close nat
  | Signal

text \<open>A dead process does nothing; a socket connects once; the transport and the timers drive
  the source that runs, whose commands and stop come from the bridge itself; \<open>Closing\<close> is the
  moment a socket's \<open>readyState\<close> leaves \<open>OPEN\<close>, after which the library drops what is sent.\<close>

fun from_transport :: "grpc_event \<Rightarrow> bool" where
  "from_transport (GrpcSend _ _) = False"
| "from_transport GrpcStop = False"
| "from_transport _ = True"

fun bridge_step :: "bridge \<Rightarrow> bridge_event \<Rightarrow> bridge \<times> bridge_out list" where
  "bridge_step b ev =
     (if \<not> br_alive b then (b, [])
      else case ev of
        FakeTick \<Rightarrow> (case br_source b of
            FakeSrc s \<Rightarrow> with_fake b (fake_step s FakeTimer) | GrpcSrc _ \<Rightarrow> (b, []))
      | GrpcEvent e \<Rightarrow> (case br_source b of
            GrpcSrc s \<Rightarrow> if from_transport e then with_grpc b (grpc_step s e) else (b, [])
          | FakeSrc _ \<Rightarrow> (b, []))
      | Connect ws \<Rightarrow> if ws \<in> set (br_seen b) then (b, []) else on_connection b ws
      | Message now ws raw \<Rightarrow> if ws \<in> set (br_clients b) then on_message now b ws raw else (b, [])
      | Reply k err resp \<Rightarrow> on_reply b k err resp
      | Closing ws \<Rightarrow> (b\<lparr>br_open := js_remove ws (br_open b)\<rparr>, [])
      | Close ws \<Rightarrow> (on_ws_close b ws, [])
      | Signal \<Rightarrow> shutdown b)"

declare bridge_step.simps [simp del]

definition bridge_session :: "string list \<Rightarrow> bridge_event list \<Rightarrow> bridge \<times> bridge_out list" where
  "bridge_session argv evs =
     (let (b, os) = main_bridge argv; (b', os') = run bridge_step b evs in (b', os @ os'))"

section \<open>Every open client is in sync\<close>

fun is_status :: "server_message \<Rightarrow> bool" where
  "is_status (StatusMsg _ _ _) = True"
| "is_status _ = False"

fun is_swarm :: "server_message \<Rightarrow> bool" where
  "is_swarm (SwarmMsg _) = True"
| "is_swarm _ = False"

fun is_ack :: "server_message \<Rightarrow> bool" where
  "is_ack (AckMsg _ _ _) = True"
| "is_ack _ = False"

fun sent_out :: "nat \<Rightarrow> bridge_out \<Rightarrow> server_message list" where
  "sent_out ws (WsSend w m) = (if w = ws then [m] else [])"
| "sent_out ws _ = []"

definition sent_to :: "nat \<Rightarrow> bridge_out list \<Rightarrow> server_message list" where
  "sent_to ws os = concat (map (sent_out ws) os)"

lemma sent_to_simps [simp]:
  "sent_to ws [] = []"
  "sent_to ws (os @ ps) = sent_to ws os @ sent_to ws ps"
  "sent_to ws (out # os) = sent_out ws out @ sent_to ws os"
  by (simp_all add: sent_to_def)

lemma sent_to_transport [simp]: "sent_to ws (map Transport os) = []"
  by (induction os) simp_all

text \<open>The specification: what an open client was last told is what the bridge knows.\<close>

definition told :: "bridge \<Rightarrow> server_message list \<Rightarrow> bool" where
  "told b ms \<longleftrightarrow> last_of is_status ms = Some (status_msg b) \<and>
     last_of is_swarm ms = map_option SwarmMsg (br_lastFrame b)"

definition in_sync :: "bridge \<Rightarrow> bridge_out list \<Rightarrow> bool" where
  "in_sync b os \<longleftrightarrow>
     distinct (br_clients b) \<and> set (br_open b) \<subseteq> set (br_clients b) \<and>
     set (br_clients b) \<subseteq> set (br_seen b) \<and> fst ` set (br_inflight b) \<subseteq> set (br_seen b) \<and>
     (\<forall>ws \<in> set (br_open b). told b (sent_to ws os)) \<and>
     (\<forall>ws. ws \<notin> set (br_seen b) \<longrightarrow> sent_to ws os = [])"

lemma sent_to_broadcast:
  "distinct (br_clients b) \<Longrightarrow>
     sent_to ws (broadcast b m) = (if ws \<in> set (br_open b) \<and> ws \<in> set (br_clients b) then [m] else [])"
proof -
  have "sent_to ws (map (\<lambda>w. WsSend w m) ws') = (if ws \<in> set ws' then [m] else [])"
    if "distinct ws'" for ws'
    using that by (induction ws') auto
  then show "distinct (br_clients b) \<Longrightarrow> ?thesis" by (simp add: broadcast_def)
qed

lemma in_sync_source: "in_sync b os \<Longrightarrow> in_sync (fst (on_source b out)) (os @ snd (on_source b out))"
  by (cases out)
    (auto simp: in_sync_def told_def Let_def sent_to_broadcast last_of_append status_msg_def subset_iff
      split: option.split)

interpretation callbacks: history_machine on_source in_sync
  by unfold_locales (rule in_sync_source)

lemma in_sync_quiet: "in_sync b os \<Longrightarrow> (\<And>ws. sent_to ws ps = []) \<Longrightarrow> in_sync b (os @ ps)"
  by (simp add: in_sync_def)

interpretation grpc_effects: history_machine on_grpc_out in_sync
proof unfold_locales
  fix s os e
  assume "in_sync s os"
  then show "in_sync (fst (on_grpc_out s e)) (os @ snd (on_grpc_out s e))"
    by (cases e) (simp_all add: in_sync_source in_sync_quiet)
qed

lemma in_sync_same_kind:
  "in_sync b os \<Longrightarrow> source_kind_of src = source_kind_of (br_source b) \<Longrightarrow>
     in_sync (b\<lparr>br_source := src\<rparr>) os"
  by (simp add: in_sync_def told_def status_msg_def)

lemma in_sync_fields:
  "in_sync b os \<Longrightarrow> in_sync (b\<lparr>br_alive := a\<rparr>) os"
  "in_sync b os \<Longrightarrow> fst ` set l \<subseteq> set (br_seen b) \<Longrightarrow> in_sync (b\<lparr>br_inflight := l\<rparr>) os"
  by (simp_all add: in_sync_def told_def status_msg_def)

lemma in_sync_with_fake:
  "in_sync b os \<Longrightarrow> br_source b = FakeSrc s \<Longrightarrow> in_sync (fst (with_fake b r)) (os @ snd (with_fake b r))"
  unfolding with_fake_def by (rule callbacks.run_hist) (simp add: in_sync_same_kind)

lemma in_sync_with_grpc:
  "in_sync b os \<Longrightarrow> br_source b = GrpcSrc s \<Longrightarrow> in_sync (fst (with_grpc b r)) (os @ snd (with_grpc b r))"
  unfolding with_grpc_def by (rule grpc_effects.run_hist) (simp add: in_sync_same_kind)

lemma in_sync_ack:
  "in_sync b os \<Longrightarrow> ws \<in> set (br_seen b) \<Longrightarrow> in_sync b (os @ [WsSend ws (ack_msg r)])"
  by (auto simp: in_sync_def told_def last_of_append ack_msg_def split: sum.split)

lemma in_sync_acks:
  "in_sync b os \<Longrightarrow> ws \<in> set (br_seen b) \<Longrightarrow> in_sync b (os @ map (\<lambda>r. WsSend ws (ack_msg r)) rs)"
proof (induction rs rule: rev_induct)
  case (snoc r rs)
  from in_sync_ack[OF snoc.IH[OF snoc.prems] snoc.prems(2), of r] show ?case by simp
qed simp

text \<open>The answers that end a call in flight: one, or two.\<close>

definition reply_answers :: "string option \<Rightarrow> accepted \<Rightarrow> string option \<Rightarrow> (string + accepted) list" where
  "reply_answers err resp unjoinable =
     grpc_settle err resp # (if err = None then (case unjoinable of Some e \<Rightarrow> [Inl e] | None \<Rightarrow> []) else [])"

lemma reply_messages:
  "map (WsSend ws) (ack_msg (grpc_settle err resp) # after_ack err u) =
     map (\<lambda>r. WsSend ws (ack_msg r)) (reply_answers err resp u)"
  by (simp add: reply_answers_def after_ack_def split: option.split)

lemma on_reply_eq:
  "k < length (br_inflight b) \<Longrightarrow> br_inflight b ! k = (ws, cmd, u) \<Longrightarrow> on_reply b k err resp =
     (b\<lparr>br_inflight := take k (br_inflight b) @ drop (Suc k) (br_inflight b)\<rparr>,
      map (\<lambda>r. WsSend ws (ack_msg r)) (reply_answers err resp u))"
  unfolding on_reply_def reply_messages by simp

lemma on_reply_fields [simp]:
  "br_source (fst (on_reply b k e a)) = br_source b" "br_lastFrame (fst (on_reply b k e a)) = br_lastFrame b"
  "br_alive (fst (on_reply b k e a)) = br_alive b" "br_clients (fst (on_reply b k e a)) = br_clients b"
  "br_open (fst (on_reply b k e a)) = br_open b"
  by (simp_all add: on_reply_def split_beta)

lemma on_reply_idle: "\<not> k < length (br_inflight b) \<Longrightarrow> on_reply b k err resp = (b, [])"
  by (simp add: on_reply_def)

lemma in_sync_connection:
  "in_sync b os \<Longrightarrow> ws \<notin> set (br_seen b) \<Longrightarrow>
     in_sync (fst (on_connection b ws)) (os @ snd (on_connection b ws))"
  by (auto simp: in_sync_def told_def on_connection_def Let_def status_msg_def last_of_append
      split: option.split)

lemma in_sync_close: "in_sync b os \<Longrightarrow> in_sync (on_ws_close b ws) os"
  by (auto simp: in_sync_def told_def on_ws_close_def status_msg_def)

lemma in_sync_closing: "in_sync b os \<Longrightarrow> in_sync (b\<lparr>br_open := js_remove ws (br_open b)\<rparr>) os"
  by (auto simp: in_sync_def told_def status_msg_def)

lemma in_sync_shutdown: "in_sync b os \<Longrightarrow> in_sync (fst (shutdown b)) (os @ snd (shutdown b))"
proof -
  assume sync: "in_sync b os"
  have "in_sync (b1\<lparr>br_alive := False\<rparr>) (os @ os1 @ [WssClose, ProcessExit])"
    if "in_sync b1 (os @ os1)" for b1 os1
    using in_sync_fields(1)[OF in_sync_quiet[OF that, of "[WssClose, ProcessExit]"]] by simp
  then show ?thesis
    using in_sync_with_fake[OF sync] in_sync_with_grpc[OF sync]
    by (cases "br_source b") (simp_all add: shutdown_def split_beta)
qed

lemma sub_inflight: "fst ` set (take k l @ drop (Suc k) l) \<subseteq> fst ` set l"
  by (auto dest: in_set_takeD in_set_dropD)

lemma in_sync_reply: "in_sync b os \<Longrightarrow> in_sync (fst (on_reply b k e a)) (os @ snd (on_reply b k e a))"
proof -
  assume sync: "in_sync b os"
  have seen: "fst ` set (br_inflight b) \<subseteq> set (br_seen b)" using sync by (simp add: in_sync_def)
  show ?thesis
  proof (cases "k < length (br_inflight b)")
    case True
    obtain ws cmd u where entry: "br_inflight b ! k = (ws, cmd, u)" by (metis prod_cases3)
    have "fst (br_inflight b ! k) \<in> set (br_seen b)"
      using seen True by (auto simp: image_subset_iff dest: nth_mem)
    with entry have "ws \<in> set (br_seen b)" by simp
    from in_sync_fields(2)[OF in_sync_acks[OF sync this] order_trans[OF sub_inflight seen]]
    show ?thesis by (simp add: on_reply_eq[OF True entry])
  next
    case False
    with sync show ?thesis by (simp add: on_reply_idle)
  qed
qed

lemma grpc_send_output:
  "snd (grpc_sendCommand now s i) =
     [CallSendCommand
        \<lparr>oc_command_id = snd (issue_grpc_id now s (in_command_id i)),
         oc_timestamp = toProtoTimestamp (int now),
         oc_expiry = toProtoTimestamp (int now + COMMAND_EXPIRY_MS),
         oc_targets = in_targets i,
         oc_set_parameters = cleanParams (param_entries (in_params i))\<rparr>]"
  by (simp add: grpc_sendCommand_def split_beta)

lemma in_sync_submit:
  assumes "in_sync b os" "ws \<in> set (br_seen b)"
  shows "in_sync (fst (submit_command now b ws u i)) (os @ snd (submit_command now b ws u i))"
proof (cases "br_source b")
  case (FakeSrc s)
  with in_sync_same_kind[OF in_sync_ack[OF assms]] show ?thesis by (simp add: submit_command_def split_beta)
next
  case (GrpcSrc s)
  let ?l = "br_inflight b @ concat (map (\<lambda>out. case out of CallSendCommand c \<Rightarrow> [(ws, c, u)] | _ \<Rightarrow> [])
    (snd (grpc_sendCommand now s i)))"
  have "fst ` set ?l \<subseteq> set (br_seen b)"
    using assms by (auto simp: in_sync_def grpc_send_output)
  then have "in_sync (b\<lparr>br_source := GrpcSrc (fst (grpc_sendCommand now s i)), br_inflight := ?l\<rparr>) os"
    using in_sync_same_kind[OF assms(1), of "GrpcSrc (fst (grpc_sendCommand now s i))"] GrpcSrc
    by (intro in_sync_fields(2)) simp_all
  with GrpcSrc have "in_sync (fst (submit_command now b ws u i)) os" by (simp add: submit_command_def split_beta)
  from in_sync_quiet[OF this] GrpcSrc show ?thesis by (simp add: submit_command_def split_beta)
qed

lemma in_sync_mint: "in_sync b os \<Longrightarrow> in_sync (mint_id now b) os"
  by (cases "br_source b") (simp_all add: mint_id_def in_sync_same_kind)

lemma mint_id_fields [simp]:
  "br_clients (mint_id now b) = br_clients b"
  "br_open (mint_id now b) = br_open b"
  "br_seen (mint_id now b) = br_seen b"
  "br_inflight (mint_id now b) = br_inflight b"
  "br_alive (mint_id now b) = br_alive b"
  by (simp_all add: mint_id_def)

lemma in_sync_message:
  assumes "in_sync b os" "ws \<in> set (br_seen b)"
  shows "in_sync (fst (on_message now b ws raw)) (os @ snd (on_message now b ws raw))"
  using assms in_sync_fields(1)[OF in_sync_quiet[OF assms(1), of "[Crash]"]]
  by (cases raw) (simp_all add: in_sync_ack in_sync_mint in_sync_submit on_command_def)

lemma in_sync_step:
  assumes sync: "in_sync b os"
  shows "in_sync (fst (bridge_step b ev)) (os @ snd (bridge_step b ev))"
proof (cases "br_alive b")
  case True
  have seen: "ws \<in> set (br_seen b)" if "ws \<in> set (br_clients b)" for ws
    using that sync by (auto simp: in_sync_def)
  show ?thesis
  proof (cases ev)
    case FakeTick
    with True in_sync_with_fake[OF sync] sync show ?thesis
      by (simp add: bridge_step.simps split: bridge_source.split)
  next
    case (GrpcEvent e)
    with True in_sync_with_grpc[OF sync] sync show ?thesis
      by (simp add: bridge_step.simps split: bridge_source.split)
  qed (use True sync seen in \<open>simp_all add: bridge_step.simps in_sync_connection in_sync_message
      in_sync_reply in_sync_closing in_sync_close in_sync_shutdown\<close>)
qed (simp add: bridge_step.simps sync)

interpretation bridge_machine: history_machine bridge_step in_sync
  by unfold_locales (rule in_sync_step)

lemma in_sync_start: "in_sync b [] \<Longrightarrow> in_sync (fst (start_source b)) (snd (start_source b))"
  using in_sync_with_fake[of b "[]"] in_sync_with_grpc[of b "[]"]
  by (cases "br_source b") (auto simp: start_source_def)

lemma in_sync_session: "in_sync (fst (bridge_session argv evs)) (snd (bridge_session argv evs))"
proof -
  have "in_sync (register_callbacks (new_bridge (parseArgs argv))) []"
    by (simp add: in_sync_def register_callbacks_def new_bridge_def)
  from bridge_machine.run_hist[OF in_sync_start[OF this]] show ?thesis
    by (simp add: bridge_session_def main_bridge_def split_beta)
qed

section \<open>Answers to commands\<close>

text \<open>Only an answer to a command is an acknowledgement, and it goes to one socket.\<close>

fun ack_out :: "bridge_out \<Rightarrow> (nat \<times> server_message) list" where
  "ack_out (WsSend ws m) = (if is_ack m then [(ws, m)] else [])"
| "ack_out _ = []"

definition acks :: "bridge_out list \<Rightarrow> (nat \<times> server_message) list" where
  "acks os = concat (map ack_out os)"

lemma acks_simps [simp]:
  "acks [] = []" "acks (os @ ps) = acks os @ acks ps" "acks (out # os) = ack_out out @ acks os"
  by (simp_all add: acks_def)

lemma acks_transport [simp]: "acks (map Transport os) = []"
  by (induction os) simp_all

lemma acks_broadcast: "\<not> is_ack m \<Longrightarrow> acks (broadcast b m) = []"
proof -
  have "\<not> is_ack m \<Longrightarrow> acks (map (\<lambda>w. WsSend w m) ws) = []" for ws by (induction ws) auto
  then show "\<not> is_ack m \<Longrightarrow> ?thesis" by (simp add: broadcast_def)
qed

lemma is_ack_msg [simp]: "is_ack (ack_msg r)"
  by (simp add: ack_msg_def split: sum.split)

text \<open>Commands that wait for an answer, by the socket they came from: a ghost count of commands
  accepted from the sockets minus acknowledgements sent to them.\<close>

lemma callbacks_no_ack: "acks (snd (on_source b out)) = [] \<and> br_inflight (fst (on_source b out)) = br_inflight b"
  by (cases out) (simp_all add: Let_def acks_broadcast status_msg_def)

lemma run_source_no_ack:
  "acks (snd (run on_source b outs)) = [] \<and> br_inflight (fst (run on_source b outs)) = br_inflight b"
  by (induction outs arbitrary: b) (simp_all add: split_beta callbacks_no_ack)

lemma grpc_out_no_ack: "acks (snd (on_grpc_out b out)) = [] \<and> br_inflight (fst (on_grpc_out b out)) = br_inflight b"
  by (cases out) (simp_all add: callbacks_no_ack)

lemma run_grpc_no_ack:
  "acks (snd (run on_grpc_out b outs)) = [] \<and> br_inflight (fst (run on_grpc_out b outs)) = br_inflight b"
  by (induction outs arbitrary: b) (simp_all add: split_beta grpc_out_no_ack)

lemma source_no_ack [simp]:
  "acks (snd (with_fake b r)) = []" "br_inflight (fst (with_fake b r)) = br_inflight b"
  "acks (snd (with_grpc b r')) = []" "br_inflight (fst (with_grpc b r')) = br_inflight b"
  by (simp_all add: with_fake_def with_grpc_def run_source_no_ack run_grpc_no_ack)

lemma connection_no_ack [simp]: "acks (snd (on_connection b ws)) = []"
  by (simp add: on_connection_def Let_def status_msg_def split: option.split)

text \<open>The sockets whose commands reach the bridge, in order.\<close>

definition asked :: "bridge \<Rightarrow> bridge_event \<Rightarrow> nat list" where
  "asked b ev = (case ev of
     Message now ws raw \<Rightarrow>
       (case raw of
          JsonCommand _ \<Rightarrow> if br_alive b \<and> ws \<in> set (br_clients b) then [ws] else []
        | JsonBadCommand _ _ \<Rightarrow> if br_alive b \<and> ws \<in> set (br_clients b) then [ws] else []
        | JsonUnjoinable _ _ \<Rightarrow> if br_alive b \<and> ws \<in> set (br_clients b) then [ws] else []
        | _ \<Rightarrow> [])
   | _ \<Rightarrow> [])"

fun all_asked :: "bridge \<Rightarrow> bridge_event list \<Rightarrow> nat list" where
  "all_asked b [] = []"
| "all_asked b (ev # evs) = asked b ev @ all_asked (fst (bridge_step b ev)) evs"

lemma mset_remove_nth:
  "k < length l \<Longrightarrow> image_mset f (mset l) =
     add_mset (f (l ! k)) (image_mset f (mset (take k l)) + image_mset f (mset (drop (Suc k) l)))"
proof -
  assume "k < length l"
  then have "image_mset f (mset l) = image_mset f (mset (take k l @ l ! k # drop (Suc k) l))"
    by (simp add: id_take_nth_drop[symmetric])
  then show ?thesis by (simp only: mset_append mset.simps image_mset_union image_mset_add_mset) simp
qed

text \<open>The second answers, in order: a call has returned without an error, and there was nothing to
  join.\<close>

definition again :: "bridge \<Rightarrow> bridge_event \<Rightarrow> (nat \<times> server_message) list" where
  "again b ev = (case ev of
     Reply k None resp \<Rightarrow>
       if br_alive b \<and> k < length (br_inflight b)
       then (case br_inflight b ! k of (ws, cmd, Some e) \<Rightarrow> [(ws, AckMsg '''' False e)] | _ \<Rightarrow> []) else []
   | _ \<Rightarrow> [])"

fun all_again :: "bridge \<Rightarrow> bridge_event list \<Rightarrow> (nat \<times> server_message) list" where
  "all_again b [] = []"
| "all_again b (ev # evs) = again b ev @ all_again (fst (bridge_step b ev)) evs"

lemma again_nil [simp]:
  "again b FakeTick = []" "again b (GrpcEvent e) = []" "again b (Connect ws) = []"
  "again b (Message now ws raw) = []" "again b (Closing ws) = []" "again b (Close ws) = []" "again b Signal = []"
  by (simp_all add: again_def)

lemma submit_account:
  "add_mset ws (mset (map fst (br_inflight b))) =
     mset (map fst (acks (snd (submit_command now b ws u i)))) +
     mset (map fst (br_inflight (fst (submit_command now b ws u i))))"
  by (cases "br_source b") (simp_all add: submit_command_def split_beta grpc_send_output)

lemma message_account:
  assumes "br_alive b" "ws \<in> set (br_clients b)"
  shows "mset (asked b (Message now ws raw)) + mset (map fst (br_inflight b)) =
    mset (map fst (acks (snd (on_message now b ws raw)))) +
    mset (map fst (br_inflight (fst (on_message now b ws raw))))"
  using assms submit_account[of ws b now] by (cases raw) (simp_all add: asked_def on_command_def)

lemma acks_answers [simp]: "acks (map (\<lambda>r. WsSend ws (ack_msg r)) rs) = map (\<lambda>r. (ws, ack_msg r)) rs"
  by (induction rs) simp_all

lemma again_reply:
  "br_alive b \<Longrightarrow> k < length (br_inflight b) \<Longrightarrow> br_inflight b ! k = (ws, cmd, u) \<Longrightarrow>
     map (\<lambda>r. (ws, ack_msg r)) (reply_answers e a u) = (ws, ack_msg (grpc_settle e a)) # again b (Reply k e a)"
  by (cases e; cases u) (simp_all add: again_def reply_answers_def ack_msg_def)

lemma reply_account:
  assumes "br_alive b"
  shows "mset (map fst (again b (Reply k e a))) + mset (map fst (br_inflight b)) =
     mset (map fst (acks (snd (on_reply b k e a)))) + mset (map fst (br_inflight (fst (on_reply b k e a))))"
proof (cases "k < length (br_inflight b)")
  case True
  obtain ws cmd u where entry: "br_inflight b ! k = (ws, cmd, u)" by (metis prod_cases3)
  from mset_remove_nth[OF True, of fst] show ?thesis
    by (simp add: on_reply_eq[OF True entry] again_reply[OF assms True entry] entry del: map_map)
next
  case False
  then show ?thesis by (simp add: on_reply_idle again_def split: option.split)
qed

lemma step_account:
  "mset (asked b ev) + mset (map fst (again b ev)) + mset (map fst (br_inflight b)) =
     mset (map fst (acks (snd (bridge_step b ev)))) + mset (map fst (br_inflight (fst (bridge_step b ev))))"
proof (cases "br_alive b")
  case True
  show ?thesis
  proof (cases ev)
    case (Message now ws raw)
    show ?thesis
    proof (cases "ws \<in> set (br_clients b)")
      case True
      from message_account[OF \<open>br_alive b\<close> True, of now raw] True \<open>br_alive b\<close> Message show ?thesis
        by (simp add: bridge_step.simps del: on_message.simps)
    next
      case False
      with Message \<open>br_alive b\<close> show ?thesis
        by (simp add: bridge_step.simps asked_def split: raw_message.split)
    qed
  next
    case (Reply k e a)
    with reply_account[of b k e a] True show ?thesis by (simp add: bridge_step.simps asked_def)
  next
    case (Connect ws)
    with True show ?thesis by (simp add: bridge_step.simps asked_def) (simp add: on_connection_def Let_def)
  next
    case Signal
    with True show ?thesis
      by (simp add: bridge_step.simps asked_def shutdown_def split_beta split: bridge_source.split)
  qed (use True in \<open>simp_all add: bridge_step.simps asked_def on_ws_close_def split: bridge_source.split\<close>)
next
  case False
  then show ?thesis by (cases ev) (simp_all add: bridge_step.simps asked_def again_def split: raw_message.split option.split)
qed

lemma run_account:
  "mset (all_asked b evs) + mset (map fst (all_again b evs)) + mset (map fst (br_inflight b)) =
     mset (map fst (acks (snd (run bridge_step b evs)))) +
     mset (map fst (br_inflight (fst (run bridge_step b evs))))"
proof (induction evs arbitrary: b)
  case Nil
  then show ?case by simp
next
  case (Cons ev evs)
  let ?b = "fst (bridge_step b ev)"
  have "mset (all_asked b (ev # evs)) + mset (map fst (all_again b (ev # evs))) + mset (map fst (br_inflight b)) =
      mset (all_asked ?b evs) + mset (map fst (all_again ?b evs)) +
      (mset (asked b ev) + mset (map fst (again b ev)) + mset (map fst (br_inflight b)))"
    by (simp add: ac_simps)
  also note step_account[of b ev]
  also note union_lcomm
  also note Cons.IH[of ?b]
  finally show ?case by (simp add: split_beta ac_simps)
qed

text \<open>A second answer is an answer, and only a command without an array of targets gets one.\<close>

lemma again_acked: "set (again b ev) \<subseteq> set (acks (snd (bridge_step b ev)))"
proof (cases "\<exists>k e a. ev = Reply k e a \<and> br_alive b \<and> k < length (br_inflight b)")
  case True
  then obtain k e a where ev: "ev = Reply k e a" "br_alive b" "k < length (br_inflight b)" by blast
  obtain ws cmd u where entry: "br_inflight b ! k = (ws, cmd, u)" by (metis prod_cases3)
  show ?thesis
    by (simp add: ev bridge_step.simps on_reply_eq[OF ev(3) entry] again_reply[OF ev(2,3) entry] del: map_map) auto
next
  case False
  then have "again b ev = []" by (cases ev) (auto simp: again_def split: option.split)
  then show ?thesis by simp
qed

lemma all_again_acked: "set (all_again b evs) \<subseteq> set (acks (snd (run bridge_step b evs)))"
  using again_acked by (induction evs arbitrary: b) (fastforce simp: split_beta)+

definition unjoinable_in :: "bridge \<Rightarrow> nat set" where
  "unjoinable_in b = {ws. \<exists>cmd e. (ws, cmd, Some e) \<in> set (br_inflight b)}"

definition unjoinable_sent :: "bridge_event list \<Rightarrow> nat set" where
  "unjoinable_sent evs = {ws. \<exists>now e i. Message now ws (JsonUnjoinable e i) \<in> set evs}"

lemma unjoinable_same: "br_inflight b' = br_inflight b \<Longrightarrow> unjoinable_in b' = unjoinable_in b"
  by (simp add: unjoinable_in_def)

lemma unjoinable_submit:
  "unjoinable_in (fst (submit_command now b ws u i)) \<subseteq> unjoinable_in b \<union> (if u = None then {} else {ws})"
  by (cases "br_source b") (auto simp: submit_command_def split_beta grpc_send_output unjoinable_in_def)

lemma unjoinable_step: "unjoinable_in (fst (bridge_step b ev)) \<subseteq> unjoinable_in b \<union> unjoinable_sent [ev]"
proof (cases "br_alive b")
  case True
  show ?thesis
  proof (cases ev)
    case (Message now ws raw)
    have "unjoinable_in (fst (on_message now b ws raw)) \<subseteq> unjoinable_in b \<union> unjoinable_sent [ev]"
    proof (cases raw)
      case (JsonCommand i)
      with unjoinable_submit[of now b ws None i] show ?thesis by (auto simp: on_command_def)
    next
      case (JsonUnjoinable e i)
      then have "ws \<in> unjoinable_sent [ev]" by (auto simp: unjoinable_sent_def Message)
      with unjoinable_submit[of now b ws "Some e" i] show ?thesis by (auto simp: JsonUnjoinable)
    qed (simp_all add: unjoinable_in_def)
    with True Message show ?thesis by (simp add: bridge_step.simps del: on_message.simps)
  next
    case (Reply k e a)
    have "unjoinable_in (fst (on_reply b k e a)) \<subseteq> unjoinable_in b"
      by (auto simp: on_reply_def unjoinable_in_def split_beta dest: in_set_takeD in_set_dropD)
    with True Reply show ?thesis by (auto simp: bridge_step.simps)
  next
    case (Connect ws)
    with True show ?thesis
      by (simp add: bridge_step.simps) (simp add: on_connection_def Let_def unjoinable_in_def)
  next
    case Signal
    with True show ?thesis
      by (simp add: bridge_step.simps shutdown_def split_beta unjoinable_in_def split: bridge_source.split)
  qed (use True in \<open>simp_all add: bridge_step.simps on_ws_close_def unjoinable_in_def split: bridge_source.split\<close>)
qed (simp add: bridge_step.simps)

lemma again_unjoinable: "fst ` set (again b ev) \<subseteq> unjoinable_in b"
proof (cases "\<exists>k e a. ev = Reply k e a \<and> k < length (br_inflight b)")
  case True
  then obtain k e a where ev: "ev = Reply k e a" "k < length (br_inflight b)" by blast
  obtain ws cmd u where entry: "br_inflight b ! k = (ws, cmd, u)" by (metis prod_cases3)
  have "(ws, cmd, u) \<in> set (br_inflight b)" using nth_mem[OF ev(2)] entry by simp
  moreover have "ws \<in> unjoinable_in b \<longleftrightarrow> (\<exists>cmd e. (ws, cmd, Some e) \<in> set (br_inflight b))"
    unfolding unjoinable_in_def by (rule mem_Collect_eq)
  ultimately have "\<exists>x. u = Some x \<Longrightarrow> ws \<in> unjoinable_in b" by auto
  moreover have "again b ev = [] \<or> (\<exists>x. u = Some x \<and> again b ev = [(ws, AckMsg '''' False x)])"
    by (simp add: ev(1) again_def entry split: option.split)
  ultimately show ?thesis by auto
next
  case False
  then have "again b ev = []" by (cases ev) (auto simp: again_def split: option.split)
  then show ?thesis by simp
qed

lemma all_again_unjoinable: "fst ` set (all_again b evs) \<subseteq> unjoinable_in b \<union> unjoinable_sent evs"
proof (induction evs arbitrary: b)
  case (Cons ev evs)
  have "unjoinable_sent (ev # evs) = unjoinable_sent [ev] \<union> unjoinable_sent evs"
    by (auto simp: unjoinable_sent_def)
  with Cons[of "fst (bridge_step b ev)"] unjoinable_step[of b ev] again_unjoinable[of b ev] show ?case
    by (simp add: image_Un) blast
qed simp

lemma main_no_ack: "acks (snd (main_bridge argv)) = [] \<and> br_inflight (fst (main_bridge argv)) = []"
  by (auto simp: main_bridge_def start_source_def register_callbacks_def new_bridge_def
      split: bridge_source.split)

section \<open>Properties\<close>

text \<open>The bridge as it starts in front of the simulator.\<close>

lemma fake_bridge_starts:
  "main_bridge [''--fake''] =
    (\<lparr>br_source = FakeSrc (fst (fake_start (fake_onFrame (fake_onStatus new_fake_source)))),
      br_clients = [], br_open = [], br_seen = [], br_lastFrame = None, br_connected = True,
      br_statusDetail = ''fake simulator running (no C2 server needed)'', br_inflight = [],
      br_alive = True\<rparr>, [])"
  by (simp add: main_bridge_def parseArgs_def default_args_def new_bridge_def register_callbacks_def
      start_source_def with_fake_def fake_start_def fake_onStatus_def fake_onFrame_def emit_status_def
        broadcast_def)

text \<open>C12: At every moment of every run of the bridge, with either source, every browser whose
  socket is open has last been told exactly what the bridge knows: the last status it was sent
  is the current one and the last frame it was sent is the cached one (or none was sent and none
  is cached), whenever it connected and whatever else was sent in between.\<close>

theorem open_clients_in_sync:
  assumes "ws \<in> set (br_open (fst (bridge_session argv evs)))"
  shows "last_of is_status (sent_to ws (snd (bridge_session argv evs))) =
      Some (status_msg (fst (bridge_session argv evs))) \<and>
    last_of is_swarm (sent_to ws (snd (bridge_session argv evs))) =
      map_option SwarmMsg (br_lastFrame (fst (bridge_session argv evs)))"
  using in_sync_session[of argv evs] assms by (simp add: in_sync_def told_def)

theorem open_clients_in_sync_witness:
  "last_of is_status (sent_to 7 (snd (bridge_session [''--fake''] [Connect 7]))) =
     Some (StatusMsg True Fake ''fake simulator running (no C2 server needed)'')"
proof -
  note start = fake_bridge_starts
  have "7 \<in> set (br_open (fst (bridge_session [''--fake''] [Connect 7])))"
    by (simp add: bridge_session_def start bridge_step.simps on_connection_def Let_def)
  from open_clients_in_sync[OF this] show ?thesis
    by (simp add: bridge_session_def start bridge_step.simps on_connection_def Let_def status_msg_def)
qed

text \<open>C13: Every command that reaches the bridge is acknowledged exactly once, to the socket it came
  from, or is still in flight to the server, with one exception that the code has: a command to the
  server whose targets are no array is acknowledged a second time, as rejected and without an id,
  when the call returns without an error, because the line that logs the first acknowledgement
  throws. As multisets, the sockets that asked and the sockets that are answered again are the
  sockets that were acknowledged and the sockets that are waiting; no other socket sees an answer;
  and in a session without such commands nothing is answered again.\<close>

theorem commands_acknowledged:
  "mset (all_asked (fst (main_bridge argv)) evs) + mset (map fst (all_again (fst (main_bridge argv)) evs)) =
     mset (map fst (acks (snd (bridge_session argv evs)))) +
     mset (map fst (br_inflight (fst (bridge_session argv evs)))) \<and>
   set (all_again (fst (main_bridge argv)) evs) \<subseteq> set (acks (snd (bridge_session argv evs))) \<and>
   fst ` set (all_again (fst (main_bridge argv)) evs) \<subseteq> {ws. \<exists>now e i. Message now ws (JsonUnjoinable e i) \<in> set evs}"
proof -
  have "unjoinable_in (fst (main_bridge argv)) = {}" by (simp add: unjoinable_in_def main_no_ack)
  with all_again_unjoinable[of "fst (main_bridge argv)" evs]
  have "fst ` set (all_again (fst (main_bridge argv)) evs) \<subseteq> unjoinable_sent evs" by simp
  moreover have "set (all_again (fst (main_bridge argv)) evs) \<subseteq> set (acks (snd (bridge_session argv evs)))"
    using all_again_acked[of "fst (main_bridge argv)" evs] by (auto simp: bridge_session_def split_beta)
  ultimately show ?thesis
    using run_account[of "fst (main_bridge argv)" evs] main_no_ack[of argv]
    by (simp add: bridge_session_def split_beta unjoinable_sent_def)
qed

text \<open>The exception happens: a command without targets that the server accepts is acknowledged as
  accepted and then as rejected.\<close>

theorem accepted_command_rejected_too:
  assumes "br_alive b" "ws \<in> set (br_clients b)" "br_source b = GrpcSrc g"
  shows "snd (run bridge_step b
      [Message now ws (JsonUnjoinable e i), Reply (length (br_inflight b)) None \<lparr>ac_command_id = c, ac_accepted = True, ac_detail = d\<rparr>]) =
    map Transport (snd (grpc_sendCommand now g i)) @ [WsSend ws (AckMsg c True d), WsSend ws (AckMsg '''' False e)]"
  using assms
  by (simp add: bridge_step.simps submit_command_def split_beta grpc_send_output on_reply_def grpc_settle_def
      after_ack_def ack_msg_def)

theorem accepted_command_rejected_too_witness:
  "\<exists>os. snd (run bridge_step (fst (on_connection (new_bridge default_args) 1))
      [Message 0 1 (JsonUnjoinable ''e'' \<lparr>in_command_id = Some ''c'', in_targets = [], in_params = no_params\<rparr>),
       Reply 0 None \<lparr>ac_command_id = ''c'', ac_accepted = True, ac_detail = ''ok''\<rparr>]) =
    os @ [WsSend 1 (AckMsg ''c'' True ''ok''), WsSend 1 (AckMsg '''' False ''e'')]"
proof -
  let ?b = "fst (on_connection (new_bridge default_args) 1)"
  have b: "br_alive ?b" "1 \<in> set (br_clients ?b)" "br_inflight ?b = []"
    by (simp_all add: on_connection_def new_bridge_def Let_def)
  have "\<exists>g. br_source ?b = GrpcSrc g"
    by (simp add: on_connection_def new_bridge_def Let_def default_args_def)
  then obtain g where "br_source ?b = GrpcSrc g" ..
  from accepted_command_rejected_too[OF b(1,2) this] b(3) show ?thesis by auto
qed

text \<open>Text that is not JSON and JSON of any other type leave the bridge as it was, and
  nothing is sent.\<close>

theorem malformed_messages_ignored:
  assumes "raw = NotJson \<or> raw = JsonOther"
  shows "bridge_step b (Message now ws raw) = (b, [])"
  using assms by (auto simp: bridge_step.simps)

theorem malformed_messages_ignored_witness:
  "bridge_step (new_bridge default_args) (Message 0 1 NotJson) = (new_bridge default_args, [])"
  by (rule malformed_messages_ignored) simp

text \<open>A browser that sends the four characters \<open>null\<close> takes the gateway down for everybody:
  \<open>JSON.parse\<close> succeeds, \<open>msg.type\<close> throws outside the \<open>try\<close>, and whatever happens
  afterwards no client is ever sent anything again.\<close>

theorem null_message_kills_the_gateway:
  assumes "br_alive b" "ws \<in> set (br_clients b)"
  shows "snd (run bridge_step b (Message now ws JsonNull # evs)) = [Crash]"
proof -
  have "snd (run bridge_step b' evs) = []" if "\<not> br_alive b'" for b'
    using that by (induction evs) (simp_all add: bridge_step.simps)
  with assms show ?thesis by (simp add: bridge_step.simps split_beta)
qed

theorem null_message_kills_the_gateway_witness:
  "snd (run bridge_step (fst (on_connection (new_bridge default_args) 1)) [Message 0 1 JsonNull, Connect 2]) = [Crash]"
proof -
  let ?b = "fst (on_connection (new_bridge default_args) 1)"
  have "br_alive ?b" "1 \<in> set (br_clients ?b)"
    by (simp_all add: on_connection_def new_bridge_def Let_def)
  then show ?thesis by (rule null_message_kills_the_gateway)
qed

text \<open>The command line: flags may come in any order and the last value of an option wins;
  words that are not flags change nothing. Appending a complete option to any line of words
  without flags sets exactly that field.\<close>

theorem parseArgs_options:
  assumes "list_all (\<lambda>a. a \<notin> {''--fake'', ''--target'', ''--port''}) ws"
  shows "parseArgs (ws @ [''--target'', t, ''--port'', p]) =
      default_args\<lparr>ag_target := Some t, ag_port := js_Number p\<rparr> \<and>
    parseArgs (ws @ [''--port'', p, ''--target'', t]) =
      default_args\<lparr>ag_target := Some t, ag_port := js_Number p\<rparr> \<and>
    parseArgs (ws @ [''--fake'']) = default_args\<lparr>ag_fake := True\<rparr> \<and>
    parseArgs ws = default_args"
proof -
  have skip: "parse_from args (ws @ rest) = parse_from args rest" for args rest
    using assms
  proof (induction ws)
    case Nil
    then show ?case by simp
  next
    case (Cons a ws)
    then show ?case by (cases "ws @ rest") simp_all
  qed
  from skip[of default_args "[]"] have "parse_from default_args ws = default_args" by simp
  then show ?thesis by (simp add: parseArgs_def skip)
qed

theorem parseArgs_options_witness:
  "ag_port (parseArgs [''verbose'', ''--target'', ''h:1'', ''--port'', ''42'']) = Fin 42"
proof -
  have "list_all (\<lambda>a. a \<notin> {''--fake'', ''--target'', ''--port''}) [''verbose'']" by simp
  from parseArgs_options[OF this, of "''h:1''" "''42''"] show ?thesis
    by (simp add: js_Number_def trim_def is_space_def read_signed_def read_unsigned_def is_digit_def
        digits_value_def digit_val_def of_literal_def)
qed

end
