(* ===== verification/Json.thy ===== *)
theory Json
  imports JsNum
begin

text \<open>
  JSON as the two programs exchange it. A JavaScript value that is built to be sent is a \<open>json\<close>
  whose \<open>undefined\<close> properties are absent and whose numbers may still be infinite or NaN;
  \<open>wire\<close> is what \<open>JSON.stringify\<close> followed by \<open>JSON.parse\<close> makes of it: non-finite numbers
  become \<open>null\<close> and everything else is kept. A decoder reads a value back at a type of
  \<open>types.ts\<close> and fails when it does not have that shape. The locale \<open>codec\<close> is the contract of
  an encoder and a decoder: what is encoded, sent and decoded is what it was.
\<close>

section \<open>Values\<close>

datatype json =
    JNull
  | JBool bool
  | JNum jsnum
  | JStr string
  | JArr "json list"
  | JObj "(string \<times> json) list"

fun wire :: "json \<Rightarrow> json" where
  "wire (JNum n) = (if is_finite n then JNum n else JNull)"
| "wire (JArr xs) = JArr (map wire xs)"
| "wire (JObj fs) = JObj (map (\<lambda>(k, v). (k, wire v)) fs)"
| "wire v = v"

text \<open>Reading a property: \<open>undefined\<close> is \<open>None\<close>, also on a value that is not an object.\<close>

fun prop_of :: "string \<Rightarrow> json \<Rightarrow> json option" where
  "prop_of k (JObj fs) = map_of fs k"
| "prop_of k _ = None"

lemma prop_wire [simp]: "prop_of k (wire v) = map_option wire (prop_of k v)"
proof (cases v)
  case (JObj fs)
  then show ?thesis by (induction fs arbitrary: v) auto
qed (simp_all split: if_splits)

text \<open>Sending twice is sending once.\<close>

lemma wire_idem: "wire (wire v) = wire v"
  by (induction v) (auto simp: comp_def)

section \<open>Decoders of the base types\<close>

fun dec_bool :: "json \<Rightarrow> bool option" where
  "dec_bool (JBool b) = Some b"
| "dec_bool _ = None"

fun dec_str :: "json \<Rightarrow> string option" where
  "dec_str (JStr s) = Some s"
| "dec_str _ = None"

fun dec_num :: "json \<Rightarrow> jsnum option" where
  "dec_num (JNum n) = Some n"
| "dec_num _ = None"

fun dec_int :: "json \<Rightarrow> int option" where
  "dec_int (JNum (Fin r)) = (if r \<in> \<int> then Some \<lfloor>r\<rfloor> else None)"
| "dec_int _ = None"

definition dec_nat :: "json \<Rightarrow> nat option" where
  "dec_nat v = (case dec_int v of None \<Rightarrow> None | Some k \<Rightarrow> if 0 \<le> k then Some (nat k) else None)"

definition enc_int :: "int \<Rightarrow> json" where
  "enc_int k = JNum (Fin (of_int k))"

definition enc_nat :: "nat \<Rightarrow> json" where
  "enc_nat n = JNum (Fin (of_nat n))"

text \<open>A property that must be there, one that may be absent, and an array of values.\<close>

definition field :: "string \<Rightarrow> (json \<Rightarrow> 'a option) \<Rightarrow> json \<Rightarrow> 'a option" where
  "field k dec v = Option.bind (prop_of k v) dec"

definition opt_field :: "string \<Rightarrow> (json \<Rightarrow> 'a option) \<Rightarrow> json \<Rightarrow> 'a option option" where
  "opt_field k dec v = (case prop_of k v of None \<Rightarrow> Some None | Some w \<Rightarrow> map_option Some (dec w))"

definition put_opt :: "string \<Rightarrow> ('a \<Rightarrow> json) \<Rightarrow> 'a option \<Rightarrow> (string \<times> json) list" where
  "put_opt k enc v = (case v of None \<Rightarrow> [] | Some x \<Rightarrow> [(k, enc x)])"

fun dec_all :: "(json \<Rightarrow> 'a option) \<Rightarrow> json list \<Rightarrow> 'a list option" where
  "dec_all dec [] = Some []"
| "dec_all dec (v # vs) = Option.bind (dec v) (\<lambda>x. map_option (\<lambda>xs. x # xs) (dec_all dec vs))"

fun dec_list :: "(json \<Rightarrow> 'a option) \<Rightarrow> json \<Rightarrow> 'a list option" where
  "dec_list dec (JArr vs) = dec_all dec vs"
| "dec_list dec _ = None"

definition enc_list :: "('a \<Rightarrow> json) \<Rightarrow> 'a list \<Rightarrow> json" where
  "enc_list enc xs = JArr (map enc xs)"

section \<open>The contract\<close>

locale codec =
  fixes ok :: "'a \<Rightarrow> bool"
    and enc :: "'a \<Rightarrow> json"
    and dec :: "json \<Rightarrow> 'a option"
  assumes round_trip: "ok x \<Longrightarrow> dec (wire (enc x)) = Some x"
begin

lemma round_trip_list: "list_all ok xs \<Longrightarrow> dec_list dec (wire (enc_list enc xs)) = Some xs"
proof -
  have "list_all ok xs \<Longrightarrow> dec_all dec (map (wire \<circ> enc) xs) = Some xs"
    by (induction xs) (simp_all add: round_trip)
  then show "list_all ok xs \<Longrightarrow> ?thesis" by (simp add: enc_list_def)
qed

lemma round_trip_field:
  "ok x \<Longrightarrow> prop_of k v = Some (wire (enc x)) \<Longrightarrow> field k dec v = Some x"
  by (simp add: field_def round_trip)

lemma enc_inj: "ok x \<Longrightarrow> ok y \<Longrightarrow> wire (enc x) = wire (enc y) \<Longrightarrow> x = y"
  using round_trip[of x] round_trip[of y] by (metis option.inject)

end

text \<open>A codec is exact when its side condition is also necessary: what does not meet it is not
  readable at the type once it has been sent.\<close>

locale exact_codec = codec ok enc dec
  for ok :: "'a \<Rightarrow> bool"
    and enc :: "'a \<Rightarrow> json"
    and dec :: "json \<Rightarrow> 'a option" +
  assumes rejects: "\<not> ok x \<Longrightarrow> dec (wire (enc x)) = None"
begin

lemma exact: "dec (wire (enc x)) = (if ok x then Some x else None)"
  by (simp add: round_trip rejects)

lemma exact_list:
  "dec_list dec (wire (enc_list enc xs)) = (if list_all ok xs then Some xs else None)"
proof -
  have "dec_all dec (map (wire \<circ> enc) xs) = (if list_all ok xs then Some xs else None)"
    by (induction xs) (simp_all add: exact)
  then show ?thesis by (simp add: enc_list_def)
qed

end

text \<open>A codec without a side condition is exact.\<close>

lemma total_codec_exact: "codec (\<lambda>_. True) enc dec \<Longrightarrow> exact_codec (\<lambda>_. True) enc dec"
  by (simp add: exact_codec_def exact_codec_axioms_def)

interpretation str_codec: codec "\<lambda>_. True" JStr dec_str
  by unfold_locales simp

interpretation bool_codec: codec "\<lambda>_. True" JBool dec_bool
  by unfold_locales simp

interpretation num_codec: exact_codec is_finite JNum dec_num
  by unfold_locales simp_all

interpretation int_codec: codec "\<lambda>_. True" enc_int dec_int
  by unfold_locales (simp add: enc_int_def)

interpretation nat_codec: codec "\<lambda>_. True" enc_nat dec_nat
proof unfold_locales
  fix n :: nat
  have "(of_nat n :: real) \<in> \<int>" by simp
  then show "dec_nat (wire (enc_nat n)) = Some n"
    by (simp add: enc_nat_def dec_nat_def)
qed

lemmas base_codecs =
  str_codec.round_trip bool_codec.round_trip num_codec.exact
  int_codec.round_trip nat_codec.round_trip

end
