(* ===== verification/Codec.thy ===== *)
theory Codec
  imports WireTypes Json
begin

text \<open>
  The WebSocket messages as JSON. An encoder builds the object that the sender hands to
  \<open>JSON.stringify\<close> (\<open>bridge/src/types.ts\<close>, the literals in \<open>bridge/src/index.ts\<close> and
  \<open>web/src/useSwarm.ts\<close>), with an absent property where the value is \<open>undefined\<close>; a decoder reads a
  parsed message at the shape that \<open>web/src/types.ts\<close> declares, and fails when the declaration
  is not met. Each pair is an interpretation of \<open>codec\<close>, whose side condition is that every
  number of the value is finite.
\<close>

section \<open>Enumerations\<close>

fun dec_enum :: "('a \<Rightarrow> string) \<Rightarrow> 'a list \<Rightarrow> json \<Rightarrow> 'a option" where
  "dec_enum str vals (JStr s) = find (\<lambda>v. str v = s) vals"
| "dec_enum str vals _ = None"

lemma dec_enum_round:
  assumes "x \<in> set vals" "inj_on str (set vals)"
  shows "dec_enum str vals (JStr (str x)) = Some x"
proof -
  have "find (\<lambda>v. str v = str x) vals \<noteq> None" using assms(1) by (auto simp: find_None_iff)
  then obtain y where y: "find (\<lambda>v. str v = str x) vals = Some y" by blast
  with find_Some_set[OF y] assms show ?thesis by (auto dest: inj_onD)
qed

definition enc_link :: "link_status \<Rightarrow> json" where
  "enc_link s = JStr (link_str s)"

definition dec_link :: "json \<Rightarrow> link_status option" where
  "dec_link = dec_enum link_str [LINK_STATUS_UNSPECIFIED, LINK_LIVE, LINK_STALE, LINK_LOST]"

definition enc_cmd :: "command_state \<Rightarrow> json" where
  "enc_cmd s = JStr (cmd_str s)"

definition dec_cmd :: "json \<Rightarrow> command_state option" where
  "dec_cmd = dec_enum cmd_str [CMD_STATE_UNSPECIFIED, CMD_PENDING, CMD_SENT, CMD_APPLIED, CMD_REJECTED,
     CMD_EXPIRED, CMD_ROBOT_OFFLINE]"

definition enc_kind :: "source_kind \<Rightarrow> json" where
  "enc_kind k = JStr (kind_str k)"

definition dec_kind :: "json \<Rightarrow> source_kind option" where
  "dec_kind = dec_enum kind_str [Grpc, Fake]"

interpretation link_codec: codec "\<lambda>_. True" enc_link dec_link
proof unfold_locales
  fix x
  have "x \<in> set [LINK_STATUS_UNSPECIFIED, LINK_LIVE, LINK_STALE, LINK_LOST]" by (cases x) simp_all
  from dec_enum_round[OF this, of link_str] show "dec_link (wire (enc_link x)) = Some x"
    by (simp add: enc_link_def dec_link_def inj_on_def del: dec_enum.simps)
qed

interpretation cmd_codec: codec "\<lambda>_. True" enc_cmd dec_cmd
proof unfold_locales
  fix x
  have "x \<in> set [CMD_STATE_UNSPECIFIED, CMD_PENDING, CMD_SENT, CMD_APPLIED, CMD_REJECTED, CMD_EXPIRED,
    CMD_ROBOT_OFFLINE]" by (cases x) simp_all
  from dec_enum_round[OF this, of cmd_str] show "dec_cmd (wire (enc_cmd x)) = Some x"
    by (simp add: enc_cmd_def dec_cmd_def inj_on_def del: dec_enum.simps)
qed

interpretation kind_codec: codec "\<lambda>_. True" enc_kind dec_kind
proof unfold_locales
  fix x :: source_kind
  show "dec_kind (wire (enc_kind x)) = Some x" by (cases x) (simp_all add: enc_kind_def dec_kind_def)
qed

section \<open>Frames\<close>

definition enc_timestamp :: "timestamp \<Rightarrow> json" where
  "enc_timestamp t = JObj [(''seconds'', enc_int (seconds t)), (''nanos'', enc_int (nanos t))]"

definition dec_timestamp :: "json \<Rightarrow> timestamp option" where
  "dec_timestamp v =
     Option.bind (field ''seconds'' dec_int v) (\<lambda>s.
     Option.bind (field ''nanos'' dec_int v) (\<lambda>n.
     Some \<lparr>seconds = s, nanos = n\<rparr>))"

definition enc_telemetry :: "telemetry \<Rightarrow> json" where
  "enc_telemetry t = JObj
     ([(''robot_id'', JStr (tl_robot_id t)), (''seq'', enc_nat (tl_seq t))] @
      put_opt ''timestamp'' enc_timestamp (tl_timestamp t) @
      [(''x'', JNum (tl_x t)), (''y'', JNum (tl_y t)), (''heading'', JNum (tl_heading t)),
       (''speed'', JNum (tl_speed t)), (''radius'', JNum (tl_radius t))])"

definition dec_telemetry :: "json \<Rightarrow> telemetry option" where
  "dec_telemetry v =
     Option.bind (field ''robot_id'' dec_str v) (\<lambda>i.
     Option.bind (field ''seq'' dec_nat v) (\<lambda>q.
     Option.bind (opt_field ''timestamp'' dec_timestamp v) (\<lambda>ts.
     Option.bind (field ''x'' dec_num v) (\<lambda>x.
     Option.bind (field ''y'' dec_num v) (\<lambda>y.
     Option.bind (field ''heading'' dec_num v) (\<lambda>h.
     Option.bind (field ''speed'' dec_num v) (\<lambda>sp.
     Option.bind (field ''radius'' dec_num v) (\<lambda>rad.
     Some \<lparr>tl_robot_id = i, tl_seq = q, tl_timestamp = ts, tl_x = x, tl_y = y, tl_heading = h,
           tl_speed = sp, tl_radius = rad\<rparr>))))))))"

definition enc_robot :: "robot_state \<Rightarrow> json" where
  "enc_robot r = JObj
     [(''telemetry'', enc_telemetry (rb_telemetry r)), (''link_status'', enc_link (rb_link_status r)),
      (''age_ms'', enc_int (rb_age_ms r))]"

definition dec_robot :: "json \<Rightarrow> robot_state option" where
  "dec_robot v =
     Option.bind (field ''telemetry'' dec_telemetry v) (\<lambda>t.
     Option.bind (field ''link_status'' dec_link v) (\<lambda>l.
     Option.bind (field ''age_ms'' dec_int v) (\<lambda>a.
     Some \<lparr>rb_telemetry = t, rb_link_status = l, rb_age_ms = a\<rparr>)))"

definition enc_target :: "target_status \<Rightarrow> json" where
  "enc_target t = JObj
     [(''robot_id'', JStr (tg_robot_id t)), (''state'', enc_cmd (tg_state t)), (''detail'', JStr (tg_detail t))]"

definition dec_target :: "json \<Rightarrow> target_status option" where
  "dec_target v =
     Option.bind (field ''robot_id'' dec_str v) (\<lambda>i.
     Option.bind (field ''state'' dec_cmd v) (\<lambda>s.
     Option.bind (field ''detail'' dec_str v) (\<lambda>d.
     Some \<lparr>tg_robot_id = i, tg_state = s, tg_detail = d\<rparr>)))"

definition enc_command_status :: "command_status \<Rightarrow> json" where
  "enc_command_status c = JObj
     [(''command_id'', JStr (cs_command_id c)), (''targets'', enc_list enc_target (cs_targets c))]"

definition dec_command_status :: "json \<Rightarrow> command_status option" where
  "dec_command_status v =
     Option.bind (field ''command_id'' dec_str v) (\<lambda>i.
     Option.bind (field ''targets'' (dec_list dec_target) v) (\<lambda>ts.
     Some \<lparr>cs_command_id = i, cs_targets = ts\<rparr>))"

definition enc_swarm_state :: "swarm_state \<Rightarrow> json" where
  "enc_swarm_state s = JObj
     ([(''seq'', enc_nat (sw_seq s))] @ put_opt ''server_time'' enc_timestamp (sw_server_time s) @
      [(''robots'', enc_list enc_robot (sw_robots s)),
       (''commands'', enc_list enc_command_status (sw_commands s))])"

definition dec_swarm_state :: "json \<Rightarrow> swarm_state option" where
  "dec_swarm_state v =
     Option.bind (field ''seq'' dec_nat v) (\<lambda>q.
     Option.bind (opt_field ''server_time'' dec_timestamp v) (\<lambda>ts.
     Option.bind (field ''robots'' (dec_list dec_robot) v) (\<lambda>rs.
     Option.bind (field ''commands'' (dec_list dec_command_status) v) (\<lambda>cs.
     Some \<lparr>sw_seq = q, sw_server_time = ts, sw_robots = rs, sw_commands = cs\<rparr>))))"

section \<open>Envelopes\<close>

fun enc_server_message :: "server_message \<Rightarrow> json" where
  "enc_server_message (SwarmMsg s) = JObj [(''type'', JStr ''swarm''), (''state'', enc_swarm_state s)]"
| "enc_server_message (StatusMsg conn source detail) = JObj
     [(''type'', JStr ''status''), (''connected'', JBool conn), (''source'', enc_kind source),
      (''detail'', JStr detail)]"
| "enc_server_message (AckMsg command_id acc detail) = JObj
     [(''type'', JStr ''ack''), (''command_id'', JStr command_id), (''accepted'', JBool acc),
      (''detail'', JStr detail)]"

definition dec_server_message :: "json \<Rightarrow> server_message option" where
  "dec_server_message v =
     (if prop_of ''type'' v = Some (JStr ''swarm'')
      then map_option SwarmMsg (field ''state'' dec_swarm_state v)
      else if prop_of ''type'' v = Some (JStr ''status'') then
        Option.bind (field ''connected'' dec_bool v) (\<lambda>c.
        Option.bind (field ''source'' dec_kind v) (\<lambda>k.
        Option.bind (field ''detail'' dec_str v) (\<lambda>d. Some (StatusMsg c k d))))
      else if prop_of ''type'' v = Some (JStr ''ack'') then
        Option.bind (field ''command_id'' dec_str v) (\<lambda>i.
        Option.bind (field ''accepted'' dec_bool v) (\<lambda>a.
        Option.bind (field ''detail'' dec_str v) (\<lambda>d. Some (AckMsg i a d))))
      else None)"

definition enc_params :: "params \<Rightarrow> json" where
  "enc_params p = JObj
     (put_opt ''speed'' JNum (pr_speed p) @ put_opt ''radius'' JNum (pr_radius p) @
      put_opt ''center_x'' JNum (pr_center_x p) @ put_opt ''center_y'' JNum (pr_center_y p) @
      put_opt ''theta'' JNum (pr_theta p))"

definition enc_intent :: "command_intent \<Rightarrow> json" where
  "enc_intent i = JObj
     (put_opt ''command_id'' JStr (in_command_id i) @
      [(''targets'', enc_list JStr (in_targets i)), (''params'', enc_params (in_params i))])"

fun enc_client_message :: "client_message \<Rightarrow> json" where
  "enc_client_message (CommandMsg i) = JObj [(''type'', JStr ''command''), (''intent'', enc_intent i)]"

section \<open>Round trips\<close>

definition telemetry_ok :: "telemetry \<Rightarrow> bool" where
  "telemetry_ok t \<longleftrightarrow> list_all is_finite [tl_x t, tl_y t, tl_heading t, tl_speed t, tl_radius t]"

definition robot_ok_wire :: "robot_state \<Rightarrow> bool" where
  "robot_ok_wire r \<longleftrightarrow> telemetry_ok (rb_telemetry r)"

definition swarm_ok :: "swarm_state \<Rightarrow> bool" where
  "swarm_ok s \<longleftrightarrow> list_all robot_ok_wire (sw_robots s)"

fun message_ok :: "server_message \<Rightarrow> bool" where
  "message_ok (SwarmMsg s) = swarm_ok s"
| "message_ok _ = True"

lemmas codec_simps = field_def opt_field_def put_opt_def

interpretation timestamp_codec: codec "\<lambda>_. True" enc_timestamp dec_timestamp
  by unfold_locales
    (simp add: enc_timestamp_def dec_timestamp_def codec_simps base_codecs)

text \<open>The properties of a telemetry object, and a field of an object that was sent.\<close>

lemma telemetry_props:
  "map (\<lambda>k. prop_of k (enc_telemetry t)) [''robot_id'', ''seq'', ''timestamp'', ''x'', ''y'', ''heading'', ''speed'', ''radius''] =
     [Some (JStr (tl_robot_id t)), Some (enc_nat (tl_seq t)), map_option enc_timestamp (tl_timestamp t),
      Some (JNum (tl_x t)), Some (JNum (tl_y t)), Some (JNum (tl_heading t)), Some (JNum (tl_speed t)),
      Some (JNum (tl_radius t))]"
  by (simp add: enc_telemetry_def put_opt_def split: option.split)

lemma field_wire: "prop_of k v = Some w \<Longrightarrow> field k dec (wire v) = dec (wire w)"
  by (simp add: field_def)

lemma opt_field_wire:
  "prop_of k v = map_option enc x \<Longrightarrow> (\<And>y. dec (wire (enc y)) = Some y) \<Longrightarrow>
     opt_field k dec (wire v) = Some x"
  by (simp add: opt_field_def split: option.split)

interpretation telemetry_codec: exact_codec telemetry_ok enc_telemetry dec_telemetry
proof unfold_locales
  fix t
  let ?v = "wire (enc_telemetry t)"
  note props = telemetry_props[of t, simplified list.map list.inject]
  have fields: "field ''x'' dec_num ?v = (if is_finite (tl_x t) then Some (tl_x t) else None)"
    "field ''y'' dec_num ?v = (if is_finite (tl_y t) then Some (tl_y t) else None)"
    "field ''heading'' dec_num ?v = (if is_finite (tl_heading t) then Some (tl_heading t) else None)"
    "field ''speed'' dec_num ?v = (if is_finite (tl_speed t) then Some (tl_speed t) else None)"
    "field ''radius'' dec_num ?v = (if is_finite (tl_radius t) then Some (tl_radius t) else None)"
    by (simp_all only: field_wire props num_codec.exact)
  have rest: "field ''robot_id'' dec_str ?v = Some (tl_robot_id t)" "field ''seq'' dec_nat ?v = Some (tl_seq t)"
    by (simp_all only: field_wire props base_codecs)
  have ts: "opt_field ''timestamp'' dec_timestamp ?v = Some (tl_timestamp t)"
    using props timestamp_codec.round_trip by (intro opt_field_wire[where enc = enc_timestamp]) simp_all
  show "telemetry_ok t \<Longrightarrow> dec_telemetry ?v = Some t"
    by (simp add: dec_telemetry_def fields rest ts telemetry_ok_def)
  show "\<not> telemetry_ok t \<Longrightarrow> dec_telemetry ?v = None"
    by (auto simp: dec_telemetry_def fields rest ts telemetry_ok_def)
qed

interpretation robot_codec: exact_codec robot_ok_wire enc_robot dec_robot
  by unfold_locales
    (simp_all add: enc_robot_def dec_robot_def codec_simps base_codecs telemetry_codec.exact
      link_codec.round_trip robot_ok_wire_def)

interpretation target_codec: codec "\<lambda>_. True" enc_target dec_target
  by unfold_locales
    (simp add: enc_target_def dec_target_def codec_simps base_codecs cmd_codec.round_trip)

interpretation command_codec: codec "\<lambda>_. True" enc_command_status dec_command_status
  by unfold_locales
    (simp add: enc_command_status_def dec_command_status_def codec_simps base_codecs
      target_codec.round_trip_list list.pred_True)

interpretation swarm_codec: exact_codec swarm_ok enc_swarm_state dec_swarm_state
  by unfold_locales
    (simp_all add: enc_swarm_state_def dec_swarm_state_def codec_simps base_codecs
      timestamp_codec.round_trip robot_codec.exact_list command_codec.round_trip_list
      list.pred_True swarm_ok_def split: option.split)

interpretation message_codec: exact_codec message_ok enc_server_message dec_server_message
proof unfold_locales
  fix m
  show "message_ok m \<Longrightarrow> dec_server_message (wire (enc_server_message m)) = Some m"
    "\<not> message_ok m \<Longrightarrow> dec_server_message (wire (enc_server_message m)) = None"
    by (cases m; simp add: dec_server_message_def codec_simps base_codecs kind_codec.round_trip
        swarm_codec.exact)+
qed

section \<open>Properties\<close>


end
