(* ===== verification/Gateway.thy ===== *)
theory Gateway
  imports Bridge Codec
begin

text \<open>
  The socket handler of \<open>bridge/src/index.ts\<close> from the JSON value on: how an arbitrary parsed
  message is read (\<open>msg.type\<close>, \<open>msg.intent\<close>, and the properties of the intent that
  \<open>sendCommand\<close> of either source touches), and which JSON leaves the process. \<open>JSON.parse\<close> has
  run: \<open>None\<close> is text that is not JSON. Two violations of \<open>types.ts\<close> are outside the model, and
  \<open>classify\<close> is then \<open>None\<close>: a command id that is neither \<open>null\<close> nor a string, and an array of targets
  with an element that is not a string (\<open>mistyped\<close> below; \<open>classified\<close> says that there are no others).
\<close>

section \<open>Reading a message\<close>

text \<open>\<open>undefined\<close> and \<open>null\<close>: the two values that \<open>??\<close> replaces and that have no properties.\<close>

fun nullish :: "json option \<Rightarrow> string option" where
  "nullish None = Some ''undefined''"
| "nullish (Some JNull) = Some ''null''"
| "nullish (Some _) = None"

definition cannot_read :: "string \<Rightarrow> string \<Rightarrow> string" where
  "cannot_read v k = ''Cannot read properties of '' @ v @ '' (reading '' @ [CHR 0x27] @ k @ [CHR 0x27] @ '')''"

text \<open>\<open>intent.command_id ?? ...\<close>: a string is kept, nothing or \<open>null\<close> has an id minted.\<close>

definition read_id :: "json \<Rightarrow> string option option" where
  "read_id intent =
     (if nullish (prop_of ''command_id'' intent) \<noteq> None then Some None
      else map_option Some (field ''command_id'' dec_str intent))"

text \<open>A parameter is used when \<open>typeof\<close> says it is a number.\<close>

definition read_num :: "string \<Rightarrow> json \<Rightarrow> jsnum option" where
  "read_num k v = Option.bind (prop_of k v) dec_num"

definition read_params :: "json option \<Rightarrow> params" where
  "read_params p = (case p of
     None \<Rightarrow> no_params
   | Some v \<Rightarrow> \<lparr>pr_speed = read_num ''speed'' v, pr_radius = read_num ''radius'' v,
                pr_center_x = read_num ''center_x'' v, pr_center_y = read_num ''center_y'' v,
                pr_theta = read_num ''theta'' v\<rparr>)"

definition read_command :: "string option \<Rightarrow> json \<Rightarrow> raw_message option" where
  "read_command i intent =
     map_option (\<lambda>ts. JsonCommand
         \<lparr>in_command_id = i, in_targets = ts, in_params = read_params (prop_of ''params'' intent)\<rparr>)
       (field ''targets'' (dec_list dec_str) intent)"

text \<open>\<open>FakeSource.sendCommand\<close> maps over the targets and keeps the parameters for later.\<close>

definition read_fake :: "string option \<Rightarrow> json \<Rightarrow> raw_message option" where
  "read_fake i intent =
     (case nullish (prop_of ''targets'' intent) of
        Some v \<Rightarrow> Some (JsonBadCommand (i = None) (cannot_read v ''map''))
      | None \<Rightarrow>
          (case prop_of ''targets'' intent of
             Some (JArr _) \<Rightarrow> read_command i intent
           | _ \<Rightarrow> Some (JsonBadCommand (i = None) ''intent.targets.map is not a function'')))"

text \<open>\<open>GrpcSource.sendCommand\<close> looks at the parameters, and passes the targets to the protocol library
  as they are. Without any the library fills in the empty list, as for every repeated field that is
  missing; the call with another value that is no array is the library's to refuse or to make, and
  its answer is a \<open>Reply\<close> like every other. In both cases \<open>join\<close> throws once the call has been made.\<close>

definition read_untargeted :: "string option \<Rightarrow> json \<Rightarrow> string \<Rightarrow> raw_message" where
  "read_untargeted i intent err = JsonUnjoinable err
     \<lparr>in_command_id = i, in_targets = [], in_params = read_params (prop_of ''params'' intent)\<rparr>"

definition read_grpc :: "string option \<Rightarrow> json \<Rightarrow> raw_message option" where
  "read_grpc i intent =
     (case nullish (prop_of ''params'' intent) of
        Some _ \<Rightarrow> Some (JsonBadCommand (i = None) ''Cannot convert undefined or null to object'')
      | None \<Rightarrow>
          (case nullish (prop_of ''targets'' intent) of
             Some v \<Rightarrow> Some (read_untargeted i intent (cannot_read v ''join''))
           | None \<Rightarrow>
               (case prop_of ''targets'' intent of
                  Some (JArr _) \<Rightarrow> read_command i intent
                | _ \<Rightarrow> Some (read_untargeted i intent ''msg.intent.targets.join is not a function''))))"

definition read_intent :: "source_kind \<Rightarrow> json option \<Rightarrow> raw_message option" where
  "read_intent kind intent =
     (case nullish intent of
        Some v \<Rightarrow> Some (JsonBadCommand False (cannot_read v ''command_id''))
      | None \<Rightarrow> Option.bind (read_id (the intent)) (\<lambda>i.
          (case kind of Fake \<Rightarrow> read_fake i (the intent) | Grpc \<Rightarrow> read_grpc i (the intent))))"

definition classify :: "source_kind \<Rightarrow> json option \<Rightarrow> raw_message option" where
  "classify kind msg =
     (case msg of
        None \<Rightarrow> Some NotJson
      | Some JNull \<Rightarrow> Some JsonNull
      | Some v \<Rightarrow>
          if prop_of ''type'' v = Some (JStr ''command'') then read_intent kind (prop_of ''intent'' v)
          else Some JsonOther)"

definition on_text :: "nat \<Rightarrow> bridge \<Rightarrow> nat \<Rightarrow> json option \<Rightarrow> (bridge \<times> bridge_out list) option" where
  "on_text now b ws msg =
     map_option (on_message now b ws) (classify (source_kind_of (br_source b)) msg)"

text \<open>The exceptions a malformed intent can raise.\<close>

definition intent_errors :: "string list" where
  "intent_errors =
     [cannot_read ''undefined'' ''command_id'', cannot_read ''null'' ''command_id'',
      cannot_read ''undefined'' ''map'', cannot_read ''null'' ''map'',
      ''intent.targets.map is not a function'', ''Cannot convert undefined or null to object'']"

lemma nullish_words: "nullish v = Some w \<Longrightarrow> w = ''undefined'' \<or> w = ''null''"
  by (cases v rule: nullish.cases) auto

lemma read_command_cases: "read_command c v = Some raw \<Longrightarrow> \<exists>i. raw = JsonCommand i"
  by (auto simp: read_command_def)

lemma read_grpc_cases:
  "read_grpc c v = Some raw \<Longrightarrow> (\<exists>i. raw = JsonCommand i) \<or> (\<exists>e i. raw = JsonUnjoinable e i) \<or>
     raw = JsonBadCommand (c = None) ''Cannot convert undefined or null to object''"
  by (auto simp: read_grpc_def read_untargeted_def split: option.splits json.splits dest: read_command_cases)

lemma read_intent_cases:
  assumes "read_intent kind v = Some raw"
  shows "(\<exists>i. raw = JsonCommand i) \<or> (\<exists>e i. raw = JsonUnjoinable e i) \<or>
    (\<exists>minted err. raw = JsonBadCommand minted err \<and> err \<in> set intent_errors)"
proof (cases "nullish v")
  case None
  with assms obtain c where "read_fake c (the v) = Some raw \<or> read_grpc c (the v) = Some raw"
    by (cases kind) (auto simp: read_intent_def bind_eq_Some_conv)
  then show ?thesis
  proof
    assume "read_fake c (the v) = Some raw"
    then show ?thesis
      by (auto simp: read_fake_def intent_errors_def split: option.splits json.splits
          dest!: nullish_words read_command_cases)
  next
    assume "read_grpc c (the v) = Some raw"
    from read_grpc_cases[OF this] show ?thesis by (auto simp: intent_errors_def)
  qed
next
  case (Some w)
  with assms show ?thesis
    by (auto simp: read_intent_def intent_errors_def dest!: nullish_words)
qed

lemma classify_cases:
  assumes "classify kind msg = Some raw"
  shows "raw = JsonNull \<longleftrightarrow> msg = Some JNull"
    and "raw = JsonBadCommand minted err \<Longrightarrow> err \<in> set intent_errors"
  using assms read_intent_cases
  by (fastforce simp: classify_def split: option.splits json.splits if_splits)+

section \<open>Which messages are read\<close>

text \<open>The two violations of \<open>types.ts\<close> that the model leaves out.\<close>

definition mistyped :: "json option \<Rightarrow> bool" where
  "mistyped msg \<longleftrightarrow>
     (case Option.bind msg (prop_of ''intent'') of
        None \<Rightarrow> False
      | Some w \<Rightarrow>
          (case prop_of ''command_id'' w of
             Some x \<Rightarrow> x \<noteq> JNull \<and> dec_str x = None | None \<Rightarrow> False) \<or>
          (case prop_of ''targets'' w of
             Some (JArr xs) \<Rightarrow> dec_all dec_str xs = None | _ \<Rightarrow> False))"

lemma read_id_total:
  "case prop_of ''command_id'' w of Some x \<Rightarrow> x = JNull \<or> dec_str x \<noteq> None | None \<Rightarrow> True \<Longrightarrow> \<exists>i. read_id w = Some i"
  by (auto simp: read_id_def field_def split: option.splits)

lemma read_command_total:
  "prop_of ''targets'' w = Some (JArr xs) \<Longrightarrow> dec_all dec_str xs \<noteq> None \<Longrightarrow> \<exists>raw. read_command i w = Some raw"
  by (auto simp: read_command_def field_def)

lemma classified:
  assumes "\<not> mistyped msg"
  shows "\<exists>raw. classify kind msg = Some raw"
proof -
  have "\<exists>raw. read_intent kind (prop_of ''intent'' v) = Some raw" if v: "msg = Some v" for v
  proof (cases "nullish (prop_of ''intent'' v)")
    case (Some u)
    then show ?thesis by (simp add: read_intent_def)
  next
    case None
    then obtain w where w: "prop_of ''intent'' v = Some w" by (cases "prop_of ''intent'' v") auto
    with assms v have ok: "case prop_of ''command_id'' w of Some x \<Rightarrow> x = JNull \<or> dec_str x \<noteq> None | None \<Rightarrow> True"
      "\<And>xs. prop_of ''targets'' w = Some (JArr xs) \<Longrightarrow> dec_all dec_str xs \<noteq> None"
      by (auto simp: mistyped_def split: option.splits json.splits)
    from read_id_total[OF ok(1)] obtain i where i: "read_id w = Some i" ..
    have "\<exists>raw. read_fake i w = Some raw" "\<exists>raw. read_grpc i w = Some raw"
      using read_command_total[OF _ ok(2)]
      by (auto simp: read_fake_def read_grpc_def split: option.split json.split)
    with i w None show ?thesis by (cases kind) (simp_all add: read_intent_def)
  qed
  then show ?thesis by (auto simp: classify_def split: option.split json.split)
qed

section \<open>What the web client sends\<close>

text \<open>\<open>JSON.stringify\<close> turns a parameter that is not finite into \<open>null\<close>, which neither source
  takes for a number.\<close>

definition finite_opt :: "jsnum option \<Rightarrow> jsnum option" where
  "finite_opt v = (case v of Some n \<Rightarrow> if is_finite n then Some n else None | None \<Rightarrow> None)"

definition finite_params :: "params \<Rightarrow> params" where
  "finite_params p =
     \<lparr>pr_speed = finite_opt (pr_speed p), pr_radius = finite_opt (pr_radius p),
      pr_center_x = finite_opt (pr_center_x p), pr_center_y = finite_opt (pr_center_y p),
      pr_theta = finite_opt (pr_theta p)\<rparr>"

definition finite_intent :: "command_intent \<Rightarrow> command_intent" where
  "finite_intent i = i\<lparr>in_params := finite_params (in_params i)\<rparr>"

lemma params_props:
  "map (\<lambda>k. prop_of k (enc_params p)) [''speed'', ''radius'', ''center_x'', ''center_y'', ''theta''] =
     [map_option JNum (pr_speed p), map_option JNum (pr_radius p), map_option JNum (pr_center_x p),
      map_option JNum (pr_center_y p), map_option JNum (pr_theta p)]"
  by (simp add: enc_params_def put_opt_def split: option.split)

lemma read_num_wire: "prop_of k v = map_option JNum n \<Longrightarrow> read_num k (wire v) = finite_opt n"
  by (simp add: read_num_def finite_opt_def split: option.split)

lemma read_params_wire: "read_params (Some (wire (enc_params p))) = finite_params p"
  using params_props[of p, simplified list.map list.inject]
  by (simp add: read_params_def finite_params_def read_num_wire)

lemma intent_props:
  "prop_of ''command_id'' (enc_intent i) = map_option JStr (in_command_id i)"
  "prop_of ''targets'' (enc_intent i) = Some (enc_list JStr (in_targets i))"
  "prop_of ''params'' (enc_intent i) = Some (enc_params (in_params i))"
  by (simp_all add: enc_intent_def put_opt_def split: option.split)

lemma read_id_wire: "read_id (wire (enc_intent i)) = Some (in_command_id i)"
  by (cases "in_command_id i") (simp_all add: read_id_def intent_props field_def)

lemma targets_wire: "field ''targets'' (dec_list dec_str) (wire (enc_intent i)) = Some (in_targets i)"
  by (simp add: field_wire intent_props str_codec.round_trip_list list.pred_True)

lemma read_command_wire:
  "read_command c (wire (enc_intent i)) = Some (JsonCommand (finite_intent i\<lparr>in_command_id := c\<rparr>))"
  by (simp add: read_command_def targets_wire intent_props read_params_wire finite_intent_def)

lemma finite_intent_id [simp]: "finite_intent i\<lparr>in_command_id := in_command_id i\<rparr> = finite_intent i"
  by (simp add: finite_intent_def)

lemma finite_intent_same: "finite_intent i = i \<longleftrightarrow> finite_params (in_params i) = in_params i"
  by (cases i) (simp add: finite_intent_def)

lemma nullish_params: "nullish (Some (wire (enc_params p))) = None"
  by (simp add: enc_params_def)

lemma read_intent_wire:
  "read_intent kind (Some (wire (enc_intent i))) = Some (JsonCommand (finite_intent i))"
proof -
  have "nullish (Some (wire (enc_intent i))) = None" by (simp add: enc_intent_def)
  then show ?thesis
    by (cases kind)
      (simp_all add: read_intent_def read_id_wire read_fake_def read_grpc_def read_command_wire
        intent_props nullish_params enc_list_def)
qed

lemma client_text_read:
  "on_text now b ws (Some (wire (enc_client_message (CommandMsg i)))) =
     Some (on_command now b ws (finite_intent i))"
  by (simp add: on_text_def classify_def read_intent_wire)

section \<open>Frames of the simulator are finite\<close>

text \<open>As far as exact arithmetic goes: with doubles a finite speed over a tiny radius is infinite.\<close>

lemma finite_opt_same: "finite_opt v = v \<longleftrightarrow> pred_option is_finite v"
  by (simp add: finite_opt_def split: option.split)

lemma finite_params_same: "finite_params p = p \<longleftrightarrow> params_finite p"
  by (cases p) (simp add: finite_params_def params_finite_def finite_opt_same)

lemma finite_params_finite: "params_finite (finite_params p)"
  by (simp add: finite_params_def params_finite_def finite_opt_def split: option.split)

lemma params_finite_none [simp]: "params_finite no_params"
  by (simp add: params_finite_def no_params_def)

definition target_finite :: "target_progress \<Rightarrow> bool" where
  "target_finite t \<longleftrightarrow> pred_option params_finite (tp_pending t)"

definition command_finite :: "fake_command \<Rightarrow> bool" where
  "command_finite c \<longleftrightarrow> list_all target_finite (fc_targets c)"

definition fake_finite :: "fake_source \<Rightarrow> bool" where
  "fake_finite s \<longleftrightarrow> list_all robot_finite (fs_robots s) \<and> list_all command_finite (fs_commands s)"

lemma robots_finite_apply:
  "list_all robot_finite rs \<Longrightarrow> params_finite p \<Longrightarrow> list_all robot_finite (applyParams e rs i p)"
  unfolding applyParams_def by (rule list_all_update_first) (auto intro: robot_finite_apply)

interpretation finite_targets:
  guarded_machine "advance_target e" "list_all robot_finite" target_finite target_finite for e
  by unfold_locales
    (auto simp: advance_target_def Let_def target_finite_def split: option.split
      intro!: robots_finite_apply)

interpretation finite_commands:
  guarded_machine "advance_command e" "list_all robot_finite" command_finite command_finite for e
proof unfold_locales
  fix rs c
  assume "list_all robot_finite rs" "command_finite c"
  from finite_targets.run_keeps[OF this(1) this(2)[unfolded command_finite_def]]
  show "list_all robot_finite (fst (advance_command e rs c)) \<and>
      list_all command_finite (snd (advance_command e rs c))"
    by (simp add: advance_command_def split_beta command_finite_def settle_def)
qed

lemma fake_finite_advance: "fake_finite s \<Longrightarrow> fake_finite (advanceCommands s)"
  using finite_commands.run_keeps[of "fs_robots s" "fs_commands s" "fs_elapsed s"]
  by (auto simp: fake_finite_def advanceCommands_def split_beta list_all_iff)

lemma robot_frame_ok: "robot_finite r \<Longrightarrow> robot_ok_wire (fake_robotState e n r)"
proof -
  assume fin: "robot_finite r"
  then have om: "is_finite (fr_V r / fr_R r * Fin t + fr_theta0 r)" for t
    by (simp add: robot_finite_def finite_div)
  from fin have "robot_ok_wire \<lparr>rb_telemetry =
      \<lparr>tl_robot_id = i, tl_seq = n, tl_timestamp = None, tl_x = fr_cx r + fr_R r * js_cos phi,
       tl_y = fr_cy r + fr_R r * js_sin phi, tl_heading = phi + Fin (pi / 2), tl_speed = fr_V r,
       tl_radius = fr_R r\<rparr>, rb_link_status = l, rb_age_ms = a\<rparr>" if "is_finite phi" for i phi l a
    using that by (auto simp: robot_finite_def robot_ok_wire_def telemetry_ok_def is_finite_iff)
  note ok = this
  have "is_finite (fr_theta0 r)" using fin by (simp add: robot_finite_def)
  with ok om show ?thesis
    by (simp add: fake_robotState_def Let_def split: prod.split)
qed

fun source_typed :: "source_out \<Rightarrow> bool" where
  "source_typed (EmitFrame f) = swarm_ok f"
| "source_typed (EmitStatus _ _) = True"

fun out_typed :: "bridge_out \<Rightarrow> bool" where
  "out_typed (WsSend _ m) = message_ok m"
| "out_typed _ = True"

fun finite_raw :: "raw_message \<Rightarrow> bool" where
  "finite_raw (JsonCommand i) = params_finite (in_params i)"
| "finite_raw (JsonUnjoinable _ i) = params_finite (in_params i)"
| "finite_raw _ = True"

fun finite_event :: "bridge_event \<Rightarrow> bool" where
  "finite_event (Message _ _ raw) = finite_raw raw"
| "finite_event _ = True"

lemma fake_finite_tick:
  assumes "fake_finite s"
  shows "fake_finite (fst (tick s)) \<and> list_all source_typed (snd (tick s))"
proof -
  have s1: "fake_finite (advanceCommands (s\<lparr>fs_elapsed := fs_elapsed s + DT\<rparr>))"
    using assms by (intro fake_finite_advance) (simp add: fake_finite_def)
  then have "list_all robot_ok_wire (map (fake_robotState e n) (fs_robots (advanceCommands (s\<lparr>fs_elapsed := fs_elapsed s + DT\<rparr>))))" for e n
    by (auto simp: fake_finite_def list_all_iff robot_frame_ok)
  with s1 show ?thesis
    by (simp add: tick_def Let_def emit_frame_def swarm_ok_def fake_finite_def)
qed

lemma fake_finite_send:
  "fake_finite s \<Longrightarrow> params_finite (in_params i) \<Longrightarrow> fake_finite (fst (fake_sendCommand s i))"
  by (auto simp: fake_finite_def fake_sendCommand_def split_beta Let_def command_finite_def list_all_iff
      target_finite_def fake_target_def split: option.split)

definition bridge_finite :: "bridge \<Rightarrow> bool" where
  "bridge_finite b \<longleftrightarrow> pred_option swarm_ok (br_lastFrame b) \<and>
     (case br_source b of FakeSrc s \<Rightarrow> fake_finite s | GrpcSrc _ \<Rightarrow> False)"

interpretation typed_callbacks: guarded_machine on_source bridge_finite source_typed out_typed
proof unfold_locales
  fix b out
  assume "bridge_finite b" "source_typed out"
  then show "bridge_finite (fst (on_source b out)) \<and> list_all out_typed (snd (on_source b out))"
    by (cases out) (simp_all add: bridge_finite_def Let_def broadcast_def list_all_iff status_msg_def)
qed

lemma typed_with_fake:
  "bridge_finite b \<Longrightarrow> fake_finite (fst r) \<and> list_all source_typed (snd r) \<Longrightarrow>
     bridge_finite (fst (with_fake b r)) \<and> list_all out_typed (snd (with_fake b r))"
  unfolding with_fake_def by (rule typed_callbacks.run_keeps) (simp_all add: bridge_finite_def)

lemma ack_typed [simp]: "message_ok (ack_msg r)"
  by (simp add: ack_msg_def split: sum.split)

lemma reply_typed [simp]: "list_all out_typed (snd (on_reply b k e a))"
  by (cases "k < length (br_inflight b)"; cases "br_inflight b ! k")
    (simp_all add: on_reply_eq on_reply_idle list.pred_map list.pred_True comp_def)

lemma typed_message:
  assumes "bridge_finite b" "finite_raw raw"
  shows "bridge_finite (fst (on_message now b ws raw)) \<and> list_all out_typed (snd (on_message now b ws raw))"
proof -
  from assms(1) obtain s where s: "br_source b = FakeSrc s" "fake_finite s"
    by (auto simp: bridge_finite_def split: bridge_source.splits)
  show ?thesis
    using assms s
    by (cases raw)
      (auto simp: bridge_finite_def mint_id_def issue_fake_id_def split_beta command_defs
        fake_finite_send[unfolded fake_finite_def] fake_finite_def)
qed

lemma typed_step:
  assumes fin: "bridge_finite b" and ev: "finite_event ev"
  shows "bridge_finite (fst (bridge_step b ev)) \<and> list_all out_typed (snd (bridge_step b ev))"
proof (cases "br_alive b")
  case True
  from fin obtain s where s: "br_source b = FakeSrc s" "fake_finite s"
    by (auto simp: bridge_finite_def split: bridge_source.splits)
  show ?thesis
  proof (cases ev)
    case FakeTick
    have "fake_finite (fst (fake_step s FakeTimer)) \<and> list_all source_typed (snd (fake_step s FakeTimer))"
      using fake_finite_tick[OF s(2)] s(2) by simp
    from typed_with_fake[OF fin this] show ?thesis
      by (simp add: FakeTick bridge_step.simps True s(1) del: fake_step.simps)
  next
    case (Message now ws raw)
    from typed_message[OF fin, of raw now ws] ev fin show ?thesis
      by (simp add: Message bridge_step.simps True del: on_message.simps)
  next
    case (Connect ws)
    from fin show ?thesis
      by (auto simp: Connect bridge_step.simps True on_connection_def Let_def bridge_finite_def
          status_msg_def split: option.split)
  next
    case Signal
    have "fake_finite (fake_stop s)"
      using s(2) by (simp add: fake_finite_def fake_stop_def split: option.split)
    with typed_with_fake[OF fin, of "(fake_stop s, [])"] show ?thesis
      by (auto simp: Signal bridge_step.simps True shutdown_def s(1) split_beta bridge_finite_def)
  qed (use fin True s in \<open>simp_all add: bridge_step.simps bridge_finite_def on_ws_close_def\<close>)
qed (use fin in \<open>simp add: bridge_step.simps\<close>)

interpretation typed_bridge: guarded_machine bridge_step bridge_finite finite_event out_typed
  by unfold_locales (rule typed_step)

lemma new_fake_finite: "fake_finite new_fake_source"
  by (simp add: fake_finite_def new_fake_source_def fake_robot_of_def robot_finite_def)

lemma typed_start:
  assumes "ag_fake (parseArgs argv)"
  shows "bridge_finite (fst (main_bridge argv)) \<and> list_all out_typed (snd (main_bridge argv))"
proof -
  let ?s = "fake_onFrame (fake_onStatus new_fake_source)"
  have s: "fake_finite ?s"
    using new_fake_finite by (simp add: fake_finite_def fake_onFrame_def fake_onStatus_def)
  have "fake_finite (fst (fake_start ?s)) \<and> list_all source_typed (snd (fake_start ?s))"
    using s by (simp add: fake_start_def fake_finite_def emit_status_def)
  from typed_with_fake[OF _ this, of "register_callbacks (new_bridge (parseArgs argv))"] s assms
  show ?thesis
    by (simp add: main_bridge_def start_source_def register_callbacks_def new_bridge_def bridge_finite_def)
qed

lemma typed_session:
  assumes "ag_fake (parseArgs argv)" "list_all finite_event evs"
  shows "bridge_finite (fst (bridge_session argv evs)) \<and> list_all out_typed (snd (bridge_session argv evs))"
  using typed_start[OF assms(1)] typed_bridge.run_keeps[OF _ assms(2), of "fst (main_bridge argv)"]
  by (simp add: bridge_session_def split_beta)

lemma typed_sent: "list_all out_typed os \<Longrightarrow> m \<in> set (sent_to ws os) \<Longrightarrow> message_ok m"
proof -
  have "m \<in> set (sent_out ws out) \<Longrightarrow> out_typed out \<Longrightarrow> message_ok m" for out
    by (cases out) (auto split: if_splits)
  then show "list_all out_typed os \<Longrightarrow> m \<in> set (sent_to ws os) \<Longrightarrow> message_ok m"
    by (auto simp: sent_to_def list_all_iff)
qed

section \<open>The simulator under the bridge\<close>

text \<open>While the process lives its simulator is running, and every tick of it reaches the open
  sockets as one frame.\<close>

definition sim_running :: "bridge \<Rightarrow> bool" where
  "sim_running b \<longleftrightarrow> (case br_source b of
     FakeSrc s \<Rightarrow> fs_frameCb s \<and> (br_alive b \<longrightarrow> fs_live_timers s \<noteq> []) | GrpcSrc _ \<Rightarrow> True)"

lemma run_source_fields [simp]:
  "br_source (fst (run on_source b outs)) = br_source b"
  "br_alive (fst (run on_source b outs)) = br_alive b"
  "br_open (fst (run on_source b outs)) = br_open b"
  "br_clients (fst (run on_source b outs)) = br_clients b"
proof -
  have "br_source (fst (on_source b out)) = br_source b \<and> br_alive (fst (on_source b out)) = br_alive b \<and>
      br_open (fst (on_source b out)) = br_open b \<and> br_clients (fst (on_source b out)) = br_clients b" for b out
    by (cases out) (simp_all add: Let_def)
  then show "br_source (fst (run on_source b outs)) = br_source b"
    "br_alive (fst (run on_source b outs)) = br_alive b"
    "br_open (fst (run on_source b outs)) = br_open b"
    "br_clients (fst (run on_source b outs)) = br_clients b"
    by (induction outs arbitrary: b) (simp_all add: split_beta)
qed

lemma with_fake_fields [simp]:
  "br_source (fst (with_fake b r)) = FakeSrc (fst r)"
  "br_alive (fst (with_fake b r)) = br_alive b"
  "br_open (fst (with_fake b r)) = br_open b"
  "br_clients (fst (with_fake b r)) = br_clients b"
  by (simp_all add: with_fake_def)

lemma grpc_stays: "br_source b = GrpcSrc s \<Longrightarrow> \<exists>s'. br_source (fst (with_grpc b r)) = GrpcSrc s'"
proof -
  have "br_source (fst (on_grpc_out b out)) = br_source b" for b out
  proof (cases out)
    case (Callback c)
    then show ?thesis by (cases c) (simp_all add: Let_def)
  qed simp_all
  then have "br_source (fst (run on_grpc_out b outs)) = br_source b" for b outs
    by (induction outs arbitrary: b) (simp_all add: split_beta)
  then show ?thesis by (simp add: with_grpc_def)
qed

lemma fake_sendCommand_host [simp]:
  "fs_frameCb (fst (fake_sendCommand s i)) = fs_frameCb s"
  "fs_live_timers (fst (fake_sendCommand s i)) = fs_live_timers s"
  by (simp_all add: fake_sendCommand_def issue_fake_id_def split_beta split: option.split)

lemma running_step: "sim_running b \<Longrightarrow> sim_running (fst (bridge_step b ev))"
proof (cases "br_source b")
  case (GrpcSrc s)
  have message: "\<exists>s'. br_source (fst (on_message now b ws raw)) = GrpcSrc s'" for now ws raw
    using GrpcSrc by (cases raw) (simp_all add: mint_id_def split_beta command_defs)
  have "\<exists>s'. br_source (fst (bridge_step b ev)) = GrpcSrc s'"
    using grpc_stays[OF GrpcSrc] GrpcSrc message
    by (cases ev)
      (auto simp: bridge_step.simps on_connection_def Let_def on_ws_close_def shutdown_def split_beta
        simp del: on_message.simps)
  then show ?thesis by (auto simp: sim_running_def)
next
  case (FakeSrc s)
  assume run: "sim_running b"
  show ?thesis
  proof (cases ev)
    case (Message now ws raw)
    with run FakeSrc show ?thesis
      by (cases raw) (auto simp: bridge_step.simps sim_running_def mint_id_def issue_fake_id_def split_beta command_defs)
  qed (use run FakeSrc in \<open>auto simp: bridge_step.simps sim_running_def on_connection_def Let_def
      on_ws_close_def shutdown_def split_beta fake_stop_def split: option.split\<close>)
qed

interpretation running_bridge: io_machine bridge_step sim_running "\<lambda>_. True"
  by unfold_locales (simp_all add: running_step list_all_iff)

lemma running_session: "sim_running (fst (bridge_session argv evs))"
proof -
  let ?b = "register_callbacks (new_bridge (parseArgs argv))"
  have "sim_running (fst (main_bridge argv))"
  proof (cases "br_source ?b")
    case (GrpcSrc s)
    from grpc_stays[OF this, of "grpc_start s"] GrpcSrc show ?thesis
      by (auto simp: main_bridge_def start_source_def sim_running_def)
  next
    case (FakeSrc s)
    then have "fs_frameCb s"
      by (auto simp: register_callbacks_def new_bridge_def fake_onFrame_def split: if_splits)
    with FakeSrc show ?thesis
      by (simp add: main_bridge_def start_source_def sim_running_def fake_start_def)
  qed
  then show ?thesis
    by (simp add: bridge_session_def split_beta running_bridge.run_inv)
qed

lemma tick_step:
  assumes "br_alive b" "br_source b = FakeSrc s" "sim_running b" "distinct (br_clients b)"
    "ws \<in> set (br_open b)" "ws \<in> set (br_clients b)"
  shows "br_source (fst (bridge_step b FakeTick)) = FakeSrc (fst (tick s)) \<and>
    (\<exists>f. frames_emitted (snd (tick s)) = [f] \<and> sent_to ws (snd (bridge_step b FakeTick)) = [SwarmMsg f])"
proof -
  have live: "fs_frameCb s" "fs_live_timers s \<noteq> []" using assms(1-3) by (auto simp: sim_running_def)
  then obtain f where f: "snd (tick s) = [EmitFrame f]" by (simp add: tick_def Let_def emit_frame_def)
  have "bridge_step b FakeTick = with_fake b (tick s)"
    using assms(1,2) live(2) by (simp add: bridge_step.simps)
  then show ?thesis
    using f assms(4-6)
    by (simp add: with_fake_def split_beta Let_def sent_to_broadcast frames_emitted_def)
qed

lemma ticks_run:
  assumes "br_alive b" "br_source b = FakeSrc s" "sim_running b" "distinct (br_clients b)"
    "ws \<in> set (br_open b)" "ws \<in> set (br_clients b)"
  shows "let bk = fst (run bridge_step b (replicate k FakeTick))
    in br_alive bk \<and> br_source bk = FakeSrc (((\<lambda>s. fst (tick s)) ^^ k) s) \<and> sim_running bk \<and>
       br_clients bk = br_clients b \<and> br_open bk = br_open b"
  unfolding Let_def
proof (induction k)
  case 0
  with assms show ?case by simp
next
  case (Suc k)
  let ?b = "fst (run bridge_step b (replicate k FakeTick))"
  have step: "run bridge_step b (replicate (Suc k) FakeTick) =
      (fst (bridge_step ?b FakeTick),
       snd (run bridge_step b (replicate k FakeTick)) @ snd (bridge_step ?b FakeTick))"
    using run_append[of bridge_step b "replicate k FakeTick" "[FakeTick]"]
    by (simp add: replicate_append_same[symmetric] split_beta)
  have "br_source (fst (bridge_step ?b FakeTick)) = FakeSrc (fst (tick (((\<lambda>s. fst (tick s)) ^^ k) s)))"
    using tick_step[of ?b _ ws] Suc assms(4-6) by simp
  moreover have "br_alive (fst (bridge_step c FakeTick)) \<and> br_clients (fst (bridge_step c FakeTick)) = br_clients c \<and>
      br_open (fst (bridge_step c FakeTick)) = br_open c" if "br_alive c" "br_source c = FakeSrc u" for c u
    using that by (simp add: bridge_step.simps)
  note this[of ?b]
  ultimately show ?case using Suc running_step[of ?b FakeTick] by (simp only: step fst_conv) simp
qed

section \<open>Properties\<close>

text \<open>C16: What the web client sends is what the bridge runs: a command put through
  \<open>JSON.stringify\<close>, \<open>JSON.parse\<close> and the bridge's handler is executed with its id, its targets
  and its finite parameters; a parameter that is not finite is lost on the way (it becomes
  \<open>null\<close>), which is a difference only to the simulator, since the command the server gets is
  the one it would have got anyway.\<close>

theorem command_survives_json:
  "on_text now b ws (Some (wire (enc_client_message (CommandMsg i)))) =
      Some (on_command now b ws (finite_intent i)) \<and>
   (finite_intent i = i \<longleftrightarrow> params_finite (in_params i)) \<and>
   grpc_sendCommand now g (finite_intent i) = grpc_sendCommand now g i"
proof -
  have same: "finite_intent i = i \<longleftrightarrow> params_finite (in_params i)"
    by (simp add: finite_intent_same finite_params_same)
  have "cleanParams (param_entries (finite_params p)) = cleanParams (param_entries p)" for p
  proof -
    have step: "cleanParams ((k, js_opt v) # es) = (case finite_opt v of None \<Rightarrow> [] | Some n \<Rightarrow> [(k, n)]) @ cleanParams es"
      for k v es by (simp add: finite_opt_def split: option.split)
    have idem: "finite_opt (finite_opt v) = finite_opt v" for v
      by (simp add: finite_opt_def split: option.split)
    show ?thesis by (simp only: param_entries_def finite_params_def params.simps step idem)
  qed
  then have "grpc_sendCommand now g (finite_intent i) = grpc_sendCommand now g i"
    by (simp add: grpc_sendCommand_def finite_intent_def)
  with same client_text_read[of now b ws i] show ?thesis by blast
qed

text \<open>C40: Of all the texts a socket can deliver, only the JSON value \<open>null\<close> ends the gateway: text
  that is not JSON, values of any other shape and commands with missing, \<open>null\<close> or misshapen
  intents, targets or parameters leave it running, with either source. Not covered are the commands
  whose id is neither \<open>null\<close> nor a string, and those whose targets are an array with an element
  that is not a string (\<open>mistyped\<close>): of these the model says nothing.\<close>

theorem only_null_kills:
  assumes "\<not> mistyped msg"
  shows "\<exists>b' os. on_text now b ws msg = Some (b', os) \<and>
    (br_alive b' \<longleftrightarrow> br_alive b \<and> msg \<noteq> Some JNull) \<and> (Crash \<in> set os \<longleftrightarrow> msg = Some JNull)"
proof -
  from classified[OF assms] obtain raw where raw: "classify (source_kind_of (br_source b)) msg = Some raw" by blast
  obtain b' os where out: "(b', os) = on_message now b ws raw" by (metis surj_pair)
  from classify_cases(1)[OF raw] have "raw = JsonNull \<longleftrightarrow> msg = Some JNull" .
  with out have "(br_alive b' \<longleftrightarrow> br_alive b \<and> msg \<noteq> Some JNull) \<and> (Crash \<in> set os \<longleftrightarrow> msg = Some JNull)"
    by (cases raw; cases "br_source b") (auto simp: split_beta grpc_send_output command_defs)
  moreover have "on_text now b ws msg = Some (b', os)" using raw out by (simp add: on_text_def)
  ultimately show ?thesis by blast
qed

theorem only_null_kills_witness:
  "\<exists>b' os. on_text 0 (new_bridge default_args) 1 (Some (JObj [(''type'', JStr ''command''), (''intent'', JObj [(''params'', JObj [])])])) =
     Some (b', os) \<and> br_alive b' \<and> Crash \<notin> set os"
proof -
  have "\<not> mistyped (Some (JObj [(''type'', JStr ''command''), (''intent'', JObj [(''params'', JObj [])])]))"
    by (simp add: mistyped_def)
  from only_null_kills[OF this, of 0 "new_bridge default_args" 1] show ?thesis
    by (auto simp: new_bridge_def)
qed

text \<open>A command whose intent makes \<open>sendCommand\<close> throw is answered to its sender alone, with
  \<open>accepted: false\<close>, an empty command id (so that the browser cannot tell which command it was)
  and the text of the exception; nothing is submitted to the simulator or to the server, and all
  that may have changed is the counter that ids are minted from.\<close>

theorem malformed_command_not_submitted:
  assumes "classify (source_kind_of (br_source b)) msg = Some (JsonBadCommand minted err)"
  shows "on_text now b ws msg = Some (if minted then mint_id now b else b, [WsSend ws (AckMsg '''' False err)]) \<and>
    (mint_id now b)\<lparr>br_source := br_source b\<rparr> = b \<and>
    (case (br_source b, br_source (mint_id now b)) of
       (FakeSrc s, FakeSrc s') \<Rightarrow> s' = s\<lparr>fs_commandSeq := Suc (fs_commandSeq s)\<rparr>
     | (GrpcSrc s, GrpcSrc s') \<Rightarrow> s' = s\<lparr>gs_commandSeq := Suc (gs_commandSeq s)\<rparr>
     | _ \<Rightarrow> False) \<and>
    err \<in> set intent_errors"
  using assms classify_cases(2)[OF assms refl]
  by (cases "br_source b") (simp_all add: on_text_def ack_msg_def mint_id_def
      issue_fake_id_def issue_grpc_id_def)

theorem malformed_command_not_submitted_witness:
  "on_text 0 (new_bridge default_args) 1
      (Some (JObj [(''type'', JStr ''command''), (''intent'', JObj [(''targets'', JArr [])])])) =
    Some (mint_id 0 (new_bridge default_args),
      [WsSend 1 (AckMsg '''' False ''Cannot convert undefined or null to object'')])"
proof -
  have "source_kind_of (br_source (new_bridge default_args)) = Grpc"
    by (simp add: new_bridge_def default_args_def)
  then have "classify (source_kind_of (br_source (new_bridge default_args)))
      (Some (JObj [(''type'', JStr ''command''), (''intent'', JObj [(''targets'', JArr [])])])) =
    Some (JsonBadCommand True ''Cannot convert undefined or null to object'')"
    by (simp add: classify_def read_intent_def read_id_def read_grpc_def)
  from malformed_command_not_submitted[OF this, of 0 1] show ?thesis by simp
qed

text \<open>Commands that came out of \<open>JSON.stringify\<close> have finite parameters, whoever sent them.\<close>

lemma read_num_finite: "pred_option is_finite (read_num k (wire v))"
proof -
  have "dec_num (wire w) = Some n \<Longrightarrow> is_finite n" for w n
    by (cases w) (auto split: if_splits)
  then show ?thesis by (cases "prop_of k v") (auto simp: read_num_def option.pred_set)
qed

lemma stringified_is_finite: "classify kind (Some (wire v)) = Some raw \<Longrightarrow> finite_raw raw"
proof -
  have params: "params_finite (read_params (map_option wire p))" for p
    by (cases p) (simp_all add: read_params_def params_finite_def read_num_finite no_params_def)
  have cmd: "read_command c (wire w) = Some raw \<Longrightarrow> finite_raw raw" for c w raw
    by (auto simp: read_command_def params)
  have "read_intent kind (map_option wire w) = Some raw \<Longrightarrow> finite_raw raw" for w raw
    using cmd by (cases w; cases kind)
      (auto simp: read_intent_def read_fake_def read_grpc_def read_untargeted_def params bind_eq_Some_conv
        split: option.splits json.splits)
  moreover have "classify kind (Some w) = Some raw \<Longrightarrow>
      finite_raw raw \<or> read_intent kind (prop_of ''intent'' w) = Some raw" for w
    by (cases w) (auto simp: classify_def split: if_splits)
  ultimately show "classify kind (Some (wire v)) = Some raw \<Longrightarrow> finite_raw raw"
    by (metis prop_wire)
qed

text \<open>The text \<open>{"type":"command","intent":{"targets":["R-01"],"params":{"speed":1e999}}}\<close>, whose
  number \<open>JSON.parse\<close> reads as \<open>Infinity\<close>.\<close>

definition overflowing_command :: json where
  "overflowing_command = JObj
     [(''type'', JStr ''command''),
      (''intent'', JObj [(''targets'', JArr [JStr ''R-01'']), (''params'', JObj [(''speed'', JNum PosInf)])])]"

lemma overflow_read:
  "classify Fake (Some overflowing_command) =
     Some (JsonCommand \<lparr>in_command_id = None, in_targets = [''R-01''],
                        in_params = no_params\<lparr>pr_speed := Some PosInf\<rparr>\<rparr>)"
  by (simp add: overflowing_command_def classify_def read_intent_def read_id_def read_fake_def
      read_command_def read_params_def read_num_def field_def no_params_def)

lemma reported_speed [simp]: "tl_speed (rb_telemetry (fake_robotState e q r)) = fr_V r"
  by (simp add: fake_robotState_def Let_def split: prod.split)

lemma tick_reports:
  "f \<in> set (frames_emitted (snd (tick s))) \<Longrightarrow>
     sw_robots f = map (fake_robotState (fs_elapsed s + DT) (fs_seq s))
       (fs_robots (advanceCommands (s\<lparr>fs_elapsed := fs_elapsed s + DT\<rparr>)))"
  by (simp add: tick_def Let_def split: if_splits)

text \<open>After three ticks a lone command to one robot has been applied.\<close>

lemma lone_command_applied:
  assumes "fs_commands s = []" "robotById (fs_robots s) r = Some q" "\<not> fr_frozen q" "in_targets i = [r]"
  defines "s3 \<equiv> fst (tick (fst (tick (fst (fake_sendCommand s i)))))"
  shows "fs_robots (advanceCommands (s3\<lparr>fs_elapsed := fs_elapsed s3 + DT\<rparr>)) =
    applyParams (fs_elapsed s3 + DT) (fs_robots s) r (in_params i)"
  using assms
  by (simp add: fake_sendCommand_def split_beta issue_fake_id_fields fake_target_def tick_def
      advanceCommands_def advance_command_def advance_target_def in_flight_def settle_def RETAIN_TICKS_def Let_def)

text \<open>The simulator accepts a number it cannot report: when a command with the speed \<open>1e999\<close> is
  the only one it has, the robot flies at infinite speed from the third tick on, and the frame
  the bridge then sends carries \<open>null\<close> for numbers and does not read back as a \<open>ServerMessage\<close>.\<close>

theorem overflowing_speed_breaks_frames:
  assumes "robots_ok (fs_robots s)" "fs_commands s = []"
    and "classify Fake (Some overflowing_command) = Some (JsonCommand i)"
    and "f \<in> set (frames_emitted (snd (tick (fst (tick (fst (tick (fst (fake_sendCommand s i)))))))))"
  shows "dec_server_message (wire (enc_server_message (SwarmMsg f))) = None"
proof -
  let ?s3 = "fst (tick (fst (tick (fst (fake_sendCommand s i)))))"
  let ?e = "fs_elapsed ?s3 + DT"
  have i: "in_targets i = [''R-01'']" "pr_speed (in_params i) = Some PosInf"
    using assms(3) by (auto simp: overflow_read)
  have "map fr_id (fs_robots s) = FAKE_IDS"
    using assms(1) by (simp add: robots_ok_def new_fake_ids)
  then have "''R-01'' \<in> set (map fr_id (fs_robots s))" by (simp only: FAKE_IDS_def) simp
  then have "''R-01'' \<in> fr_id ` set (fs_robots s)" by simp
  from robotById_total[OF this] obtain q where
    q: "q \<in> set (fs_robots s)" "robotById (fs_robots s) ''R-01'' = Some q" by blast
  then have "\<not> fr_frozen q"
    using assms(1) by (auto simp: robots_ok_def list_all_iff robot_ok_def)
  note applied = lone_command_applied[OF assms(2) q(2) this i(1)]
  have "apply_to ?e (in_params i) q \<in> set (applyParams ?e (fs_robots s) ''R-01'' (in_params i))"
    using find_update_first[of "\<lambda>x. fr_id x = ''R-01''" "apply_to ?e (in_params i)" "fs_robots s"] q(2)
      find_Some_set by (fastforce simp: applyParams_def robotById_def)
  with tick_reports[OF assms(4)] applied have
    "fake_robotState ?e (fs_seq ?s3) (apply_to ?e (in_params i) q) \<in> set (sw_robots f)" by simp
  moreover have "\<not> robot_ok_wire (fake_robotState ?e (fs_seq ?s3) (apply_to ?e (in_params i) q))"
    by (simp add: robot_ok_wire_def telemetry_ok_def i(2))
  ultimately have "\<not> message_ok (SwarmMsg f)" by (auto simp: swarm_ok_def list_all_iff)
  then show ?thesis by (rule message_codec.rejects)
qed

theorem overflowing_speed_breaks_frames_witness:
  "\<exists>f \<in> set (frames_emitted (snd (tick (fst (tick (fst (tick (fst (fake_sendCommand
      (fake_onFrame new_fake_source)
      \<lparr>in_command_id = None, in_targets = [''R-01''], in_params = no_params\<lparr>pr_speed := Some PosInf\<rparr>\<rparr>))))))))).
    dec_server_message (wire (enc_server_message (SwarmMsg f))) = None"
proof -
  let ?s = "fake_onFrame new_fake_source"
  let ?i = "\<lparr>in_command_id = None, in_targets = [''R-01''], in_params = no_params\<lparr>pr_speed := Some PosInf\<rparr>\<rparr>"
  let ?t = "fst (tick (fst (tick (fst (fake_sendCommand ?s ?i)))))"
  have ok: "robots_ok (fs_robots ?s)" "fs_commands ?s = []"
    using fake_inv_new by (simp_all add: fake_onFrame_def fake_inv_def new_fake_source_def)
  have "fs_frameCb ?t"
    by (simp add: fake_sendCommand_def split_beta issue_fake_id_def fake_onFrame_def)
  then obtain f where f: "f \<in> set (frames_emitted (snd (tick ?t)))"
    by (simp add: tick_def Let_def)
  from overflowing_speed_breaks_frames[OF ok overflow_read f] f show ?thesis by blast
qed

end
