(* ===== verification/Geo.thy ===== *)
theory Geo
  imports JsString
begin

text \<open>
  \<open>web/src/geo.ts\<close>: the planar frame of the robots on the globe, as local East/North offsets
  from the anchor (McMurdo Station), and \<open>web/src/mission.ts\<close>: the mission geometry split by
  role, with the point-in-polygon test of the turf package as a parameter.
\<close>

section \<open>geo.ts\<close>

definition ANCHOR_lat :: real where "ANCHOR_lat = - 77846 / 1000"
definition ANCHOR_lon :: real where "ANCHOR_lon = 166668 / 1000"

definition EARTH_R :: real where "EARTH_R = 6378137"
definition DEG :: real where "DEG = pi / 180"
definition M_PER_DEG_LAT :: real where "M_PER_DEG_LAT = EARTH_R * DEG"
definition M_PER_DEG_LON :: real where "M_PER_DEG_LON = EARTH_R * DEG * cos (ANCHOR_lat * DEG)"

definition metersToLonLat :: "jsnum \<Rightarrow> jsnum \<Rightarrow> jsnum \<times> jsnum" where
  "metersToLonLat x y =
     (Fin ANCHOR_lon + x / Fin M_PER_DEG_LON, Fin ANCHOR_lat + y / Fin M_PER_DEG_LAT)"

lemma M_PER_DEG_LAT_pos: "0 < M_PER_DEG_LAT"
  by (simp add: M_PER_DEG_LAT_def EARTH_R_def DEG_def)

lemma M_PER_DEG_LON_pos: "0 < M_PER_DEG_LON"
proof -
  have "- (pi / 2) < ANCHOR_lat * DEG" "ANCHOR_lat * DEG < pi / 2"
    unfolding ANCHOR_lat_def DEG_def using pi_gt_zero by linarith+
  then have "0 < cos (ANCHOR_lat * DEG)" by (rule cos_gt_zero_pi)
  then show ?thesis by (simp add: M_PER_DEG_LON_def EARTH_R_def DEG_def)
qed

lemma metersToLonLat_Fin:
  "metersToLonLat (Fin x) (Fin y) =
     (Fin (ANCHOR_lon + x / M_PER_DEG_LON), Fin (ANCHOR_lat + y / M_PER_DEG_LAT))"
  using M_PER_DEG_LAT_pos M_PER_DEG_LON_pos by (simp add: metersToLonLat_def)

text \<open>The way back, as a specification.\<close>

definition lonLatToMeters :: "real \<Rightarrow> real \<Rightarrow> real \<times> real" where
  "lonLatToMeters lon lat =
     ((lon - ANCHOR_lon) * M_PER_DEG_LON, (lat - ANCHOR_lat) * M_PER_DEG_LAT)"

lemma metersToLonLat_inj:
  "metersToLonLat (Fin x) (Fin y) = metersToLonLat (Fin x') (Fin y') \<longleftrightarrow> x = x' \<and> y = y'"
  using M_PER_DEG_LAT_pos M_PER_DEG_LON_pos by (simp add: metersToLonLat_Fin)

section \<open>mission.ts\<close>

record 'g feature =
  ft_role :: "string option"
  ft_name :: "string option"
  ft_geometry :: 'g

record 'g mission_fence =
  mf_all :: "'g feature list"
  mf_inputs :: "'g feature list"
  mf_buffers :: "'g feature list"
  mf_union :: "'g feature option"

definition role :: "'g feature list \<Rightarrow> string \<Rightarrow> 'g feature list" where
  "role fc r = filter (\<lambda>f. ft_role f = Some r) fc"

definition fence :: "'g feature list \<Rightarrow> 'g mission_fence" where
  "fence fc =
     \<lparr>mf_all = fc, mf_inputs = role fc ''input'',
      mf_buffers = filter (\<lambda>f. ft_role f = Some ''fence'' \<and> ft_name f \<noteq> Some ''fence'') fc,
      mf_union = find (\<lambda>f. ft_name f = Some ''fence'') fc\<rparr>"

type_synonym 'g point_in_polygon = "jsnum \<times> jsnum \<Rightarrow> 'g feature option \<Rightarrow> bool"

definition insideFence :: "'g point_in_polygon \<Rightarrow> 'g feature list \<Rightarrow> jsnum \<Rightarrow> jsnum \<Rightarrow> bool" where
  "insideFence pip fc lon lat = pip (lon, lat) (mf_union (fence fc))"

definition insideFenceMeters :: "'g point_in_polygon \<Rightarrow> 'g feature list \<Rightarrow> jsnum \<Rightarrow> jsnum \<Rightarrow> bool" where
  "insideFenceMeters pip fc x y = (case metersToLonLat x y of (lon, lat) \<Rightarrow> insideFence pip fc lon lat)"

text \<open>The roles and names of \<open>fixtures/mcmurdo.geojson\<close>, in its order.\<close>

definition mcmurdo :: "unit feature list" where
  "mcmurdo = map (\<lambda>(n, r). \<lparr>ft_role = Some r, ft_name = Some n, ft_geometry = ()\<rparr>)
     [(''launch_point'', ''input''), (''ingress_route'', ''input''),
      (''region_of_interest'', ''input''), (''fence_launch_point'', ''fence''),
      (''fence_ingress_route'', ''fence''), (''fence_region_of_interest'', ''fence''),
      (''fence'', ''fence'')]"

section \<open>Properties\<close>

text \<open>The projection loses nothing: the planar position of a robot can be recovered from
  its longitude and latitude, so two robots share a map point only when they share a position.\<close>

theorem projection_roundtrip:
  "\<exists>lon lat. metersToLonLat (Fin x) (Fin y) = (Fin lon, Fin lat) \<and> lonLatToMeters lon lat = (x, y)"
  using M_PER_DEG_LAT_pos M_PER_DEG_LON_pos
  by (simp add: metersToLonLat_Fin lonLatToMeters_def)

text \<open>Every position within 500 kilometres of the anchor, to the north or the south, keeps a
  latitude inside the band of Web Mercator, which is why the anchor is not the pole.\<close>

theorem near_anchor_in_mercator_band:
  assumes "\<bar>y\<bar> \<le> 500000"
  shows "\<exists>lon lat. metersToLonLat (Fin x) (Fin y) = (Fin lon, Fin lat) \<and> \<bar>lat\<bar> < 850511 / 10000"
proof -
  have "70868 \<le> M_PER_DEG_LAT"
    using pi_ge_two by (simp add: M_PER_DEG_LAT_def EARTH_R_def DEG_def)
  moreover have "\<bar>y / M_PER_DEG_LAT\<bar> \<le> 500000 / 70868"
    unfolding abs_divide using assms calculation by (intro frac_le) auto
  then have "\<bar>ANCHOR_lat + y / M_PER_DEG_LAT\<bar> < 850511 / 10000"
    unfolding ANCHOR_lat_def by linarith
  then show ?thesis by (simp add: metersToLonLat_Fin)
qed

theorem near_anchor_in_mercator_band_witness:
  "\<exists>lon lat. metersToLonLat (Fin 700) (Fin 600) = (Fin lon, Fin lat) \<and> \<bar>lat\<bar> < 850511 / 10000"
  by (rule near_anchor_in_mercator_band) simp

text \<open>The breach test of the alert engine is the point-in-polygon test at the projected
  position of the robot, against the first feature named \<open>fence\<close>; and the shipped fixture has
  that feature, three inputs and three buffers, which together are all of it.\<close>

theorem breach_test_uses_the_union:
  "insideFenceMeters pip fc (Fin x) (Fin y) =
     pip (Fin (ANCHOR_lon + x / M_PER_DEG_LON), Fin (ANCHOR_lat + y / M_PER_DEG_LAT))
       (find (\<lambda>f. ft_name f = Some ''fence'') fc) \<and>
   map ft_name (mf_inputs (fence mcmurdo)) =
     map Some [''launch_point'', ''ingress_route'', ''region_of_interest''] \<and>
   map ft_name (mf_buffers (fence mcmurdo)) =
     map Some [''fence_launch_point'', ''fence_ingress_route'', ''fence_region_of_interest''] \<and>
   mf_union (fence mcmurdo) = Some (last mcmurdo) \<and>
   mf_inputs (fence mcmurdo) @ mf_buffers (fence mcmurdo) @ [last mcmurdo] = mcmurdo"
  by (simp add: insideFenceMeters_def insideFence_def metersToLonLat_Fin fence_def role_def mcmurdo_def)

end
