(* ===== verification/Fixtures.thy ===== *)
theory Fixtures
  imports Geo FakeSource
begin

text \<open>
  \<open>web/scripts/generate_fixtures.mjs\<close>: the generator of the two mission fixtures. The mission is
  given in local metres, buffered in an isotropic frame, merged, and projected with coordinates
  rounded to six decimals. \<open>turf.buffer\<close> (with the script's options \<open>BUF\<close>) and \<open>turf.union\<close>
  are parameters that work on geometries; \<open>turf.point\<close>, \<open>turf.lineString\<close> and \<open>turf.polygon\<close> only wrap
  coordinates as GeoJSON, which is what the script's own literals do. Writing the files is not
  modelled. Numbers are the finite reals they are in every run of the script.
\<close>

section \<open>World frame\<close>

definition fx_ANCHOR_lat :: real where "fx_ANCHOR_lat = - 77846 / 1000"
definition fx_ANCHOR_lon :: real where "fx_ANCHOR_lon = 166668 / 1000"
definition fx_EARTH_R :: real where "fx_EARTH_R = 6378137"
definition fx_DEG :: real where "fx_DEG = pi / 180"
definition fx_M_PER_DEG_LAT :: real where "fx_M_PER_DEG_LAT = fx_EARTH_R * fx_DEG"
definition fx_M_PER_DEG_LON :: real where
  "fx_M_PER_DEG_LON = fx_EARTH_R * fx_DEG * cos (fx_ANCHOR_lat * fx_DEG)"
definition M_PER_DEG_EQ :: real where "M_PER_DEG_EQ = fx_EARTH_R * fx_DEG"

definition r6 :: "real \<Rightarrow> real" where
  "r6 n = of_int (js_round (n * 10 ^ 6)) / 10 ^ 6"

definition fx_metersToLonLat :: "real \<times> real \<Rightarrow> real \<times> real" where
  "fx_metersToLonLat p =
     (r6 (fx_ANCHOR_lon + fst p / fx_M_PER_DEG_LON), r6 (fx_ANCHOR_lat + snd p / fx_M_PER_DEG_LAT))"

section \<open>The mission in local metres\<close>

definition launch :: "real \<times> real" where "launch = (0, 0)"

definition route :: "(real \<times> real) list" where "route = [(0, 0), (300, 250), (550, 450)]"

definition roiCenter :: "real \<times> real" where "roiCenter = (700, 600)"

definition roiR :: real where "roiR = 180"

definition roi :: "(real \<times> real) list" where
  "roi = map (\<lambda>deg. let a = deg * fx_DEG in
           (fst roiCenter + roiR * cos a, snd roiCenter + roiR * sin a)) [90, 162, 234, 306, 18]"

definition roiClosed :: "(real \<times> real) list" where "roiClosed = roi @ [hd roi]"

section \<open>Geometries\<close>

text \<open>A GeoJSON position, or an array of coordinates nested to any depth.\<close>

datatype coords = Pos real real | Many "coords list"

record geometry =
  gm_type :: string
  gm_coordinates :: coords

definition toEq :: "real \<times> real \<Rightarrow> real \<times> real" where
  "toEq p = (fst p / M_PER_DEG_EQ, snd p / M_PER_DEG_EQ)"

definition position :: "real \<times> real \<Rightarrow> coords" where
  "position p = Pos (fst p) (snd p)"

definition point_geometry :: "real \<times> real \<Rightarrow> geometry" where
  "point_geometry p = \<lparr>gm_type = ''Point'', gm_coordinates = position p\<rparr>"

definition line_geometry :: "(real \<times> real) list \<Rightarrow> geometry" where
  "line_geometry ps = \<lparr>gm_type = ''LineString'', gm_coordinates = Many (map position ps)\<rparr>"

definition polygon_geometry :: "(real \<times> real) list \<Rightarrow> geometry" where
  "polygon_geometry ps = \<lparr>gm_type = ''Polygon'', gm_coordinates = Many [Many (map position ps)]\<rparr>"

text \<open>The buffers and their union, in the isotropic frame.\<close>

definition launchFenceEq :: "(geometry \<Rightarrow> real \<Rightarrow> geometry) \<Rightarrow> geometry" where
  "launchFenceEq buf = buf (point_geometry (toEq launch)) 200"

definition corridorEq :: "(geometry \<Rightarrow> real \<Rightarrow> geometry) \<Rightarrow> geometry" where
  "corridorEq buf = buf (line_geometry (map toEq route)) 100"

definition roiFenceEq :: "(geometry \<Rightarrow> real \<Rightarrow> geometry) \<Rightarrow> geometry" where
  "roiFenceEq buf = buf (polygon_geometry (map toEq roiClosed)) 250"

definition unionEq ::
  "(geometry \<Rightarrow> real \<Rightarrow> geometry) \<Rightarrow> (geometry \<Rightarrow> geometry \<Rightarrow> geometry) \<Rightarrow> geometry"
where
  "unionEq buf merge =
     (let u = merge (launchFenceEq buf) (corridorEq buf) in merge u (roiFenceEq buf))"

text \<open>Projecting a geometry: equator degrees to McMurdo longitude and latitude.\<close>

definition projPoint :: "real \<times> real \<Rightarrow> real \<times> real" where
  "projPoint p = fx_metersToLonLat (fst p * M_PER_DEG_EQ, snd p * M_PER_DEG_EQ)"

fun projCoords :: "coords \<Rightarrow> coords" where
  "projCoords (Pos lon lat) = position (projPoint (lon, lat))"
| "projCoords (Many cs) = Many (map projCoords cs)"

definition projGeom :: "geometry \<Rightarrow> geometry" where
  "projGeom g = \<lparr>gm_type = gm_type g, gm_coordinates = projCoords (gm_coordinates g)\<rparr>"

section \<open>The two files\<close>

definition fx_feature :: "string \<Rightarrow> string \<Rightarrow> geometry \<Rightarrow> geometry feature" where
  "fx_feature name rol g = \<lparr>ft_role = Some rol, ft_name = Some name, ft_geometry = g\<rparr>"

definition pts :: "(real \<times> real) list" where
  "pts = [launch, route ! 1, route ! 2] @ roi"

definition meanM :: "real \<times> real" where
  "meanM = (sum_list (map fst pts) / real (length pts), sum_list (map snd pts) / real (length pts))"

record fence_file =
  ff_aeqd_center :: "real \<times> real"
  ff_features :: "geometry feature list"

definition fence_geojson ::
  "(geometry \<Rightarrow> real \<Rightarrow> geometry) \<Rightarrow> (geometry \<Rightarrow> geometry \<Rightarrow> geometry) \<Rightarrow> fence_file"
where
  "fence_geojson buf merge =
     \<lparr>ff_aeqd_center = fx_metersToLonLat meanM,
      ff_features =
        [fx_feature ''launch_point'' ''input'' (point_geometry (fx_metersToLonLat launch)),
         fx_feature ''ingress_route'' ''input'' (line_geometry (map fx_metersToLonLat route)),
         fx_feature ''region_of_interest'' ''input'' (polygon_geometry (map fx_metersToLonLat roiClosed)),
         fx_feature ''fence_launch_point'' ''fence'' (projGeom (launchFenceEq buf)),
         fx_feature ''fence_ingress_route'' ''fence'' (projGeom (corridorEq buf)),
         fx_feature ''fence_region_of_interest'' ''fence'' (projGeom (roiFenceEq buf)),
         fx_feature ''fence'' ''fence'' (projGeom (unionEq buf merge))]\<rparr>"

definition toHemi :: "real \<times> real \<Rightarrow> string" where
  "toHemi p = (let (lon, lat) = fx_metersToLonLat p in
     toFixed 6 (Fin \<bar>lat\<bar>) @ '' '' @ (if lat < 0 then ''S'' else ''N'') @ '' '' @
     toFixed 6 (Fin \<bar>lon\<bar>) @ '' '' @ (if lon < 0 then ''W'' else ''E''))"

record mission_file =
  mi_launchPoint :: string
  mi_ingressRoute :: "string list"
  mi_regionOfInterest :: "string list"

definition mission_json :: mission_file where
  "mission_json = \<lparr>mi_launchPoint = toHemi launch, mi_ingressRoute = map toHemi route,
     mi_regionOfInterest = map toHemi roiClosed\<rparr>"

section \<open>Rounding and the two frames\<close>

lemma r6_close: "\<bar>r6 n - n\<bar> \<le> 5 / 10 ^ 7"
proof -
  have close: "\<bar>of_int \<lfloor>n * 10 ^ 6 + 1 / 2\<rfloor> - n * 10 ^ 6\<bar> \<le> 1 / 2" by linarith
  have "r6 n - n = (of_int \<lfloor>n * 10 ^ 6 + 1 / 2\<rfloor> - n * 10 ^ 6) / 10 ^ 6"
    by (simp add: r6_def js_round_def diff_divide_distrib)
  then have "\<bar>r6 n - n\<bar> = \<bar>of_int \<lfloor>n * 10 ^ 6 + 1 / 2\<rfloor> - n * 10 ^ 6\<bar> / 10 ^ 6"
    by (simp only: abs_divide) simp
  with close show ?thesis by simp
qed

lemma r6_of_int: "r6 (of_int k / 10 ^ 6) = of_int k / 10 ^ 6"
proof -
  have "(of_int k / 10 ^ 6) * 10 ^ 6 = (of_int k :: real)" by simp
  then show ?thesis by (simp only: r6_def js_round_of_int)
qed

lemma r6_idem: "r6 (r6 n) = r6 n"
  by (subst (2 3) r6_def) (rule r6_of_int)

lemma same_frame:
  "fx_ANCHOR_lat = ANCHOR_lat" "fx_ANCHOR_lon = ANCHOR_lon"
  "fx_M_PER_DEG_LAT = M_PER_DEG_LAT" "fx_M_PER_DEG_LON = M_PER_DEG_LON"
  by (simp_all add: fx_ANCHOR_lat_def ANCHOR_lat_def fx_ANCHOR_lon_def ANCHOR_lon_def fx_M_PER_DEG_LAT_def
      M_PER_DEG_LAT_def fx_M_PER_DEG_LON_def M_PER_DEG_LON_def fx_EARTH_R_def EARTH_R_def fx_DEG_def DEG_def)

lemma M_PER_DEG_EQ_pos: "0 < M_PER_DEG_EQ"
  by (simp add: M_PER_DEG_EQ_def fx_EARTH_R_def fx_DEG_def)

lemma projPoint_toEq: "projPoint (toEq p) = fx_metersToLonLat p"
  using M_PER_DEG_EQ_pos by (simp add: projPoint_def toEq_def)

section \<open>The region of interest\<close>

definition planar_dist2 :: "real \<times> real \<Rightarrow> real \<times> real \<Rightarrow> real" where
  "planar_dist2 p q = (fst p - fst q)\<^sup>2 + (snd p - snd q)\<^sup>2"

lemma roi_offsets:
  "roi = map (\<lambda>(dx, dy). (fst roiCenter + roiR * dx, snd roiCenter + roiR * dy))
     [(0, 1), (- cos (pi / 10), sin (pi / 10)), (- cos (3 * pi / 10), - sin (3 * pi / 10)),
      (cos (3 * pi / 10), - sin (3 * pi / 10)), (cos (pi / 10), sin (pi / 10))]"
proof -
  have deg: "90 * fx_DEG = pi / 2" "162 * fx_DEG = pi - pi / 10" "234 * fx_DEG = pi + 3 * pi / 10"
    "306 * fx_DEG = 2 * pi - 3 * pi / 10" "18 * fx_DEG = pi / 10"
    by (simp_all add: fx_DEG_def)
  have trig: "cos (162 * fx_DEG) = - cos (pi / 10)" "sin (162 * fx_DEG) = sin (pi / 10)"
    "cos (234 * fx_DEG) = - cos (3 * pi / 10)" "sin (234 * fx_DEG) = - sin (3 * pi / 10)"
    "cos (306 * fx_DEG) = cos (3 * pi / 10)" "sin (306 * fx_DEG) = - sin (3 * pi / 10)"
    by (simp_all only: deg cos_pi_minus sin_pi_minus cos_periodic_pi2 sin_periodic_pi2 cos_2pi_minus
        sin_2pi_minus)
  show ?thesis
    by (simp add: roi_def trig Let_def) (simp add: deg)
qed

lemma roi_vertex: "p \<in> set roi \<Longrightarrow> planar_dist2 p roiCenter = roiR\<^sup>2"
proof -
  have "(roiR * cos a)\<^sup>2 + (roiR * sin a)\<^sup>2 = roiR\<^sup>2" for a
    by (simp add: power_mult_distrib distrib_left[symmetric])
  then show "p \<in> set roi \<Longrightarrow> ?thesis"
    by (auto simp: roi_def planar_dist2_def Let_def)
qed

text \<open>A convex combination of the vertices of a convex polygon, a point of the route, and what lies
  well inside one of the three buffers. \<open>turf.buffer\<close> draws the round parts as polygons with 24
  steps, so the distances asked for are 95 percent of its radii.\<close>

definition in_hull :: "(real \<times> real) list \<Rightarrow> real \<times> real \<Rightarrow> bool" where
  "in_hull ps q \<longleftrightarrow> (\<exists>ws. length ws = length ps \<and> list_all (\<lambda>w. 0 \<le> w) ws \<and> sum_list ws = 1 \<and>
     q = (sum_list (map2 (*) ws (map fst ps)), sum_list (map2 (*) ws (map snd ps))))"

definition on_segment :: "real \<times> real \<Rightarrow> real \<times> real \<Rightarrow> real \<times> real \<Rightarrow> bool" where
  "on_segment a b q \<longleftrightarrow> (\<exists>t. 0 \<le> t \<and> t \<le> 1 \<and>
     q = (fst a + t * (fst b - fst a), snd a + t * (snd b - snd a)))"

definition on_route :: "real \<times> real \<Rightarrow> bool" where
  "on_route q \<longleftrightarrow> on_segment (route ! 0) (route ! 1) q \<or> on_segment (route ! 1) (route ! 2) q"

definition within_dist :: "real \<Rightarrow> real \<times> real \<Rightarrow> real \<times> real \<Rightarrow> bool" where
  "within_dist d q p \<longleftrightarrow> planar_dist2 p q \<le> d\<^sup>2"

definition mission_covers :: "real \<times> real \<Rightarrow> bool" where
  "mission_covers p \<longleftrightarrow> within_dist (95 / 100 * 200) launch p \<or>
     (\<exists>q. on_route q \<and> within_dist (95 / 100 * 100) q p) \<or>
     (\<exists>q. in_hull roi q \<and> within_dist (95 / 100 * 250) q p)"

lemma roiCenter_in_hull: "in_hull roi roiCenter"
proof -
  let ?a = "sin (pi / 10)" and ?b = "sin (3 * pi / 10)"
  have pos: "0 < ?a" "0 < ?b" by (auto intro!: sin_gt_zero)
  define u where "u = ?b / (2 * (?a + ?b))"
  define v where "v = ?a / (2 * (?a + ?b))"
  have uv: "0 \<le> u" "0 \<le> v" "2 * u + 2 * v = 1" "u * ?a = v * ?b"
    using pos by (simp_all add: u_def v_def add_divide_distrib[symmetric] field_simps)
  let ?ws = "[0, u, v, v, u]"
  have "fst roiCenter = sum_list (map2 (*) ?ws (map fst roi))"
    "snd roiCenter = sum_list (map2 (*) ?ws (map snd roi))"
    using uv by (simp_all add: roi_offsets roiCenter_def algebra_simps)
  then have "roiCenter = (sum_list (map2 (*) ?ws (map fst roi)), sum_list (map2 (*) ?ws (map snd roi)))"
    by (simp only: prod_eq_iff fst_conv snd_conv)
  moreover have "length ?ws = length roi" by (simp add: roi_def)
  moreover have "list_all (\<lambda>w. 0 \<le> w) ?ws" "sum_list ?ws = 1" using uv by simp_all
  ultimately show ?thesis unfolding in_hull_def by blast
qed

text \<open>A circle around a point near the target, with its radius added to the distance.\<close>

lemma circle_within:
  assumes "0 \<le> R" "0 \<le> d" "planar_dist2 c q \<le> d\<^sup>2"
  shows "within_dist (d + R) q (fst c + R * cos a, snd c + R * sin a)"
proof -
  define x where "x = fst c - fst q"
  define y where "y = snd c - snd q"
  have sc: "(cos a)\<^sup>2 + (sin a)\<^sup>2 = 1" by simp
  have xy: "x\<^sup>2 + y\<^sup>2 \<le> d\<^sup>2" using assms(3) by (simp add: planar_dist2_def x_def y_def)
  have "(x * k + y * l)\<^sup>2 + (x * l - y * k)\<^sup>2 = (x\<^sup>2 + y\<^sup>2) * (k\<^sup>2 + l\<^sup>2)" for k l
    by (simp add: power2_eq_square algebra_simps)
  from this[of "cos a" "sin a"] have
    "(x * cos a + y * sin a)\<^sup>2 + (x * sin a - y * cos a)\<^sup>2 = x\<^sup>2 + y\<^sup>2" by simp
  then have "(x * cos a + y * sin a)\<^sup>2 \<le> d\<^sup>2"
    using xy zero_le_power2[of "x * sin a - y * cos a"] by linarith
  then have "x * cos a + y * sin a \<le> d" using assms(2) by (rule power2_le_imp_le)
  then have "2 * R * (x * cos a + y * sin a) \<le> 2 * R * d" using assms(1) by (intro mult_left_mono) simp_all
  moreover have "(x + R * k)\<^sup>2 + (y + R * l)\<^sup>2 =
      x\<^sup>2 + y\<^sup>2 + 2 * R * (x * k + y * l) + R\<^sup>2 * (k\<^sup>2 + l\<^sup>2)" for k l
    by (simp add: power2_eq_square algebra_simps)
  from this[of "cos a" "sin a"] have "(x + R * cos a)\<^sup>2 + (y + R * sin a)\<^sup>2 =
      x\<^sup>2 + y\<^sup>2 + 2 * R * (x * cos a + y * sin a) + R\<^sup>2" by (simp only: sc mult_1_right)
  moreover have "(d + R)\<^sup>2 = d\<^sup>2 + R\<^sup>2 + 2 * R * d" by (simp add: power2_sum)
  ultimately have "(x + R * cos a)\<^sup>2 + (y + R * sin a)\<^sup>2 \<le> (d + R)\<^sup>2"
    using xy by linarith
  then show ?thesis by (simp add: within_dist_def planar_dist2_def x_def y_def algebra_simps)
qed

lemma within_mono: "within_dist d q p \<Longrightarrow> 0 \<le> d \<Longrightarrow> d \<le> d' \<Longrightarrow> within_dist d' q p"
  by (simp add: within_dist_def) (meson order_trans power_mono)

section \<open>The orbits of the simulator\<close>

lemma initial_orbits_covered:
  assumes "r \<in> set (fs_robots new_fake_source)"
  shows "\<exists>cx cy R V th. r = fake_robot_of (fr_id r) cx cy R V th (fr_cycle r) \<and> 0 < R \<and>
    (\<forall>a. mission_covers (cx + R * cos a, cy + R * sin a))"
proof -
  have launch: "mission_covers (fst c + R * cos a, snd c + R * sin a)"
    if "0 \<le> R" "R \<le> 190" "c = launch" for c R a
    using within_mono[OF circle_within[of R 0 c launch a], of 190] that
    by (simp add: mission_covers_def planar_dist2_def)
  have corridor: "mission_covers (fst c + R * cos a, snd c + R * sin a)"
    if "0 \<le> R" "0 \<le> d" "d + R \<le> 95" "planar_dist2 c q \<le> d\<^sup>2" "on_route q" for c q R d a
    using within_mono[OF circle_within[of R d c q a], of 95] that
    unfolding mission_covers_def by (intro disjI2 disjI1 exI[of _ q]) simp
  have region: "mission_covers (fst c + R * cos a, snd c + R * sin a)"
    if "0 \<le> R" "0 \<le> d" "d + R \<le> 237" "planar_dist2 c roiCenter \<le> d\<^sup>2" for c R d a
    using within_mono[OF circle_within[of R d c roiCenter a], of "95 / 100 * 250"] that roiCenter_in_hull
    unfolding mission_covers_def by (intro disjI2 exI[of _ roiCenter]) simp
  have seg: "on_segment a b (fst a + t * (fst b - fst a), snd a + t * (snd b - snd a))" if "0 \<le> t" "t \<le> 1" for a b t
    using that unfolding on_segment_def by blast
  have on: "on_route (300, 250)" "on_route (505, 414)" "on_route (126, 105)"
    using seg[of 1 "(0, 0)" "(300, 250)"] seg[of "41 / 50" "(300, 250)" "(550, 450)"]
      seg[of "21 / 50" "(0, 0)" "(300, 250)"] by (simp_all add: on_route_def route_def)
  have r1: "mission_covers (0 + 80 * cos a, 0 + 80 * sin a)" for a
    using launch[of 80 "(0, 0)" a] by (simp add: launch_def)
  have r2: "mission_covers (300 + 60 * cos a, 250 + 60 * sin a)" for a
    using corridor[OF _ _ _ _ on(1), of 60 0 "(300, 250)" a] by (simp add: planar_dist2_def)
  have r3: "mission_covers (700 + 95 * cos a, 600 + 95 * sin a)" for a
    using region[of 95 0 "(700, 600)" a] by (simp add: planar_dist2_def roiCenter_def)
  have r4: "mission_covers (500 + 70 * cos a, 420 + 70 * sin a)" for a
    using corridor[OF _ _ _ _ on(2), of 70 8 "(500, 420)" a] by (simp add: planar_dist2_def)
  have r5: "mission_covers (760 + 65 * cos a, 560 + 65 * sin a)" for a
    using region[of 65 73 "(760, 560)" a] by (simp add: planar_dist2_def roiCenter_def)
  have r6: "mission_covers (140 + 70 * cos a, 90 + 70 * sin a)" for a
    using corridor[OF _ _ _ _ on(3), of 70 21 "(140, 90)" a] by (simp add: planar_dist2_def)
  have build: "\<exists>cx cy R V th. r = fake_robot_of (fr_id r) cx cy R V th (fr_cycle r) \<and> 0 < R \<and>
      (\<forall>a. mission_covers (cx + R * cos a, cy + R * sin a))"
    if "r = fake_robot_of i cx cy R V th c" "0 < R" "\<And>a. mission_covers (cx + R * cos a, cy + R * sin a)"
    for i cx cy R V th c
    using that by (intro exI[of _ cx] exI[of _ cy] exI[of _ R] exI[of _ V] exI[of _ th])
      (simp add: fake_robot_of_def)
  from assms consider
      "r = fake_robot_of ''R-01'' 0 0 80 14 0 False"
    | "r = fake_robot_of ''R-02'' 300 250 60 11 (11 / 10) False"
    | "r = fake_robot_of ''R-03'' 700 600 95 16 (22 / 10) False"
    | "r = fake_robot_of ''R-04'' 500 420 70 12 (33 / 10) False"
    | "r = fake_robot_of ''R-05'' 760 560 65 9 (44 / 10) False"
    | "r = fake_robot_of ''R-06'' 140 90 70 13 (55 / 10) True"
    unfolding new_fake_source_def by (simp only: fake_source.simps list.set) blast
  then show ?thesis
    by cases (erule build, simp, rule r1 r2 r3 r4 r5 r6)+
qed

definition robot_covered :: "robot_state \<Rightarrow> bool" where
  "robot_covered r \<longleftrightarrow> (\<exists>x y. tl_x (rb_telemetry r) = Fin x \<and> tl_y (rb_telemetry r) = Fin y \<and> mission_covers (x, y))"

fun frame_covered :: "source_out \<Rightarrow> bool" where
  "frame_covered (EmitFrame f) = list_all robot_covered (sw_robots f)"
| "frame_covered (EmitStatus _ _) = True"

fun uncommanded :: "fake_event \<Rightarrow> bool" where
  "uncommanded (FakeSend _) = False"
| "uncommanded _ = True"

lemma reported_on_circle:
  assumes "r = fake_robot_of i cx cy R V th c" "0 < R"
  shows "\<exists>a. tl_x (rb_telemetry (fake_robotState e n r)) = Fin (cx + R * cos a) \<and>
    tl_y (rb_telemetry (fake_robotState e n r)) = Fin (cy + R * sin a)"
  using assms by (auto simp: fake_robotState_def fake_robot_of_def Let_def)

lemma reported_covered:
  "r \<in> set (fs_robots new_fake_source) \<Longrightarrow> robot_covered (fake_robotState e n r)"
  using initial_orbits_covered[of r] reported_on_circle[of r] unfolding robot_covered_def by metis

interpretation uncommanded_fake: guarded_machine fake_step
  "\<lambda>s. fs_commands s = [] \<and> fs_robots s = fs_robots new_fake_source" uncommanded frame_covered
proof unfold_locales
  fix s :: fake_source and e
  assume s: "fs_commands s = [] \<and> fs_robots s = fs_robots new_fake_source" and e: "uncommanded e"
  then have "fs_commands (fst (tick s)) = [] \<and> fs_robots (fst (tick s)) = fs_robots new_fake_source"
    by (simp add: advanceCommands_def)
  moreover have "list_all frame_covered (snd (tick s))"
    using s by (simp add: tick_def Let_def emit_frame_def advanceCommands_def list_all_iff reported_covered)
  ultimately show "(fs_commands (fst (fake_step s e)) = [] \<and>
        fs_robots (fst (fake_step s e)) = fs_robots new_fake_source) \<and>
      list_all frame_covered (snd (fake_step s e))"
    using s e by (cases e)
      (simp_all add: fake_onFrame_def fake_onStatus_def fake_start_def fake_stop_def emit_status_def split: option.split)
qed

section \<open>Properties\<close>

text \<open>The generator's frame is the client's: for every position in local metres the generated
  longitude and latitude differ from those \<open>web/src/geo.ts\<close> gives a robot at that position by
  at most half of the sixth decimal, and back in metres they are at most 8 centimetres off.\<close>

theorem generated_positions_match_geo:
  "\<exists>lon lat. metersToLonLat (Fin x) (Fin y) = (Fin lon, Fin lat) \<and>
     \<bar>fst (fx_metersToLonLat (x, y)) - lon\<bar> \<le> 5 / 10 ^ 7 \<and>
     \<bar>snd (fx_metersToLonLat (x, y)) - lat\<bar> \<le> 5 / 10 ^ 7 \<and>
     (case lonLatToMeters (fst (fx_metersToLonLat (x, y))) (snd (fx_metersToLonLat (x, y))) of
        (x', y') \<Rightarrow> \<bar>x' - x\<bar> \<le> 8 / 100 \<and> \<bar>y' - y\<bar> \<le> 8 / 100)"
proof -
  let ?lon = "ANCHOR_lon + x / M_PER_DEG_LON" and ?lat = "ANCHOR_lat + y / M_PER_DEG_LAT"
  have small: "M_PER_DEG_LAT \<le> 160000" "M_PER_DEG_LON \<le> M_PER_DEG_LAT"
    using pi_less_4 by (simp_all add: M_PER_DEG_LAT_def M_PER_DEG_LON_def EARTH_R_def DEG_def)
  have close: "\<bar>(r6 n - c) * s - (n - c) * s\<bar> \<le> 8 / 100" if "0 < s" "s \<le> 160000" for n c s
  proof -
    have "\<bar>(r6 n - c) * s - (n - c) * s\<bar> = \<bar>r6 n - n\<bar> * s"
      using that by (simp add: abs_mult left_diff_distrib[symmetric])
    also have "\<dots> \<le> 5 / 10 ^ 7 * 160000" using that r6_close by (intro mult_mono) simp_all
    finally show ?thesis by simp
  qed
  have "(?lon - ANCHOR_lon) * M_PER_DEG_LON = x" "(?lat - ANCHOR_lat) * M_PER_DEG_LAT = y"
    using M_PER_DEG_LAT_pos M_PER_DEG_LON_pos by simp_all
  with close[of M_PER_DEG_LON ?lon ANCHOR_lon] close[of M_PER_DEG_LAT ?lat ANCHOR_lat] small
    M_PER_DEG_LAT_pos M_PER_DEG_LON_pos
  have "\<bar>(r6 ?lon - ANCHOR_lon) * M_PER_DEG_LON - x\<bar> \<le> 8 / 100"
    "\<bar>(r6 ?lat - ANCHOR_lat) * M_PER_DEG_LAT - y\<bar> \<le> 8 / 100" by simp_all
  then show ?thesis
    using r6_close by (simp add: metersToLonLat_Fin fx_metersToLonLat_def same_frame lonLatToMeters_def)
qed

text \<open>The isotropic frame adds no error: a geometry taken there and projected is the
  geometry projected directly, whatever its kind.\<close>

theorem projection_through_equator:
  "projGeom (point_geometry (toEq p)) = point_geometry (fx_metersToLonLat p) \<and>
   projGeom (line_geometry (map toEq ps)) = line_geometry (map fx_metersToLonLat ps) \<and>
   projGeom (polygon_geometry (map toEq ps)) = polygon_geometry (map fx_metersToLonLat ps)"
proof -
  have one: "projCoords (position (toEq q)) = position (fx_metersToLonLat q)" for q
    by (simp add: position_def projPoint_toEq)
  show ?thesis
    by (simp add: projGeom_def point_geometry_def line_geometry_def polygon_geometry_def one comp_def)
qed

text \<open>Generator and client agree on the file: \<open>mission.ts\<close> splits what is generated, whatever
  turf computes, into the three inputs, the three component buffers (each with a colour of its
  own in \<open>viz.ts\<close>) and, as the union that the breach test uses, the projection of the merged
  buffers.\<close>

theorem generated_file_splits:
  "map ft_geometry (mf_inputs (fence (ff_features (fence_geojson buf merge)))) =
     [point_geometry (fx_metersToLonLat launch), line_geometry (map fx_metersToLonLat route),
      polygon_geometry (map fx_metersToLonLat roiClosed)] \<and>
   map ft_geometry (mf_buffers (fence (ff_features (fence_geojson buf merge)))) =
     map projGeom [launchFenceEq buf, corridorEq buf, roiFenceEq buf] \<and>
   map_option ft_geometry (mf_union (fence (ff_features (fence_geojson buf merge)))) =
     Some (projGeom (merge (merge (launchFenceEq buf) (corridorEq buf)) (roiFenceEq buf))) \<and>
   dom BUFFER_COLOR = set (map (the \<circ> ft_name) (mf_buffers (fence (ff_features (fence_geojson buf merge)))))"
  by (simp add: fence_geojson_def fence_def role_def fx_feature_def unionEq_def Let_def BUFFER_COLOR_def dom_map_of_conv_image_fst)

text \<open>The region of interest is a closed ring of five distinct vertices, all at 180 metres
  from its centre, which lies in their convex hull.\<close>

theorem roi_is_a_pentagon:
  "length roiClosed = 6 \<and> hd roiClosed = last roiClosed \<and> distinct roi \<and> in_hull roi roiCenter \<and>
   list_all (\<lambda>p. planar_dist2 p roiCenter = roiR\<^sup>2) roi"
proof -
  have "0 < sin (pi / 10)" "0 < sin (3 * pi / 10)" "0 < cos (pi / 10)" "0 < cos (3 * pi / 10)"
    by (auto intro!: sin_gt_zero cos_gt_zero)
  then have "distinct roi"
    unfolding roi_offsets by (simp add: roiCenter_def roiR_def)
  then show ?thesis
    using roi_vertex roiCenter_in_hull by (simp add: list_all_iff roiClosed_def) (simp add: roi_def)
qed

text \<open>The simulator flies inside the mission until it is told otherwise: in every session without
  commands every robot of every frame is, at the position it reports, well inside one of the
  three buffers, whatever its link does.\<close>

theorem simulator_stays_in_mission:
  assumes "list_all uncommanded evs"
    and "EmitFrame f \<in> set (snd (run fake_step new_fake_source evs))" "r \<in> set (sw_robots f)"
  shows "\<exists>x y. tl_x (rb_telemetry r) = Fin x \<and> tl_y (rb_telemetry r) = Fin y \<and> mission_covers (x, y)"
proof -
  have "fs_commands new_fake_source = [] \<and> fs_robots new_fake_source = fs_robots new_fake_source"
    by (simp add: new_fake_source_def)
  from uncommanded_fake.run_keeps[OF this assms(1)] assms(2,3) have "robot_covered r"
    by (fastforce simp: list_all_iff)
  then show ?thesis by (simp add: robot_covered_def)
qed

theorem simulator_stays_in_mission_witness:
  "\<exists>f \<in> set (frames_emitted (snd (run fake_step new_fake_source [FakeOnFrame, FakeStart, FakeTimer]))).
     list_all (\<lambda>r. \<exists>x y. tl_x (rb_telemetry r) = Fin x \<and> tl_y (rb_telemetry r) = Fin y \<and> mission_covers (x, y))
       (sw_robots f)"
proof -
  let ?evs = "[FakeOnFrame, FakeStart, FakeTimer]"
  have quiet: "list_all uncommanded ?evs" by simp
  obtain f where f: "EmitFrame f \<in> set (snd (run fake_step new_fake_source ?evs))"
    by (simp add: fake_onFrame_def fake_start_def tick_def emit_frame_def Let_def) blast
  then have "f \<in> set (frames_emitted (snd (run fake_step new_fake_source ?evs)))"
    by (simp add: frames_emitted_iff)
  moreover have "list_all (\<lambda>r. \<exists>x y. tl_x (rb_telemetry r) = Fin x \<and> tl_y (rb_telemetry r) = Fin y \<and>
      mission_covers (x, y)) (sw_robots f)"
    using simulator_stays_in_mission[OF quiet f] by (simp add: list_all_iff)
  ultimately show ?thesis by blast
qed

text \<open>The committed \<open>fixtures/mcmurdo.geojson\<close> is not the output of this generator, whatever turf
  computes: its centre has more than six decimals.\<close>

definition shipped_center :: "real \<times> real" where
  "shipped_center = (16668954909266117 / 10 ^ 14, - 7784197568230972 / 10 ^ 14)"

theorem shipped_fixture_not_generated:
  "ff_aeqd_center (fence_geojson buf merge) \<noteq> shipped_center"
proof -
  have "r6 n \<noteq> 16668954909266117 / 10 ^ 14" for n
  proof
    assume "r6 n = 16668954909266117 / 10 ^ 14"
    then have "real_of_int (js_round (n * 10 ^ 6) * 10 ^ 8) = real_of_int 16668954909266117"
      by (simp add: r6_def field_simps)
    then have "js_round (n * 10 ^ 6) * 10 ^ 8 = 16668954909266117" by (simp only: of_int_eq_iff)
    then have "16668954909266117 mod (10 ^ 8 :: int) = 0" by (metis mod_mult_self2_is_0)
    then show False by simp
  qed
  then show ?thesis by (simp add: fence_geojson_def fx_metersToLonLat_def shipped_center_def)
qed

text \<open>The mission input names the launch point as \<open>mcmurdo.json\<close> has it, with as many entries as
  the route and the ring have points.\<close>

theorem mission_json_launch:
  "mi_launchPoint mission_json = ''77.846000 S 166.668000 E'' \<and>
   hd (mi_ingressRoute mission_json) = mi_launchPoint mission_json \<and>
   length (mi_ingressRoute mission_json) = 3 \<and> length (mi_regionOfInterest mission_json) = 6 \<and>
   last (mi_regionOfInterest mission_json) = hd (mi_regionOfInterest mission_json)"
proof -
  have r: "fx_metersToLonLat launch = (166668 / 1000, - 77846 / 1000)"
    using r6_of_int[of 166668000] r6_of_int[of "-77846000"]
    by (simp add: fx_metersToLonLat_def launch_def fx_ANCHOR_lat_def fx_ANCHOR_lon_def)
  have "js_round 77846000 = 77846000" "js_round 166668000 = 166668000"
    using js_round_of_int[of 77846000] js_round_of_int[of 166668000] by simp_all
  then have "toHemi launch = ''77.846000 S 166.668000 E''"
    by (simp add: toHemi_def r fixed_digits_def nat_str_def radix_str_def digit_char_def zeros_def Let_def radix.simps char_of_def bit_0)
  then show ?thesis
    by (simp add: mission_json_def route_def launch_def roiClosed_def roi_def)
qed

end
