(* ===== verification/AlertEngine.thy ===== *)
theory AlertEngine
  imports WireTypes
begin

text \<open>
  \<open>web/src/alertEngine.ts\<close>: the pure state machine that turns frames into alerts. The
  injected point-in-fence test is the argument \<open>inside\<close> of every operation. The state is
  the class's private fields; \<open>ingest\<close> processes the robots of the frame in order, then its
  commands, threading the state as the method mutates it.
\<close>

section \<open>Model\<close>

datatype alert_kind = LinkAlert | CommandAlert | GeofenceAlert

record alert =
  al_id :: string
  al_kind :: alert_kind
  al_severity :: severity
  al_ts :: int
  al_robotId :: string
  al_message :: string

definition TERMINAL_FAILURES :: "command_state list" where
  "TERMINAL_FAILURES = [CMD_REJECTED, CMD_EXPIRED, CMD_ROBOT_OFFLINE]"

record engine =
  prevLink :: "(string, link_status) jsmap"
  prevInside :: "(string, bool) jsmap"
  seenCmdTargets :: "string list"
  en_seq :: nat

definition new_engine :: engine where
  "new_engine = \<lparr>prevLink = [], prevInside = [], seenCmdTargets = [], en_seq = 0\<rparr>"

definition mk :: "engine \<Rightarrow> alert_kind \<Rightarrow> severity \<Rightarrow> string \<Rightarrow> int \<Rightarrow> string \<Rightarrow> engine \<times> alert" where
  "mk e kind severity robotId ts message =
     (e\<lparr>en_seq := Suc (en_seq e)\<rparr>,
      \<lparr>al_id = ''alert-'' @ nat_str (en_seq e), al_kind = kind, al_severity = severity,
       al_ts = ts, al_robotId = robotId, al_message = message\<rparr>)"

definition linkAlert ::
  "engine \<Rightarrow> string \<Rightarrow> link_status \<Rightarrow> link_status \<Rightarrow> int \<Rightarrow> engine \<times> alert list"
where
  "linkAlert e i prev cur now =
     (if cur = LINK_LIVE \<and> (prev = LINK_STALE \<or> prev = LINK_LOST) then
        (case mk e LinkAlert Info i now (i @ '' link recovered (LIVE)'') of (e', a) \<Rightarrow> (e', [a]))
      else if cur = LINK_STALE then
        (case mk e LinkAlert Warn i now (i @ '' link STALE'') of (e', a) \<Rightarrow> (e', [a]))
      else if cur = LINK_LOST then
        (case mk e LinkAlert Critical i now (i @ '' link LOST'') of (e', a) \<Rightarrow> (e', [a]))
      else (e, []))"

text \<open>The two halves of the loop body over \<open>frame.robots\<close>.\<close>

definition link_step :: "int \<Rightarrow> engine \<Rightarrow> robot_state \<Rightarrow> engine \<times> alert list" where
  "link_step now e r =
     (let i = rb_id r;
          (e1, out) =
            (case map_of (prevLink e) i of
               None \<Rightarrow> (e, [])
             | Some prevStatus \<Rightarrow>
                 if prevStatus \<noteq> rb_link_status r
                 then linkAlert e i prevStatus (rb_link_status r) now else (e, []))
      in (e1\<lparr>prevLink := AList.update i (rb_link_status r) (prevLink e1)\<rparr>, out))"

definition fence_step ::
  "(jsnum \<Rightarrow> jsnum \<Rightarrow> bool) \<Rightarrow> int \<Rightarrow> engine \<Rightarrow> robot_state \<Rightarrow> engine \<times> alert list"
where
  "fence_step inside now e r =
     (if rb_link_status r \<noteq> LINK_LOST then
        (let i = rb_id r;
             ins = inside (tl_x (rb_telemetry r)) (tl_y (rb_telemetry r));
             (e1, out) =
               (case map_of (prevInside e) i of
                  None \<Rightarrow>
                    if \<not> ins
                    then (case mk e GeofenceAlert Critical i now (i @ '' outside the geofence'')
                          of (e', a) \<Rightarrow> (e', [a]))
                    else (e, [])
                | Some was \<Rightarrow>
                    if was \<noteq> ins
                    then (case (if ins
                                then mk e GeofenceAlert Info i now (i @ '' re-entered the geofence'')
                                else mk e GeofenceAlert Critical i now (i @ '' BREACHED the geofence''))
                          of (e', a) \<Rightarrow> (e', [a]))
                    else (e, []))
         in (e1\<lparr>prevInside := AList.update i ins (prevInside e1)\<rparr>, out))
      else (e, []))"

definition robot_step ::
  "(jsnum \<Rightarrow> jsnum \<Rightarrow> bool) \<Rightarrow> int \<Rightarrow> engine \<Rightarrow> robot_state \<Rightarrow> engine \<times> alert list"
where
  "robot_step inside now e r =
     (let (e1, out1) = link_step now e r; (e2, out2) = fence_step inside now e1 r
      in (e2, out1 @ out2))"

definition cmd_key :: "string \<Rightarrow> string \<Rightarrow> string" where
  "cmd_key command_id robot_id = command_id @ '':'' @ robot_id"

definition target_step :: "int \<Rightarrow> engine \<Rightarrow> string \<times> target_status \<Rightarrow> engine \<times> alert list" where
  "target_step now e ct =
     (let (cid, t) = ct; key = cmd_key cid (tg_robot_id t) in
      if tg_state t \<notin> set TERMINAL_FAILURES then (e, [])
      else if key \<in> set (seenCmdTargets e) then (e, [])
      else (let e1 = e\<lparr>seenCmdTargets := js_add key (seenCmdTargets e)\<rparr>;
                label = drop_first ''CMD_'' (cmd_str (tg_state t));
                suffix = (if tg_detail t \<noteq> '''' then '' '' @ mdash @ '' '' @ tg_detail t else '''');
                (e2, a) = mk e1 CommandAlert Warn (tg_robot_id t) now
                            (tg_robot_id t @ '' command '' @ label @ suffix)
            in (e2, [a])))"

definition cmd_targets :: "swarm_state \<Rightarrow> (string \<times> target_status) list" where
  "cmd_targets f = concat (map (\<lambda>c. map (\<lambda>t. (cs_command_id c, t)) (cs_targets c)) (sw_commands f))"

definition ingest ::
  "(jsnum \<Rightarrow> jsnum \<Rightarrow> bool) \<Rightarrow> engine \<Rightarrow> swarm_state \<Rightarrow> int \<Rightarrow> engine \<times> alert list"
where
  "ingest inside e frame now =
     (let (e1, out1) = run (robot_step inside now) e (sw_robots frame);
          (e2, out2) = run (target_step now) e1 (cmd_targets frame)
      in (e2, out1 @ out2))"

text \<open>The engine over a session: frames with the clock value each was ingested at.\<close>

definition ingest_all ::
  "(jsnum \<Rightarrow> jsnum \<Rightarrow> bool) \<Rightarrow> engine \<Rightarrow> (swarm_state \<times> int) list \<Rightarrow> engine \<times> alert list"
where
  "ingest_all inside = run (\<lambda>e (f, now). ingest inside e f now)"

section \<open>Alert ids\<close>

text \<open>An operation numbers its alerts when the ids it emits continue the engine's counter.\<close>

definition alert_ids :: "nat \<Rightarrow> nat \<Rightarrow> string list" where
  "alert_ids m n = map (\<lambda>k. ''alert-'' @ nat_str k) [m ..< n]"

lemma alert_ids_same [simp]: "alert_ids m m = []"
  by (simp add: alert_ids_def)

lemma alert_ids_Suc [simp]: "alert_ids m (Suc m) = [''alert-'' @ nat_str m]"
  by (simp add: alert_ids_def)

lemma alert_ids_append: "alert_ids m (m + j) @ alert_ids (m + j) (m + j + k) = alert_ids m (m + j + k)"
  by (simp add: alert_ids_def upt_add_eq_append[of m "m + j" k] flip: map_append)

lemma distinct_alert_ids: "distinct (alert_ids m n)"
  by (auto simp: alert_ids_def distinct_map inj_on_def)

definition numbered :: "engine \<Rightarrow> engine \<times> alert list \<Rightarrow> bool" where
  "numbered e p \<longleftrightarrow> en_seq (fst p) = en_seq e + length (snd p) \<and>
     map al_id (snd p) = alert_ids (en_seq e) (en_seq e + length (snd p))"

lemma numbered_none: "en_seq e' = en_seq e \<Longrightarrow> numbered e (e', [])"
  by (simp add: numbered_def)

lemma numbered_seq:
  "numbered e p \<Longrightarrow> numbered (fst p) q \<Longrightarrow> numbered e (fst q, snd p @ snd q)"
  using alert_ids_append[of "en_seq e" "length (snd p)" "length (snd q)"]
  by (simp add: numbered_def add.assoc)

lemma numbered_run:
  assumes "\<And>e x. numbered e (step e x)"
  shows "numbered e (run step e xs)"
proof (induction xs arbitrary: e)
  case Nil
  then show ?case by (simp add: numbered_none)
next
  case (Cons x xs)
  from numbered_seq[OF assms[of e x] Cons.IH[of "fst (step e x)"]]
  show ?case by (simp add: split_beta)
qed

lemma numbered_link_step: "numbered e (link_step now e r)"
  by (auto simp: link_step_def linkAlert_def Let_def mk_def numbered_def split: option.split)

lemma numbered_fence_step: "numbered e (fence_step inside now e r)"
  by (auto simp: fence_step_def Let_def mk_def numbered_def split: option.split)

lemma numbered_robot_step: "numbered e (robot_step inside now e r)"
  using numbered_seq[OF numbered_link_step[of e now r] numbered_fence_step[of _ inside now r]]
  by (simp add: robot_step_def split_beta)

lemma numbered_target_step: "numbered e (target_step now e ct)"
  by (auto simp: target_step_def Let_def mk_def numbered_def split_beta)

lemma numbered_ingest: "numbered e (ingest inside e f now)"
  using numbered_seq[OF numbered_run[of "robot_step inside now", OF numbered_robot_step, of e "sw_robots f"]
      numbered_run[of "target_step now", OF numbered_target_step, of _ "cmd_targets f"]]
  by (simp add: ingest_def split_beta)

lemma numbered_ingest_all: "numbered e (ingest_all inside e fs)"
  unfolding ingest_all_def by (rule numbered_run) (auto simp: numbered_ingest split_beta)

section \<open>Edge detection: the abstract specification of the two robot rules\<close>

text \<open>
  Per robot, the engine is an edge detector. \<open>fence_spec\<close> watches the inside/outside signal:
  silence while it is steady, one critical alert when it goes (or is first seen) outside, one
  info alert when it comes back. \<open>link_spec\<close> watches the link status.
\<close>

fun fence_spec :: "bool option \<Rightarrow> bool \<Rightarrow> bool option \<times> severity list" where
  "fence_spec None b = (Some b, if b then [] else [Critical])"
| "fence_spec (Some a) b = (Some b, if a = b then [] else if b then [Info] else [Critical])"

fun link_severity :: "link_status \<Rightarrow> link_status \<Rightarrow> severity list" where
  "link_severity LINK_STALE LINK_LIVE = [Info]"
| "link_severity LINK_LOST LINK_LIVE = [Info]"
| "link_severity _ LINK_STALE = [Warn]"
| "link_severity _ LINK_LOST = [Critical]"
| "link_severity _ _ = []"

fun link_spec :: "link_status option \<Rightarrow> link_status \<Rightarrow> link_status option \<times> severity list" where
  "link_spec None s = (Some s, [])"
| "link_spec (Some p) s = (Some s, if p = s then [] else link_severity p s)"

text \<open>What the engine sees of one robot in a frame, and what it says about it.\<close>

definition fence_obs :: "(jsnum \<Rightarrow> jsnum \<Rightarrow> bool) \<Rightarrow> string \<Rightarrow> robot_state \<Rightarrow> bool list" where
  "fence_obs inside i r =
     (if rb_id r = i \<and> rb_link_status r \<noteq> LINK_LOST
      then [inside (tl_x (rb_telemetry r)) (tl_y (rb_telemetry r))] else [])"

definition link_obs :: "string \<Rightarrow> robot_state \<Rightarrow> link_status list" where
  "link_obs i r = (if rb_id r = i then [rb_link_status r] else [])"

definition sev_of :: "alert_kind \<Rightarrow> string \<Rightarrow> alert \<Rightarrow> severity list" where
  "sev_of k i a = (if al_kind a = k \<and> al_robotId a = i then [al_severity a] else [])"

definition frames_obs :: "(robot_state \<Rightarrow> 'v list) \<Rightarrow> swarm_state \<times> int \<Rightarrow> 'v list" where
  "frames_obs ob ft = concat (map ob (sw_robots (fst ft)))"

text \<open>The halves of the robot step leave each other's memory alone and speak for one robot.\<close>

lemma mk_simps [simp]:
  "prevLink (fst (mk e k v r t m)) = prevLink e"
  "prevInside (fst (mk e k v r t m)) = prevInside e"
  "seenCmdTargets (fst (mk e k v r t m)) = seenCmdTargets e"
  "al_kind (snd (mk e k v r t m)) = k"
  "al_severity (snd (mk e k v r t m)) = v"
  "al_robotId (snd (mk e k v r t m)) = r"
  by (simp_all add: mk_def)

lemma linkAlert_frame:
  "prevLink (fst (linkAlert e i p c now)) = prevLink e"
  "prevInside (fst (linkAlert e i p c now)) = prevInside e"
  "seenCmdTargets (fst (linkAlert e i p c now)) = seenCmdTargets e"
  by (simp_all add: linkAlert_def split_beta)

lemma sev_of_mk: "sev_of k j (snd (mk e k' v r t m)) = (if k' = k \<and> r = j then [v] else [])"
  by (simp add: sev_of_def)

lemma linkAlert_says:
  "concat (map (sev_of k j) (snd (linkAlert e i p c now))) =
     (if k = LinkAlert \<and> j = i then link_severity p c else [])"
  by (cases p; cases c) (auto simp: linkAlert_def split_beta sev_of_mk)

lemma link_step_frame:
  "prevInside (fst (link_step now e r)) = prevInside e"
  "seenCmdTargets (fst (link_step now e r)) = seenCmdTargets e"
  "map_of (prevLink (fst (link_step now e r))) = (map_of (prevLink e))(rb_id r \<mapsto> rb_link_status r)"
  by (simp_all add: link_step_def Let_def split_beta linkAlert_frame split: option.split)

lemma link_step_says:
  "concat (map (sev_of k j) (snd (link_step now e r))) =
     (if k = LinkAlert \<and> j = rb_id r
      then snd (link_spec (map_of (prevLink e) j) (rb_link_status r)) else [])"
  by (auto simp: link_step_def Let_def split_beta linkAlert_says
      simp del: concat_eq_Nil_conv split: option.split)

lemma fence_step_frame:
  "prevLink (fst (fence_step inside now e r)) = prevLink e"
  "seenCmdTargets (fst (fence_step inside now e r)) = seenCmdTargets e"
  "map_of (prevInside (fst (fence_step inside now e r))) =
     (if rb_link_status r = LINK_LOST then map_of (prevInside e)
      else (map_of (prevInside e))
        (rb_id r \<mapsto> inside (tl_x (rb_telemetry r)) (tl_y (rb_telemetry r))))"
  by (simp_all add: fence_step_def Let_def split_beta split: option.split)

lemma fence_step_says:
  "concat (map (sev_of k j) (snd (fence_step inside now e r))) =
     (if k = GeofenceAlert \<and> j = rb_id r \<and> rb_link_status r \<noteq> LINK_LOST
      then snd (fence_spec (map_of (prevInside e) j)
                 (inside (tl_x (rb_telemetry r)) (tl_y (rb_telemetry r)))) else [])"
  by (auto simp: fence_step_def Let_def split_beta sev_of_mk
      simp del: concat_eq_Nil_conv split: option.split)

lemma fence_spec_state: "fst (fence_spec p b) = Some b"
  by (cases p) simp_all

lemma link_spec_state: "fst (link_spec p s) = Some s"
  by (cases p) simp_all

lemma target_step_frame:
  "prevLink (fst (target_step now e ct)) = prevLink e"
  "prevInside (fst (target_step now e ct)) = prevInside e"
  by (simp_all add: target_step_def Let_def split_beta)

lemma target_step_says:
  "k \<noteq> CommandAlert \<Longrightarrow> concat (map (sev_of k j) (snd (target_step now e ct))) = []"
  by (simp add: target_step_def Let_def split_beta sev_of_def)

interpretation fence_robot: simulation "robot_step inside now" fence_spec
    "\<lambda>e. map_of (prevInside e) i" "sev_of GeofenceAlert i" "fence_obs inside i"
  for inside now i
  by unfold_locales
    (auto simp: robot_step_def split_beta fence_obs_def link_step_frame fence_step_frame
      link_step_says fence_step_says fence_spec_state prod_eq_iff)

interpretation link_robot: simulation "robot_step inside now" link_spec
    "\<lambda>e. map_of (prevLink e) i" "sev_of LinkAlert i" "link_obs i"
  for inside now i
  by unfold_locales
    (auto simp: robot_step_def split_beta link_obs_def link_step_frame fence_step_frame
      link_step_says fence_step_says link_spec_state prod_eq_iff)

lemma run_target_frame:
  "prevLink (fst (run (target_step now) e cts)) = prevLink e"
  "prevInside (fst (run (target_step now) e cts)) = prevInside e"
  by (induction cts arbitrary: e) (simp_all add: split_beta target_step_frame)

lemma run_target_says:
  "k \<noteq> CommandAlert \<Longrightarrow> concat (map (sev_of k j) (snd (run (target_step now) e cts))) = []"
  by (induction cts arbitrary: e) (simp_all add: split_beta target_step_says)

interpretation fence_frame: simulation "\<lambda>e (f, now). ingest inside e f now" fence_spec
    "\<lambda>e. map_of (prevInside e) i" "sev_of GeofenceAlert i" "frames_obs (fence_obs inside i)"
  for inside i
  by unfold_locales
    (auto simp: ingest_def frames_obs_def split_beta fence_robot.run_refines
      run_target_frame run_target_says)

interpretation link_frame: simulation "\<lambda>e (f, now). ingest inside e f now" link_spec
    "\<lambda>e. map_of (prevLink e) i" "sev_of LinkAlert i" "frames_obs (link_obs i)"
  for inside i
  by unfold_locales
    (auto simp: ingest_def frames_obs_def split_beta link_robot.run_refines
      run_target_frame run_target_says)

section \<open>Command failures: one alert per distinct key\<close>

fun cmd_spec :: "string set \<Rightarrow> string \<Rightarrow> string set \<times> string list" where
  "cmd_spec S k = (insert k S, if k \<in> S then [] else [k])"

declare cmd_spec.simps [simp del]

definition cmd_obs :: "string \<times> target_status \<Rightarrow> string list" where
  "cmd_obs ct = (if tg_state (snd ct) \<in> set TERMINAL_FAILURES
     then [cmd_key (fst ct) (tg_robot_id (snd ct))] else [])"

definition failed_keys :: "(swarm_state \<times> int) list \<Rightarrow> string list" where
  "failed_keys fs = concat (map (\<lambda>(f, _). concat (map cmd_obs (cmd_targets f))) fs)"

definition is_cmd_alert :: "alert \<Rightarrow> bool" where
  "is_cmd_alert a \<longleftrightarrow> al_kind a = CommandAlert"

lemma run_cmd_spec_state: "fst (run cmd_spec S ks) = S \<union> set ks"
  by (induction ks arbitrary: S) (simp_all add: split_beta cmd_spec.simps[of _ "_ :: string"])

lemma run_cmd_spec_count:
  "finite S \<Longrightarrow> length (snd (run cmd_spec S ks)) + card S = card (S \<union> set ks)"
proof (induction ks arbitrary: S)
  case Nil
  then show ?case by simp
next
  case (Cons k ks)
  have "length (snd (run cmd_spec (insert k S) ks)) + card (insert k S) = card (insert k S \<union> set ks)"
    using Cons by blast
  then show ?case
    using Cons.prems
    by (cases "k \<in> S") (simp_all add: split_beta insert_absorb cmd_spec.simps[of S k])
qed

text \<open>Each command alert is counted by one output of the abstract machine.\<close>

lemma link_step_no_cmd: "filter is_cmd_alert (snd (link_step now e r)) = []"
  by (simp add: link_step_def linkAlert_def Let_def split_beta is_cmd_alert_def split: option.split)

lemma fence_step_no_cmd: "filter is_cmd_alert (snd (fence_step inside now e r)) = []"
  by (simp add: fence_step_def Let_def split_beta is_cmd_alert_def split: option.split)

lemma robot_step_no_cmd:
  "filter is_cmd_alert (snd (robot_step inside now e r)) = []"
  "seenCmdTargets (fst (robot_step inside now e r)) = seenCmdTargets e"
  using link_step_no_cmd fence_step_no_cmd
  by (simp_all add: robot_step_def split_beta link_step_frame fence_step_frame)

lemma run_robot_no_cmd:
  "filter is_cmd_alert (snd (run (robot_step inside now) e rs)) = []"
  "seenCmdTargets (fst (run (robot_step inside now) e rs)) = seenCmdTargets e"
  using robot_step_no_cmd by (induction rs arbitrary: e) (simp_all add: split_beta)

lemma target_step_cmd:
  "set (seenCmdTargets (fst (target_step now e ct))) =
     fst (run cmd_spec (set (seenCmdTargets e)) (cmd_obs ct))"
  "length (filter is_cmd_alert (snd (target_step now e ct))) =
     length (snd (run cmd_spec (set (seenCmdTargets e)) (cmd_obs ct)))"
  by (auto simp: target_step_def cmd_obs_def Let_def split_beta is_cmd_alert_def insert_absorb
      cmd_spec.simps)

lemma run_target_cmd:
  "set (seenCmdTargets (fst (run (target_step now) e cts))) =
     fst (run cmd_spec (set (seenCmdTargets e)) (concat (map cmd_obs cts)))"
  "length (filter is_cmd_alert (snd (run (target_step now) e cts))) =
     length (snd (run cmd_spec (set (seenCmdTargets e)) (concat (map cmd_obs cts))))"
  by (induction cts arbitrary: e) (simp_all add: split_beta target_step_cmd run_append)

lemma ingest_all_cmd:
  "set (seenCmdTargets (fst (ingest_all inside e fs))) =
     fst (run cmd_spec (set (seenCmdTargets e)) (failed_keys fs))"
  "length (filter is_cmd_alert (snd (ingest_all inside e fs))) =
     length (snd (run cmd_spec (set (seenCmdTargets e)) (failed_keys fs)))"
  by (induction fs arbitrary: e)
    (auto simp: ingest_all_def failed_keys_def ingest_def split_beta run_append run_robot_no_cmd
      run_target_cmd)

text \<open>The key separates its two parts when command ids hold no colon.\<close>

lemma cmd_key_inj:
  assumes "CHR '':'' \<notin> set c" "CHR '':'' \<notin> set c'" "cmd_key c r = cmd_key c' r'"
  shows "c = c' \<and> r = r'"
  using split_at_first[OF assms(1,2), of r r'] assms(3) by (simp add: cmd_key_def)

section \<open>Repeated frames\<close>

definition settled :: "(jsnum \<Rightarrow> jsnum \<Rightarrow> bool) \<Rightarrow> engine \<Rightarrow> robot_state \<Rightarrow> bool" where
  "settled inside e r \<longleftrightarrow>
     map_of (prevLink e) (rb_id r) = Some (rb_link_status r) \<and>
     (rb_link_status r \<noteq> LINK_LOST \<longrightarrow> map_of (prevInside e) (rb_id r) =
        Some (inside (tl_x (rb_telemetry r)) (tl_y (rb_telemetry r))))"

lemma link_step_settled: "settled inside e r \<Longrightarrow> snd (link_step now e r) = []"
  by (simp add: link_step_def settled_def Let_def split_beta)

lemma fence_step_settled:
  "settled inside e r \<Longrightarrow> map_of (prevInside e') = map_of (prevInside e) \<Longrightarrow>
     snd (fence_step inside now e' r) = []"
  by (simp add: fence_step_def settled_def Let_def)

lemma robot_step_settled:
  assumes "settled inside e r"
  shows "snd (robot_step inside now e r) = []"
    and "settled inside (fst (robot_step inside now e r)) r' = settled inside e r'"
  using link_step_settled[OF assms, of now]
    fence_step_settled[OF assms, of "fst (link_step now e r)" now] assms
  by (auto simp: robot_step_def split_beta link_step_frame fence_step_frame settled_def)

lemma run_robot_settled:
  "list_all (settled inside e) rs \<Longrightarrow> snd (run (robot_step inside now) e rs) = []"
proof (induction rs arbitrary: e)
  case Nil
  then show ?case by simp
next
  case (Cons r rs)
  then have "settled inside e r" and rest: "list_all (settled inside e) rs" by auto
  note quiet = robot_step_settled[OF this(1)]
  have "list_all (settled inside (fst (robot_step inside now e r))) rs"
    using rest by (simp add: quiet(2) list_all_iff)
  with Cons.IH show ?case by (simp add: split_beta quiet(1))
qed

lemma obs_of_member:
  assumes "distinct (map rb_id rs)" "r \<in> set rs" "\<And>q. rb_id q \<noteq> rb_id r \<Longrightarrow> ob q = []"
  shows "concat (map ob rs) = ob r"
  using assms
proof (induction rs)
  case Nil
  then show ?case by simp
next
  case (Cons q qs)
  show ?case
  proof (cases "q = r")
    case True
    with Cons.prems(1) have "rb_id q' \<noteq> rb_id r" if "q' \<in> set qs" for q'
      using that by (simp add: image_iff) metis
    with Cons.prems(3) have "concat (map ob qs) = []" by simp
    with True show ?thesis by simp
  next
    case False
    with Cons.prems have "ob q = []" "r \<in> set qs" by (auto simp: image_iff)
    with Cons show ?thesis by simp
  qed
qed

lemma run_robot_settles:
  assumes "distinct (map rb_id rs)"
  shows "list_all (settled inside (fst (run (robot_step inside now) e rs))) rs"
proof -
  have "settled inside (fst (run (robot_step inside now) e rs)) r" if r: "r \<in> set rs" for r
    using link_robot.run_refines[where i = "rb_id r" and es = rs and s = e and inside = inside and now = now]
      fence_robot.run_refines[where i = "rb_id r" and es = rs and s = e and inside = inside and now = now]
      obs_of_member[OF assms r, of "link_obs (rb_id r)"]
      obs_of_member[OF assms r, of "fence_obs inside (rb_id r)"]
    by (auto simp: settled_def link_obs_def fence_obs_def link_spec_state fence_spec_state
        prod_eq_iff split_beta split: if_splits)
  then show ?thesis by (simp add: list_all_iff)
qed

lemma target_step_seen:
  "set (cmd_obs ct) \<subseteq> set (seenCmdTargets e) \<Longrightarrow> target_step now e ct = (e, [])"
  by (auto simp: target_step_def cmd_obs_def Let_def split_beta split: if_splits)

lemma run_target_seen:
  "set (concat (map cmd_obs cts)) \<subseteq> set (seenCmdTargets e) \<Longrightarrow>
     snd (run (target_step now) e cts) = []"
  by (induction cts) (auto simp: target_step_seen)

lemma settled_cong:
  "prevLink e = prevLink e' \<Longrightarrow> prevInside e = prevInside e' \<Longrightarrow> settled inside e = settled inside e'"
  by (auto simp: settled_def fun_eq_iff)

section \<open>Properties\<close>

text \<open>C21: Over any session, whatever the frames, the geofence alerts the engine raises about a
  robot are exactly the edges of that robot's inside/outside signal, sampled in the frames
  where it is not LOST: one critical alert per exit (or first sighting outside), one info
  alert per re-entry, none while the signal is steady.\<close>

theorem geofence_alerts_are_edges:
  "concat (map (sev_of GeofenceAlert i) (snd (ingest_all inside new_engine fs))) =
   snd (run fence_spec None (concat (map (frames_obs (fence_obs inside i)) fs)))"
  using fence_frame.run_refines[where i = i and inside = inside and s = new_engine and es = fs]
  by (simp add: ingest_all_def new_engine_def)

text \<open>C22: Over any session the link alerts about a robot are exactly the transitions of its
  link status: STALE warns, LOST is critical, recovery from either to LIVE is info, a steady
  status and the first sighting are silent.\<close>

theorem link_alerts_are_transitions:
  "concat (map (sev_of LinkAlert i) (snd (ingest_all inside new_engine fs))) =
   snd (run link_spec None (concat (map (frames_obs (link_obs i)) fs)))"
  using link_frame.run_refines[where i = i and inside = inside and s = new_engine and es = fs]
  by (simp add: ingest_all_def new_engine_def)

text \<open>Over any session the engine raises exactly one command alert per distinct
  command/target key that was ever reported REJECTED, EXPIRED or ROBOT_OFFLINE, however many
  frames repeat the report.\<close>

theorem command_alerts_once:
  "length (filter is_cmd_alert (snd (ingest_all inside new_engine fs))) =
   card (set (failed_keys fs))"
  using ingest_all_cmd(2)[of inside new_engine fs] run_cmd_spec_count[of "{}" "failed_keys fs"]
  by (simp add: new_engine_def)

text \<open>The alerts of a session carry the ids alert-0, alert-1, ... in the order they are
  raised, and no id repeats.\<close>

theorem alert_ids_consecutive:
  "map al_id (snd (ingest_all inside new_engine fs)) =
     alert_ids 0 (length (snd (ingest_all inside new_engine fs))) \<and>
   distinct (map al_id (snd (ingest_all inside new_engine fs)))"
  using numbered_ingest_all[of new_engine inside fs] distinct_alert_ids
  by (simp add: numbered_def new_engine_def)

text \<open>Ingesting the same frame again is silent: no alert repeats while nothing changes
  (frames that list each robot once).\<close>

theorem repeated_frame_silent:
  assumes "distinct (map rb_id (sw_robots f))"
  shows "snd (ingest inside (fst (ingest inside e f t)) f t') = []"
proof -
  define e1 where "e1 = fst (run (robot_step inside t) e (sw_robots f))"
  define e2 where "e2 = fst (run (target_step t) e1 (cmd_targets f))"
  define e3 where "e3 = fst (run (robot_step inside t') e2 (sw_robots f))"
  have "prevLink e2 = prevLink e1" "prevInside e2 = prevInside e1"
    by (simp_all add: e2_def run_target_frame)
  then have "list_all (settled inside e2) (sw_robots f)"
    using run_robot_settles[OF assms] settled_cong[of e2 e1] by (simp add: e1_def)
  then have quiet: "snd (run (robot_step inside t') e2 (sw_robots f)) = []"
    by (rule run_robot_settled)
  have "set (seenCmdTargets e3) = set (seenCmdTargets e2)"
    by (simp add: e3_def run_robot_no_cmd)
  then have "snd (run (target_step t') e3 (cmd_targets f)) = []"
    by (intro run_target_seen) (simp add: e2_def run_target_cmd run_cmd_spec_state)
  with quiet show ?thesis
    by (simp add: ingest_def split_beta e1_def e2_def e3_def)
qed

definition sample_robot :: "string \<Rightarrow> link_status \<Rightarrow> jsnum \<Rightarrow> robot_state" where
  "sample_robot i l x = \<lparr>rb_telemetry = \<lparr>tl_robot_id = i, tl_seq = 0, tl_timestamp = None, tl_x = x,
     tl_y = Fin 0, tl_heading = Fin 0, tl_speed = Fin 0, tl_radius = Fin 0\<rparr>,
     rb_link_status = l, rb_age_ms = 0\<rparr>"

definition sample_frame :: "robot_state list \<Rightarrow> command_status list \<Rightarrow> swarm_state" where
  "sample_frame rs cs = \<lparr>sw_seq = 0, sw_server_time = None, sw_robots = rs, sw_commands = cs\<rparr>"

theorem repeated_frame_silent_witness:
  "snd (ingest (\<lambda>x y. x < Fin 100)
     (fst (ingest (\<lambda>x y. x < Fin 100) new_engine
       (sample_frame [sample_robot ''R-1'' LINK_LIVE (Fin 200), sample_robot ''R-2'' LINK_STALE (Fin 0)] []) 0))
     (sample_frame [sample_robot ''R-1'' LINK_LIVE (Fin 200), sample_robot ''R-2'' LINK_STALE (Fin 0)] []) 1)
   = []"
  by (rule repeated_frame_silent) (simp add: sample_frame_def sample_robot_def)

text \<open>The debounce key joins the command id and the robot id with a colon, so ids that
  contain colons can share a key: of these two distinct failed targets only the first is
  ever alerted.\<close>

theorem colon_ids_lose_an_alert:
  "map al_robotId (snd (ingest (\<lambda>x y. True) new_engine
     (sample_frame []
       [\<lparr>cs_command_id = ''a:b'', cs_targets =
           [\<lparr>tg_robot_id = ''c'', tg_state = CMD_REJECTED, tg_detail = ''''\<rparr>]\<rparr>,
        \<lparr>cs_command_id = ''a'', cs_targets =
           [\<lparr>tg_robot_id = ''b:c'', tg_state = CMD_EXPIRED, tg_detail = ''''\<rparr>]\<rparr>]) 0))
   = [''c'']"
  by (simp add: ingest_def sample_frame_def cmd_targets_def target_step_def cmd_key_def
      TERMINAL_FAILURES_def new_engine_def mk_def js_add_def)

end
