(* ===== verification/UseSwarm.thy ===== *)
theory UseSwarm
  imports AlertEngine
begin

text \<open>
  \<open>web/src/useSwarm.ts\<close>: the WebSocket seam of the browser. The state is the hook's
  \<open>useState\<close> cells and refs, the two variables of the effect's closure (\<open>closed\<close> and the
  pending \<open>retry\<close> timer), and the ready states of the sockets it has opened (the newest is
  \<open>wsRef.current\<close>). An event is a callback of the browser; an event that the browser cannot
  deliver in the current state (a message on a closed socket, a timer that is not pending)
  changes nothing. Trails are the \<open>Map\<close> from robot id to its capped position history.
\<close>

section \<open>Trails\<close>

definition TRAIL_LEN :: nat where "TRAIL_LEN = 50"

type_synonym trails = "(string, (jsnum \<times> jsnum) list) jsmap"

definition push_pos :: "jsnum \<times> jsnum \<Rightarrow> (jsnum \<times> jsnum) list \<Rightarrow> (jsnum \<times> jsnum) list" where
  "push_pos p hist = (let h = hist @ [p] in if length h > TRAIL_LEN then tl h else h)"

definition push_trail :: "trails \<Rightarrow> robot_state \<Rightarrow> trails" where
  "push_trail trails r =
     (if rb_link_status r = LINK_LOST then trails
      else let i = rb_id r;
               hist = (case map_of trails i of None \<Rightarrow> [] | Some h \<Rightarrow> h)
           in AList.update i (push_pos (tl_x (rb_telemetry r), tl_y (rb_telemetry r)) hist) trails)"

definition pushTrails :: "trails \<Rightarrow> swarm_state \<Rightarrow> trails" where
  "pushTrails trails state = foldl push_trail trails (sw_robots state)"

section \<open>The hook\<close>

datatype ready_state = CONNECTING | OPEN | CLOSING | CLOSED

record swarm_status =
  ss_ws :: bool
  ss_source :: "source_kind option"
  ss_connected :: bool
  ss_detail :: string

record swarm_hook =
  sh_frame :: "swarm_state option"
  sh_status :: swarm_status
  sh_trails :: trails
  sh_sockets :: "ready_state list"
  sh_cmdSeq :: nat
  sh_closed :: bool
  sh_retry :: bool

text \<open>\<open>connect()\<close> opens a socket and makes it current; the hook connects when it mounts.\<close>

definition connect :: "swarm_hook \<Rightarrow> swarm_hook" where
  "connect h = h\<lparr>sh_sockets := sh_sockets h @ [CONNECTING]\<rparr>"

definition mounted_swarm :: swarm_hook where
  "mounted_swarm = connect
     \<lparr>sh_frame = None,
      sh_status = \<lparr>ss_ws = False, ss_source = None, ss_connected = False,
                   ss_detail = ''connecting to bridge'' @ ellipsis\<rparr>,
      sh_trails = [], sh_sockets = [], sh_cmdSeq = 0, sh_closed = False, sh_retry = False\<rparr>"

definition ws_current :: "swarm_hook \<Rightarrow> ready_state option" where
  "ws_current h = (if sh_sockets h = [] then None else Some (last (sh_sockets h)))"

text \<open>\<open>ws.close()\<close>: a connecting or open socket starts closing; otherwise nothing happens.\<close>

fun close_state :: "ready_state \<Rightarrow> ready_state" where
  "close_state CONNECTING = CLOSING"
| "close_state OPEN = CLOSING"
| "close_state s = s"

definition on_open :: "swarm_hook \<Rightarrow> swarm_hook" where
  "on_open h = h\<lparr>sh_status := (sh_status h)\<lparr>ss_ws := True, ss_detail := ''bridge connected''\<rparr>\<rparr>"

fun on_ws_message :: "swarm_hook \<Rightarrow> server_message \<Rightarrow> swarm_hook" where
  "on_ws_message h (SwarmMsg state) =
     h\<lparr>sh_trails := pushTrails (sh_trails h) state, sh_frame := Some state\<rparr>"
| "on_ws_message h (StatusMsg conn source detail) =
     h\<lparr>sh_status := (sh_status h)\<lparr>ss_source := Some source, ss_connected := conn,
                                   ss_detail := detail\<rparr>\<rparr>"
| "on_ws_message h (AckMsg _ _ _) = h"

definition on_close :: "swarm_hook \<Rightarrow> swarm_hook" where
  "on_close h =
     (let h1 = h\<lparr>sh_status := (sh_status h)\<lparr>ss_ws := False, ss_connected := False,
                                             ss_detail := ''bridge disconnected''\<rparr>\<rparr>
      in if \<not> sh_closed h1 then h1\<lparr>sh_retry := True\<rparr> else h1)"

definition set_socket :: "nat \<Rightarrow> ready_state \<Rightarrow> swarm_hook \<Rightarrow> swarm_hook" where
  "set_socket k s h = h\<lparr>sh_sockets := (sh_sockets h)[k := s]\<rparr>"

definition unmount :: "swarm_hook \<Rightarrow> swarm_hook" where
  "unmount h = h\<lparr>sh_closed := True, sh_retry := False,
     sh_sockets := (if sh_sockets h = [] then []
                    else butlast (sh_sockets h) @ [close_state (last (sh_sockets h))])\<rparr>"

datatype swarm_event =
    WsOpen nat
  | WsMessage nat server_message
  | WsClose nat
  | WsError nat
  | RetryFires
  | Unmount

fun swarm_step :: "swarm_hook \<Rightarrow> swarm_event \<Rightarrow> swarm_hook" where
  "swarm_step h (WsOpen k) =
     (if k < length (sh_sockets h) \<and> sh_sockets h ! k = CONNECTING
      then on_open (set_socket k OPEN h) else h)"
| "swarm_step h (WsMessage k msg) =
     (if k < length (sh_sockets h) \<and> sh_sockets h ! k = OPEN then on_ws_message h msg else h)"
| "swarm_step h (WsClose k) =
     (if k < length (sh_sockets h) \<and> sh_sockets h ! k \<noteq> CLOSED
      then on_close (set_socket k CLOSED h) else h)"
| "swarm_step h (WsError k) =
     (if k < length (sh_sockets h) \<and> sh_sockets h ! k \<noteq> CLOSED
      then set_socket k (close_state (sh_sockets h ! k)) h else h)"
| "swarm_step h RetryFires = (if sh_retry h then connect (h\<lparr>sh_retry := False\<rparr>) else h)"
| "swarm_step h Unmount = (if sh_closed h then h else unmount h)"

definition swarm_session :: "swarm_event list \<Rightarrow> swarm_hook" where
  "swarm_session evs = foldl swarm_step mounted_swarm evs"

section \<open>Sending commands\<close>

definition web_id :: "nat \<Rightarrow> nat \<Rightarrow> string" where
  "web_id now n = ''web-'' @ radix_str 36 now @ ''-'' @ nat_str n"

definition issue_web_id :: "nat \<Rightarrow> swarm_hook \<Rightarrow> string option \<Rightarrow> swarm_hook \<times> string" where
  "issue_web_id now h given =
     (case given of
        Some i \<Rightarrow> (h, i)
      | None \<Rightarrow> (h\<lparr>sh_cmdSeq := Suc (sh_cmdSeq h)\<rparr>, web_id now (sh_cmdSeq h)))"

text \<open>The result is the id and what goes out on the current socket: nothing unless it is open.\<close>

definition swarm_sendCommand ::
  "nat \<Rightarrow> swarm_hook \<Rightarrow> command_intent \<Rightarrow> swarm_hook \<times> string \<times> client_message list"
where
  "swarm_sendCommand now h intent =
     (let (h1, command_id) = issue_web_id now h (in_command_id intent) in
      (h1, command_id,
       if ws_current h1 = Some OPEN
       then [CommandMsg (intent\<lparr>in_command_id := Some command_id\<rparr>)] else []))"

section \<open>Trails refine the full history\<close>

definition trail_of :: "trails \<Rightarrow> string \<Rightarrow> (jsnum \<times> jsnum) list" where
  "trail_of t i = (case map_of t i of None \<Rightarrow> [] | Some h \<Rightarrow> h)"

definition trail_obs :: "string \<Rightarrow> robot_state \<Rightarrow> (jsnum \<times> jsnum) list" where
  "trail_obs i r = (if rb_id r = i \<and> rb_link_status r \<noteq> LINK_LOST
     then [(tl_x (rb_telemetry r), tl_y (rb_telemetry r))] else [])"

definition track :: "string \<Rightarrow> swarm_state list \<Rightarrow> (jsnum \<times> jsnum) list" where
  "track i fs = concat (map (\<lambda>f. concat (map (trail_obs i) (sw_robots f))) fs)"

interpretation trail_log: bounded_log push_pos "\<lambda>p. [p]" "\<lambda>l. l" TRAIL_LEN
proof unfold_locales
  fix l :: "(jsnum \<times> jsnum) list" and p
  assume "length l \<le> TRAIL_LEN"
  then show "push_pos p l = latest TRAIL_LEN (l @ [p])"
    by (cases "length l = TRAIL_LEN")
      (cases l, auto simp: push_pos_def Let_def latest_def TRAIL_LEN_def drop_Suc)+
qed

lemma trail_push:
  "trail_of (push_trail t r) i = fold push_pos (trail_obs i r) (trail_of t i)"
  by (auto simp: push_trail_def trail_of_def trail_obs_def Let_def)

lemma trail_push_list:
  "trail_of (foldl push_trail t rs) i = fold push_pos (concat (map (trail_obs i) rs)) (trail_of t i)"
  by (induction rs arbitrary: t) (simp_all add: trail_push)

lemma trail_frames:
  "trail_of (foldl pushTrails t fs) i = fold push_pos (track i fs) (trail_of t i)"
  by (induction fs arbitrary: t) (simp_all add: pushTrails_def trail_push_list track_def)

lemma concat_singletons: "concat (map (\<lambda>p. [p]) ps) = ps"
  by (induction ps) simp_all

lemma trail_latest: "trail_of (foldl pushTrails [] fs) i = latest TRAIL_LEN (track i fs)"
  using trail_log.fold_view[of "trail_of [] i" "track i fs"]
  by (simp add: trail_frames concat_singletons) (simp add: trail_of_def)

lemma track_append: "track i (fs @ gs) = track i fs @ track i gs"
  by (simp add: track_def)

lemma track_replicate:
  "concat (map (trail_obs i) (sw_robots f)) = [p] \<Longrightarrow> track i (replicate n f) = replicate n p"
  by (induction n) (simp_all add: track_def)

section \<open>The connection\<close>

text \<open>All sockets but the current one are closed; a retry is pending exactly when the current
  one is closed and the component is still mounted.\<close>

definition swarm_inv :: "swarm_hook \<Rightarrow> bool" where
  "swarm_inv h \<longleftrightarrow> sh_sockets h \<noteq> [] \<and>
     (\<forall>k < length (sh_sockets h) - 1. sh_sockets h ! k = CLOSED) \<and>
     (sh_retry h \<longleftrightarrow> last (sh_sockets h) = CLOSED \<and> \<not> sh_closed h) \<and>
     (sh_closed h \<longrightarrow> last (sh_sockets h) \<in> {CLOSING, CLOSED})"

lemma swarm_inv_mounted [inv_intros]: "swarm_inv mounted_swarm"
  by (simp add: swarm_inv_def mounted_swarm_def connect_def)

lemma on_ws_message_fields [simp]:
  "sh_sockets (on_ws_message h m) = sh_sockets h"
  "sh_closed (on_ws_message h m) = sh_closed h"
  "sh_retry (on_ws_message h m) = sh_retry h"
  "sh_cmdSeq (on_ws_message h m) = sh_cmdSeq h"
  by (cases m; simp)+

lemma live_is_current:
  assumes "swarm_inv h" "k < length (sh_sockets h)" "sh_sockets h ! k \<noteq> CLOSED"
  shows "k = length (sh_sockets h) - 1"
  using assms unfolding swarm_inv_def by (metis Suc_pred' length_greater_0_conv less_Suc_eq)

lemma last_update: "xs \<noteq> [] \<Longrightarrow> last (xs[length xs - Suc 0 := v]) = v"
  by (simp add: last_conv_nth)

lemma swarm_inv_set:
  assumes "swarm_inv h" "k = length (sh_sockets h) - 1"
    "sh_retry h' \<longleftrightarrow> s = CLOSED \<and> \<not> sh_closed h" "sh_closed h \<longrightarrow> s \<in> {CLOSING, CLOSED}"
    "sh_sockets h' = (sh_sockets h)[k := s]" "sh_closed h' = sh_closed h"
  shows "swarm_inv h'"
  using assms by (auto simp: swarm_inv_def last_update)

lemma swarm_inv_step: "swarm_inv h \<Longrightarrow> swarm_inv (swarm_step h ev)"
proof (cases ev)
  case (WsOpen k)
  assume inv: "swarm_inv h"
  show ?thesis
  proof (cases "k < length (sh_sockets h) \<and> sh_sockets h ! k = CONNECTING")
    case True
    with inv have k: "k = length (sh_sockets h) - 1" by (intro live_is_current) auto
    with True inv have "\<not> sh_closed h" "\<not> sh_retry h"
      by (auto simp: swarm_inv_def last_conv_nth)
    then show ?thesis using True WsOpen
      by (intro swarm_inv_set[OF inv k, where s = OPEN]) (auto simp: on_open_def set_socket_def)
  next
    case False
    with inv WsOpen show ?thesis by auto
  qed
next
  case (WsMessage k m)
  assume "swarm_inv h"
  then show ?thesis by (auto simp: swarm_inv_def WsMessage)
next
  case (WsClose k)
  assume inv: "swarm_inv h"
  show ?thesis
  proof (cases "k < length (sh_sockets h) \<and> sh_sockets h ! k \<noteq> CLOSED")
    case True
    with inv have k: "k = length (sh_sockets h) - 1" by (intro live_is_current) auto
    with True inv have "\<not> sh_retry h" by (auto simp: swarm_inv_def last_conv_nth)
    then show ?thesis using True WsClose
      by (intro swarm_inv_set[OF inv k, where s = CLOSED])
        (auto simp: on_close_def set_socket_def Let_def)
  next
    case False
    with inv WsClose show ?thesis by auto
  qed
next
  case (WsError k)
  assume inv: "swarm_inv h"
  show ?thesis
  proof (cases "k < length (sh_sockets h) \<and> sh_sockets h ! k \<noteq> CLOSED")
    case True
    with inv have k: "k = length (sh_sockets h) - 1" by (intro live_is_current) auto
    with True inv have "\<not> sh_retry h" by (auto simp: swarm_inv_def last_conv_nth)
    with True show ?thesis using WsError
      by (intro swarm_inv_set[OF inv k, where s = CLOSING])
        (cases "sh_sockets h ! k"; simp add: set_socket_def)+
  next
    case False
    with inv WsError show ?thesis by auto
  qed
next
  case RetryFires
  assume inv: "swarm_inv h"
  then obtain xs s where "sh_sockets h = xs @ [s]"
    by (metis swarm_inv_def append_butlast_last_id)
  with inv show ?thesis
    by (auto simp: swarm_inv_def RetryFires connect_def nth_append less_Suc_eq)
next
  case Unmount
  assume inv: "swarm_inv h"
  then obtain xs s where "sh_sockets h = xs @ [s]"
    by (metis swarm_inv_def append_butlast_last_id)
  with inv show ?thesis
    by (cases s) (auto simp: swarm_inv_def Unmount unmount_def nth_append)
qed

lemma swarm_inv_session: "swarm_inv (swarm_session evs)"
proof -
  have "swarm_inv (foldl swarm_step h evs)" if "swarm_inv h" for h
    using that by (induction evs arbitrary: h) (auto simp: swarm_inv_step)
  then show ?thesis by (simp add: swarm_session_def swarm_inv_mounted)
qed

section \<open>Reconnecting\<close>

text \<open>What the browser owes the hook: a connecting socket opens, a closing one is closed, a
  pending timer fires. Calm is everything but a lost connection and the end of the page.\<close>

definition newest :: "swarm_hook \<Rightarrow> nat" where
  "newest h = length (sh_sockets h) - 1"

definition swarm_owed :: "swarm_hook \<Rightarrow> swarm_event list" where
  "swarm_owed h = (case last (sh_sockets h) of
     CONNECTING \<Rightarrow> [WsOpen (newest h)] | CLOSING \<Rightarrow> [WsClose (newest h)]
   | CLOSED \<Rightarrow> [RetryFires] | OPEN \<Rightarrow> [])"

definition swarm_calm :: "swarm_hook \<Rightarrow> swarm_event \<Rightarrow> bool" where
  "swarm_calm h ev = (case ev of
     WsClose k \<Rightarrow> k = newest h \<longrightarrow> last (sh_sockets h) \<in> {CLOSING, CLOSED}
   | WsError k \<Rightarrow> k = newest h \<longrightarrow> last (sh_sockets h) \<in> {CLOSING, CLOSED}
   | Unmount \<Rightarrow> False
   | _ \<Rightarrow> True)"

definition swarm_distance :: "swarm_hook \<Rightarrow> nat" where
  "swarm_distance h = (case last (sh_sockets h) of OPEN \<Rightarrow> 0 | CONNECTING \<Rightarrow> 1 | CLOSED \<Rightarrow> 2 | CLOSING \<Rightarrow> 3)"

definition swarm_mounted :: "swarm_hook \<Rightarrow> bool" where
  "swarm_mounted h \<longleftrightarrow> swarm_inv h \<and> \<not> sh_closed h \<and> (last (sh_sockets h) = OPEN \<longrightarrow> ss_ws (sh_status h))"

lemma message_ws [simp]: "ss_ws (sh_status (on_ws_message h m)) = ss_ws (sh_status h)"
  by (cases m) simp_all

lemma swarm_ready_step:
  assumes "swarm_mounted h" "ev \<noteq> Unmount"
  shows "swarm_mounted (swarm_step h ev)"
proof -
  have inv: "swarm_inv h" and ne: "sh_sockets h \<noteq> []" using assms(1) by (auto simp: swarm_mounted_def swarm_inv_def)
  have cur: "k < length (sh_sockets h) \<Longrightarrow> sh_sockets h ! k \<noteq> CLOSED \<Longrightarrow> k = length (sh_sockets h) - Suc 0" for k
    using live_is_current[OF inv, of k] by simp
  have "\<not> sh_closed (swarm_step h ev) \<and>
      (last (sh_sockets (swarm_step h ev)) = OPEN \<longrightarrow> ss_ws (sh_status (swarm_step h ev)))"
    using assms ne
    by (cases ev)
      (auto simp: swarm_mounted_def on_open_def on_close_def connect_def set_socket_def Let_def last_update
        split: if_splits dest!: cur elim: close_state.elims)
  then show ?thesis using swarm_inv_step[OF inv] by (simp add: swarm_mounted_def)
qed

lemma swarm_calm_step:
  assumes "swarm_mounted h" "swarm_calm h ev"
  shows "swarm_distance (swarm_step h ev) \<le> swarm_distance h"
proof -
  have inv: "swarm_inv h" and ne: "sh_sockets h \<noteq> []" using assms(1) by (auto simp: swarm_mounted_def swarm_inv_def)
  have cur: "k < length (sh_sockets h) \<Longrightarrow> sh_sockets h ! k \<noteq> CLOSED \<Longrightarrow> k = length (sh_sockets h) - Suc 0" for k
    using live_is_current[OF inv, of k] by simp
  have retry: "sh_retry h \<Longrightarrow> last (sh_sockets h) = CLOSED" using inv by (simp add: swarm_inv_def)
  have lst: "sh_sockets h ! (length (sh_sockets h) - Suc 0) = last (sh_sockets h)" using ne by (simp add: last_conv_nth)
  show ?thesis
    using assms ne retry
    by (cases ev)
      (auto simp: swarm_calm_def swarm_distance_def newest_def on_open_def on_close_def connect_def set_socket_def Let_def
        last_update lst split: if_splits ready_state.splits dest!: cur)
qed

lemma swarm_owed_step:
  assumes "swarm_mounted h"
  shows "swarm_mounted (foldl swarm_step h (swarm_owed h)) \<and>
    swarm_distance (foldl swarm_step h (swarm_owed h)) \<le> swarm_distance h - 1"
proof -
  have inv: "swarm_inv h" and alive: "\<not> sh_closed h" and ne: "sh_sockets h \<noteq> []"
    using assms by (auto simp: swarm_mounted_def swarm_inv_def)
  have retry: "sh_retry h \<longleftrightarrow> last (sh_sockets h) = CLOSED" using inv alive by (simp add: swarm_inv_def)
  have lst: "sh_sockets h ! (length (sh_sockets h) - Suc 0) = last (sh_sockets h)" using ne by (simp add: last_conv_nth)
  have "swarm_distance (foldl swarm_step h (swarm_owed h)) \<le> swarm_distance h - 1"
    using ne retry
    by (cases "last (sh_sockets h)")
      (auto simp: swarm_owed_def swarm_distance_def newest_def on_open_def on_close_def connect_def set_socket_def
        Let_def last_update lst)
  moreover have "swarm_mounted (foldl swarm_step h (swarm_owed h))"
    using assms swarm_ready_step
    by (cases "last (sh_sockets h)") (simp_all add: swarm_owed_def del: swarm_step.simps)
  ultimately show ?thesis by simp
qed

interpretation swarm_progress: fair_progress swarm_step swarm_mounted swarm_calm swarm_owed swarm_distance
proof unfold_locales
  fix h ev
  assume h: "swarm_mounted h"
  show "swarm_mounted (foldl swarm_step h (swarm_owed h)) \<and>
      swarm_distance (foldl swarm_step h (swarm_owed h)) \<le> swarm_distance h - 1"
    using h by (rule swarm_owed_step)
  assume calm: "swarm_calm h ev"
  then have "ev \<noteq> Unmount" by (auto simp: swarm_calm_def)
  with h calm show "swarm_mounted (swarm_step h ev) \<and> swarm_distance (swarm_step h ev) \<le> swarm_distance h"
    by (blast intro: swarm_ready_step swarm_calm_step)
qed

lemma closed_stays: "sh_closed h \<Longrightarrow> sh_closed (swarm_step h ev)"
  by (cases ev) (auto simp: on_open_def on_close_def connect_def set_socket_def Let_def)

lemma mounted_session: "\<not> sh_closed (swarm_session evs) \<Longrightarrow> swarm_mounted (swarm_session evs)"
proof -
  have step: "sh_closed (swarm_step h ev) \<or> swarm_mounted (swarm_step h ev)"
    if "sh_closed h \<or> swarm_mounted h" for h ev
    using that closed_stays[of h ev] swarm_ready_step[of h ev]
    by (cases "ev = Unmount") (auto simp: unmount_def)
  have "sh_closed (foldl swarm_step h evs) \<or> swarm_mounted (foldl swarm_step h evs)"
    if "sh_closed h \<or> swarm_mounted h" for h
    using that by (induction evs arbitrary: h) (simp_all add: step)
  moreover have "swarm_mounted mounted_swarm"
    using swarm_inv_mounted by (simp add: swarm_mounted_def mounted_swarm_def connect_def)
  ultimately show "\<not> sh_closed (swarm_session evs) \<Longrightarrow> ?thesis"
    unfolding swarm_session_def by blast
qed

section \<open>Ids\<close>

lemma web_id_inj: "web_id t m = web_id t' n \<longleftrightarrow> t = t' \<and> m = n"
proof
  assume "web_id t m = web_id t' n"
  then have "radix_str 36 t @ CHR ''-'' # nat_str m = radix_str 36 t' @ CHR ''-'' # nat_str n"
    by (simp add: web_id_def)
  moreover have "CHR ''-'' \<notin> set (radix_str 36 k)" for k
    using radix_str_chars[of 36 "CHR ''-''" k] by auto
  ultimately have "radix_str 36 t = radix_str 36 t' \<and> nat_str m = nat_str n"
    by (intro split_at_first)
  then show "t = t' \<and> m = n" using radix_str_inj[of 36 t t'] by simp
qed simp

interpretation web_ids: id_minter web_id issue_web_id sh_cmdSeq
  by unfold_locales (simp_all add: web_id_inj issue_web_id_def)

section \<open>Properties\<close>

text \<open>A robot's trail is exactly the newest 50 positions it reported in frames where it was
  not LOST, whatever frames arrived and whatever the other robots did.\<close>

theorem trail_is_latest_50:
  "trail_of (foldl pushTrails [] fs) i = latest 50 (track i fs)"
  using trail_latest[of fs i] by (simp add: TRAIL_LEN_def)

text \<open>The comment on \<open>pushTrails\<close> says a stale robot's trail freezes where it was. It does
  not: the guard skips LOST robots only, so 50 frames (10 seconds) of a STALE robot reporting
  its frozen position replace the whole trail by 50 copies of that one point.\<close>

theorem stale_trail_collapses:
  "trail_of (foldl pushTrails [] (fs @ replicate 50 (sample_frame [sample_robot i LINK_STALE x] []))) i
   = replicate 50 (x, Fin 0)"
proof -
  have "track i (replicate 50 (sample_frame [sample_robot i LINK_STALE x] [])) = replicate 50 (x, Fin 0)"
    by (rule track_replicate) (simp add: sample_frame_def sample_robot_def trail_obs_def)
  then show ?thesis
    by (simp add: trail_latest track_append latest_append_long TRAIL_LEN_def del: foldl_append)
qed

text \<open>Whatever the browser delivers, the hook never holds two live sockets; while it is
  mounted, a reconnect is pending exactly when the current socket has closed (so the link is
  never abandoned), and after unmounting no reconnect is ever pending and no socket is left
  connecting or open.\<close>

theorem one_socket_or_retry:
  "length (filter (\<lambda>s. s \<noteq> CLOSED) (sh_sockets (swarm_session evs))) \<le> 1 \<and>
   (sh_retry (swarm_session evs) \<longleftrightarrow>
      ws_current (swarm_session evs) = Some CLOSED \<and> \<not> sh_closed (swarm_session evs)) \<and>
   (sh_closed (swarm_session evs) \<longrightarrow>
      ws_current (swarm_session evs) \<noteq> Some OPEN \<and> ws_current (swarm_session evs) \<noteq> Some CONNECTING)"
proof -
  let ?h = "swarm_session evs"
  have inv: "swarm_inv ?h" by (rule swarm_inv_session)
  then obtain xs s where xs: "sh_sockets ?h = xs @ [s]"
    by (metis swarm_inv_def append_butlast_last_id)
  have "x = CLOSED" if "x \<in> set xs" for x
  proof -
    from that obtain k where "k < length xs" "x = xs ! k" by (metis in_set_conv_nth)
    with inv xs show ?thesis by (auto simp: swarm_inv_def nth_append)
  qed
  then have "filter (\<lambda>s. s \<noteq> CLOSED) xs = []" by (simp add: filter_empty_conv)
  with inv xs show ?thesis by (auto simp: swarm_inv_def ws_current_def)
qed

theorem one_socket_or_retry_witness:
  "ws_current (swarm_session [WsOpen 0, Unmount]) \<noteq> Some OPEN \<and>
   sh_closed (swarm_session [WsOpen 0, Unmount])"
proof -
  have "sh_closed (swarm_session [WsOpen 0, Unmount])"
    by (simp add: swarm_session_def mounted_swarm_def connect_def unmount_def on_open_def set_socket_def)
  with one_socket_or_retry[of "[WsOpen 0, Unmount]"] show ?thesis by blast
qed

text \<open>Within one page load every command id the browser mints is different from every other,
  even when the clock stands still between two commands.\<close>

theorem web_ids_distinct: "distinct (minted_ids issue_web_id h rs)"
  by (rule web_ids.minted_distinct)

text \<open>A command issued while the WebSocket is not open goes nowhere, yet the caller still
  receives a fresh id for it, exactly as if it had been sent.\<close>

theorem closed_socket_drops_command:
  assumes "ws_current h \<noteq> Some OPEN" and "in_command_id intent = None"
  shows "swarm_sendCommand now h intent =
         (h\<lparr>sh_cmdSeq := Suc (sh_cmdSeq h)\<rparr>, web_id now (sh_cmdSeq h), [])"
  using assms by (auto simp: swarm_sendCommand_def issue_web_id_def ws_current_def)

theorem closed_socket_drops_command_witness:
  "swarm_sendCommand 36 mounted_swarm
     \<lparr>in_command_id = None, in_targets = [''R-1''], in_params = no_params\<rparr> =
   (mounted_swarm\<lparr>sh_cmdSeq := 1\<rparr>, web_id 36 0, [])"
proof -
  have "ws_current mounted_swarm \<noteq> Some OPEN" "sh_cmdSeq mounted_swarm = 0"
    by (simp_all add: mounted_swarm_def connect_def ws_current_def)
  from closed_socket_drops_command[OF this(1), of "\<lparr>in_command_id = None, in_targets = [''R-1''],
      in_params = no_params\<rparr>" 36] this(2)
  show ?thesis by simp
qed

text \<open>C19: The browser finds its way back: whatever has happened in a page that is still mounted, once
  the network is calm for three rounds (in each, anything but a lost connection happens, and then
  what the browser owes at that moment: the pending close, the retry timer, the opening of the
  connecting socket), the current socket is open, the status says so, commands go out on it, and
  the next frame of the bridge is shown; and it stays so as long as the calm lasts.\<close>

theorem browser_reconnects:
  assumes "\<not> sh_closed (swarm_session evs)" "3 \<le> length rs"
    and "calm_rounds swarm_step swarm_calm swarm_owed (swarm_session evs) rs"
    and "calm_run swarm_step swarm_calm (foldl (round_end swarm_step swarm_owed) (swarm_session evs) rs) es"
    and "h = foldl swarm_step (foldl (round_end swarm_step swarm_owed) (swarm_session evs) rs) es"
  shows "ws_current h = Some OPEN \<and> ss_ws (sh_status h) \<and>
    snd (snd (swarm_sendCommand now h i)) \<noteq> [] \<and>
    sh_frame (swarm_step h (WsMessage (newest h) (SwarmMsg f))) = Some f"
proof -
  let ?s = "swarm_session evs"
  have "swarm_distance ?s \<le> length rs"
    using assms(2) by (auto simp: swarm_distance_def split: ready_state.split)
  from swarm_progress.arrived[OF mounted_session[OF assms(1)] assms(3) this assms(4)]
  have h: "swarm_mounted h" "swarm_distance h = 0" using assms(5) by simp_all
  then have ne: "sh_sockets h \<noteq> []" by (auto simp: swarm_mounted_def swarm_inv_def)
  have op: "last (sh_sockets h) = OPEN"
    using h(2) by (cases "last (sh_sockets h)") (simp_all add: swarm_distance_def)
  with h(1) ne have "ws_current h = Some OPEN" "ss_ws (sh_status h)"
    by (simp_all add: ws_current_def swarm_mounted_def)
  moreover have "snd (snd (swarm_sendCommand now h i)) \<noteq> []"
    using op ne by (auto simp: swarm_sendCommand_def issue_web_id_def ws_current_def Let_def split_beta split: option.split)
  moreover have "sh_frame (swarm_step h (WsMessage (newest h) (SwarmMsg f))) = Some f"
    using op ne by (simp add: newest_def last_conv_nth)
  ultimately show ?thesis by blast
qed

theorem browser_reconnects_witness:
  "ws_current (foldl (round_end swarm_step swarm_owed) (swarm_session [WsOpen 0, WsError 0]) [[], [RetryFires], []]) = Some OPEN"
proof -
  let ?s = "swarm_session [WsOpen 0, WsError 0]" and ?rs = "[[], [RetryFires], []] :: swarm_event list list"
  have s: "sh_sockets ?s = [CLOSING]" "\<not> sh_closed ?s" "\<not> sh_retry ?s"
    by (simp_all add: swarm_session_def mounted_swarm_def connect_def on_open_def set_socket_def)
  have "calm_rounds swarm_step swarm_calm swarm_owed ?s ?rs"
    by (simp add: s round_end_def Let_def swarm_owed_def swarm_calm_def newest_def on_close_def set_socket_def connect_def)
  from browser_reconnects[OF s(2) _ this, of "[]" "foldl (round_end swarm_step swarm_owed) ?s ?rs"]
  show ?thesis by (simp del: foldl.simps add: foldl.simps(1))
qed

end
