(* ===== verification/Orbit.thy ===== *)
theory Orbit
  imports FakeSource Geo
begin

text \<open>
  The pure builders at the end of \<open>web/src/MapView.tsx\<close>: the orbit a robot will trace, its
  coasting position, and the circle that is drawn. They rest on a motion model that the code
  states in a comment (the heading is the orbit phase plus a quarter turn, the phase advances
  at \<open>V / R\<close>); the locale \<open>circular_motion\<close> is that contract, and its interpretation shows
  that the simulator of \<open>bridge/src/fakeSource.ts\<close> keeps it.
\<close>

section \<open>The builders\<close>

definition orbitCenterMeters :: "jsnum \<Rightarrow> jsnum \<Rightarrow> jsnum \<Rightarrow> jsnum \<Rightarrow> jsnum \<times> jsnum" where
  "orbitCenterMeters x y radius heading =
     (x - radius * js_sin heading, y + radius * js_cos heading)"

definition ghostPosMeters :: "telemetry \<Rightarrow> int \<Rightarrow> jsnum \<times> jsnum" where
  "ghostPosMeters t ageMs =
     (let (cx, cy) = orbitCenterMeters (tl_x t) (tl_y t) (tl_radius t) (tl_heading t);
          omega = (if Fin 0 < tl_radius t then tl_speed t / tl_radius t else Fin 0);
          phi = tl_heading t - Fin (pi / 2) + omega * Fin (of_int ageMs / 1000)
      in (cx + tl_radius t * js_cos phi, cy + tl_radius t * js_sin phi))"

definition circleLonLat :: "jsnum \<Rightarrow> jsnum \<Rightarrow> jsnum \<Rightarrow> nat \<Rightarrow> (jsnum \<times> jsnum) list" where
  "circleLonLat cx cy R n =
     map (\<lambda>i. let a = (real i / real n) * 2 * pi
              in metersToLonLat (cx + R * js_cos (Fin a)) (cy + R * js_sin (Fin a))) [0 ..< Suc n]"

section \<open>The motion model\<close>

locale circular_motion =
  fixes tele :: "'r \<Rightarrow> real \<Rightarrow> telemetry"
    and center :: "'r \<Rightarrow> real \<times> real"
    and rad :: "'r \<Rightarrow> real"
    and vel :: "'r \<Rightarrow> real"
    and phase :: "'r \<Rightarrow> real \<Rightarrow> real"
    and ok :: "'r \<Rightarrow> bool"
  assumes rad_pos: "ok r \<Longrightarrow> 0 < rad r"
    and tele_x: "ok r \<Longrightarrow> tl_x (tele r e) = Fin (fst (center r) + rad r * cos (phase r e))"
    and tele_y: "ok r \<Longrightarrow> tl_y (tele r e) = Fin (snd (center r) + rad r * sin (phase r e))"
    and tele_heading: "ok r \<Longrightarrow> tl_heading (tele r e) = Fin (phase r e + pi / 2)"
    and tele_speed: "ok r \<Longrightarrow> tl_speed (tele r e) = Fin (vel r)"
    and tele_radius: "ok r \<Longrightarrow> tl_radius (tele r e) = Fin (rad r)"
    and phase_rate: "ok r \<Longrightarrow> phase r (e + d) = phase r e + vel r / rad r * d"
begin

lemmas tele_fields = tele_x tele_y tele_heading tele_speed tele_radius

lemma center_recovered:
  "ok r \<Longrightarrow> orbitCenterMeters (tl_x (tele r e)) (tl_y (tele r e)) (tl_radius (tele r e))
     (tl_heading (tele r e)) = (Fin (fst (center r)), Fin (snd (center r)))"
  by (simp add: tele_fields orbitCenterMeters_def sin_add cos_add)

lemma dead_reckoning:
  assumes "ok r"
  shows "ghostPosMeters (tele r e) ageMs =
    (tl_x (tele r (e + of_int ageMs / 1000)), tl_y (tele r (e + of_int ageMs / 1000)))"
proof -
  have "phase r (e + of_int ageMs / 1000) = phase r e + vel r / rad r * (of_int ageMs / 1000)"
    using assms by (rule phase_rate)
  moreover have "\<not> rad r = 0" using rad_pos[OF assms] by simp
  ultimately show ?thesis
    using assms rad_pos[OF assms]
    by (simp add: ghostPosMeters_def center_recovered) (simp add: tele_fields)
qed

end

section \<open>The simulator keeps the motion model\<close>

fun num_real :: "jsnum \<Rightarrow> real" where
  "num_real (Fin r) = r"
| "num_real _ = 0"

definition live_ok :: "fake_robot \<Rightarrow> bool" where
  "live_ok r \<longleftrightarrow> robot_finite r \<and> \<not> fr_frozen r \<and> \<not> fr_cycle r"

definition real_phase :: "fake_robot \<Rightarrow> real \<Rightarrow> real" where
  "real_phase r e = num_real (fr_V r) / num_real (fr_R r) * e + num_real (fr_theta0 r)"

lemma fake_phase_real: "robot_finite r \<Longrightarrow> fake_phase e r = Fin (real_phase r e)"
  by (auto simp: robot_finite_def is_finite_iff fake_phase_def real_phase_def)

interpretation fake_motion: circular_motion
  "\<lambda>r e. rb_telemetry (fake_robotState e q r)"
  "\<lambda>r. (num_real (fr_cx r), num_real (fr_cy r))"
  "\<lambda>r. num_real (fr_R r)" "\<lambda>r. num_real (fr_V r)" real_phase live_ok for q
proof unfold_locales
  fix r and e d :: real
  assume "live_ok r"
  then have r: "robot_finite r" "\<not> fr_frozen r" "\<not> fr_cycle r" by (simp_all add: live_ok_def)
  note state = live_state[OF r(2,3)] fake_phase_real[OF r(1)]
  from r(1) obtain cx cy R V th where num: "fr_cx r = Fin cx" "fr_cy r = Fin cy" "fr_R r = Fin R"
    "fr_V r = Fin V" "fr_theta0 r = Fin th" "0 < R"
    by (auto simp: robot_finite_def is_finite_iff)
  show "0 < num_real (fr_R r)" using num by simp
  show "tl_x (rb_telemetry (fake_robotState e q r)) =
      Fin (fst (num_real (fr_cx r), num_real (fr_cy r)) + num_real (fr_R r) * cos (real_phase r e))"
    using num by (simp add: state)
  show "tl_y (rb_telemetry (fake_robotState e q r)) =
      Fin (snd (num_real (fr_cx r), num_real (fr_cy r)) + num_real (fr_R r) * sin (real_phase r e))"
    using num by (simp add: state)
  show "tl_heading (rb_telemetry (fake_robotState e q r)) = Fin (real_phase r e + pi / 2)"
    by (simp add: state)
  show "tl_speed (rb_telemetry (fake_robotState e q r)) = Fin (num_real (fr_V r))"
    "tl_radius (rb_telemetry (fake_robotState e q r)) = Fin (num_real (fr_R r))"
    using num by (simp_all add: state)
  show "real_phase r (e + d) = real_phase r e + num_real (fr_V r) / num_real (fr_R r) * d"
    by (simp add: real_phase_def algebra_simps add_divide_distrib)
qed

text \<open>During an outage the scripted robot publishes the telemetry of the moment the link broke,
  as if it had no script.\<close>

definition unscripted :: "fake_robot \<Rightarrow> fake_robot" where
  "unscripted r = r\<lparr>fr_cycle := False\<rparr>"

lemma unscripted_ok: "robot_finite r \<Longrightarrow> \<not> fr_frozen r \<Longrightarrow> live_ok (unscripted r)"
  by (simp add: live_ok_def unscripted_def robot_finite_def)

lemma outage_telemetry:
  assumes "fr_cycle r" "\<not> fr_frozen r" "0 \<le> e" "cycle_start e + CYCLE_live \<le> e"
  shows "rb_telemetry (fake_robotState e q r) =
    rb_telemetry (fake_robotState (cycle_start e + CYCLE_live) q (unscripted r))"
  using assms
  by (simp add: cycle_state Let_def live_state unscripted_def fake_phase_def)

text \<open>So at any time a robot publishes the telemetry of an unscripted robot at some time.\<close>

lemma telemetry_unscripted:
  assumes "\<not> fr_frozen r" "0 \<le> e"
  shows "\<exists>e'. rb_telemetry (fake_robotState e q r) = rb_telemetry (fake_robotState e' q (unscripted r))"
proof (cases "fr_cycle r \<and> cycle_start e + CYCLE_live \<le> e")
  case True
  with outage_telemetry[of r e q] assms show ?thesis by blast
next
  case False
  then have "rb_telemetry (fake_robotState e q r) = rb_telemetry (fake_robotState e q (unscripted r))"
    using assms by (cases "fr_cycle r")
      (auto simp: cycle_state Let_def live_state unscripted_def fake_phase_def)
  then show ?thesis by blast
qed

lemma center_of_telemetry:
  assumes "robot_finite r" "\<not> fr_frozen r" "0 \<le> e"
  shows "orbitCenterMeters (tl_x (rb_telemetry (fake_robotState e q r)))
      (tl_y (rb_telemetry (fake_robotState e q r))) (tl_radius (rb_telemetry (fake_robotState e q r)))
      (tl_heading (rb_telemetry (fake_robotState e q r))) = (fr_cx r, fr_cy r) \<and>
    tl_radius (rb_telemetry (fake_robotState e q r)) = fr_R r"
proof -
  note ok = unscripted_ok[OF assms(1,2)]
  from telemetry_unscripted[OF assms(2,3)] obtain e' where
    "rb_telemetry (fake_robotState e q r) = rb_telemetry (fake_robotState e' q (unscripted r))" by blast
  with fake_motion.center_recovered[OF ok] fake_motion.tele_radius[OF ok] show ?thesis
    using assms(1) by (auto simp: robot_finite_def is_finite_iff unscripted_def)
qed

text \<open>At the simulator's ticks the published age is exact: a whole number of milliseconds.\<close>

lemma outage_age_round:
  "fr_cycle r \<Longrightarrow> \<not> fr_frozen r \<Longrightarrow> 0 \<le> e \<Longrightarrow> cycle_start e + CYCLE_live \<le> e \<Longrightarrow>
     rb_age_ms (fake_robotState e q r) = js_round ((e - cycle_start e - CYCLE_live) * 1000)"
  by (simp add: cycle_state Let_def)

lemma outage_age:
  assumes "fr_cycle r" "\<not> fr_frozen r" "cycle_start (real n * DT) + CYCLE_live \<le> real n * DT"
  shows "of_int (rb_age_ms (fake_robotState (real n * DT) q r)) / 1000 =
    real n * DT - (cycle_start (real n * DT) + CYCLE_live)"
proof -
  let ?e = "real n * DT"
  let ?k = "200 * int n - 19000 * \<lfloor>?e / CYCLE_PERIOD\<rfloor> - 9000"
  have ms: "(?e - cycle_start ?e - CYCLE_live) * 1000 = of_int ?k"
    by (simp add: cycle_start_def CYCLE_PERIOD_def CYCLE_live_def CYCLE_stale_def CYCLE_lost_def DT_def)
  have "rb_age_ms (fake_robotState ?e q r) = ?k"
    using outage_age_round[OF assms(1,2) _ assms(3)] unfolding ms js_round_of_int
    by (simp add: DT_def)
  then have "of_int (rb_age_ms (fake_robotState ?e q r)) / 1000 = (of_int ?k :: real) / 1000" by simp
  also have "\<dots> = ?e - cycle_start ?e - CYCLE_live" unfolding ms[symmetric] by simp
  finally show ?thesis by simp
qed

section \<open>Circles\<close>

lemma circle_points:
  assumes "0 < n"
  shows "circleLonLat (Fin cx) (Fin cy) (Fin R) n =
    map (\<lambda>i. metersToLonLat (Fin (cx + R * cos (2 * pi * (real i / real n))))
                            (Fin (cy + R * sin (2 * pi * (real i / real n))))) [0 ..< Suc n]"
  by (simp add: circleLonLat_def Let_def mult.commute mult.left_commute del: upt_Suc)

section \<open>Properties\<close>

text \<open>The predicted orbit is the true one: from a single frame of the simulator the map
  recovers the centre of the circle the robot flies on, exactly, wherever on the circle it is and
  also while its link is down.\<close>

theorem predicted_orbit_is_true:
  assumes "robot_finite r" "\<not> fr_frozen r" "0 \<le> e"
  shows "orbitCenterMeters (tl_x (rb_telemetry (fake_robotState e q r)))
      (tl_y (rb_telemetry (fake_robotState e q r))) (tl_radius (rb_telemetry (fake_robotState e q r)))
      (tl_heading (rb_telemetry (fake_robotState e q r))) = (fr_cx r, fr_cy r)"
  using center_of_telemetry[OF assms] by blast

theorem predicted_orbit_is_true_witness:
  "orbitCenterMeters
     (tl_x (rb_telemetry (fake_robotState 3 0 (fake_robot_of ''R-02'' 300 250 60 11 1 False))))
     (tl_y (rb_telemetry (fake_robotState 3 0 (fake_robot_of ''R-02'' 300 250 60 11 1 False))))
     (tl_radius (rb_telemetry (fake_robotState 3 0 (fake_robot_of ''R-02'' 300 250 60 11 1 False))))
     (tl_heading (rb_telemetry (fake_robotState 3 0 (fake_robot_of ''R-02'' 300 250 60 11 1 False)))) =
   (Fin 300, Fin 250)"
proof -
  have "robot_finite (fake_robot_of ''R-02'' 300 250 60 11 1 False)"
    "\<not> fr_frozen (fake_robot_of ''R-02'' 300 250 60 11 1 False)" "(0::real) \<le> 3"
    by (simp_all add: robot_finite_def fake_robot_of_def)
  from predicted_orbit_is_true[OF this] show ?thesis by (simp add: fake_robot_of_def)
qed

text \<open>The coasting ghost is the truth: at every tick of an outage of the scripted robot, the
  position the map extrapolates from the frozen telemetry and its age is exactly where the
  robot would be at that moment had it flown on.\<close>

theorem ghost_is_true_position:
  assumes "robot_finite r" "fr_cycle r" "\<not> fr_frozen r"
    and "cycle_start (real n * DT) + CYCLE_live \<le> real n * DT"
  shows "ghostPosMeters (rb_telemetry (fake_robotState (real n * DT) q r))
      (rb_age_ms (fake_robotState (real n * DT) q r)) =
    (tl_x (rb_telemetry (fake_robotState (real n * DT) q (unscripted r))),
     tl_y (rb_telemetry (fake_robotState (real n * DT) q (unscripted r))))"
proof -
  have "0 \<le> real n * DT" by (simp add: DT_def)
  note frozen = outage_telemetry[OF assms(2,3) this assms(4)]
  have "cycle_start (real n * DT) + CYCLE_live +
      of_int (rb_age_ms (fake_robotState (real n * DT) q r)) / 1000 = real n * DT"
    unfolding outage_age[OF assms(2-4)] by simp
  then show ?thesis
    unfolding frozen fake_motion.dead_reckoning[OF unscripted_ok[OF assms(1,3)]] by simp
qed

theorem ghost_is_true_position_witness:
  "ghostPosMeters (rb_telemetry (fake_robotState (real 60 * DT) 0 (fake_robot_of ''R-06'' 140 90 70 13 5 True)))
     (rb_age_ms (fake_robotState (real 60 * DT) 0 (fake_robot_of ''R-06'' 140 90 70 13 5 True))) =
   (tl_x (rb_telemetry (fake_robotState 12 0 (fake_robot_of ''R-06'' 140 90 70 13 5 False))),
    tl_y (rb_telemetry (fake_robotState 12 0 (fake_robot_of ''R-06'' 140 90 70 13 5 False))))"
proof -
  let ?r = "fake_robot_of ''R-06'' 140 90 70 13 5 True"
  have "robot_finite ?r" "fr_cycle ?r" "\<not> fr_frozen ?r"
    "cycle_start (real 60 * DT) + CYCLE_live \<le> real 60 * DT"
    by (simp_all add: robot_finite_def fake_robot_of_def DT_def cycle_start_first CYCLE_live_def)
  note true = ghost_is_true_position[OF this, of 0]
  have "real 60 * DT = 12" "unscripted ?r = fake_robot_of ''R-06'' 140 90 70 13 5 False"
    by (simp_all add: DT_def unscripted_def fake_robot_of_def)
  with true show ?thesis by (simp only:)
qed

text \<open>The orbit line is a closed polygon of n + 1 points, and each of them is the projection
  of a point at distance exactly R from the centre.\<close>

theorem circle_closed_and_round:
  assumes "0 < n"
  shows "length (circleLonLat (Fin cx) (Fin cy) (Fin R) n) = Suc n \<and>
    hd (circleLonLat (Fin cx) (Fin cy) (Fin R) n) = last (circleLonLat (Fin cx) (Fin cy) (Fin R) n) \<and>
    (\<forall>i \<le> n. \<exists>x y. circleLonLat (Fin cx) (Fin cy) (Fin R) n ! i = metersToLonLat (Fin x) (Fin y) \<and>
       (x - cx)\<^sup>2 + (y - cy)\<^sup>2 = R\<^sup>2)"
proof (intro conjI allI impI)
  show "length (circleLonLat (Fin cx) (Fin cy) (Fin R) n) = Suc n"
    by (simp add: circleLonLat_def)
  show "hd (circleLonLat (Fin cx) (Fin cy) (Fin R) n) = last (circleLonLat (Fin cx) (Fin cy) (Fin R) n)"
    using assms by (simp add: circle_points hd_map last_map del: upt_Suc)
next
  fix i
  assume "i \<le> n"
  let ?a = "2 * pi * (real i / real n)"
  have "circleLonLat (Fin cx) (Fin cy) (Fin R) n ! i =
      metersToLonLat (Fin (cx + R * cos ?a)) (Fin (cy + R * sin ?a))"
    using assms \<open>i \<le> n\<close> by (simp add: circle_points nth_map del: upt_Suc)
  moreover have "(R * cos ?a)\<^sup>2 + (R * sin ?a)\<^sup>2 = R\<^sup>2"
    by (simp add: power_mult_distrib flip: distrib_left)
  ultimately show "\<exists>x y. circleLonLat (Fin cx) (Fin cy) (Fin R) n ! i = metersToLonLat (Fin x) (Fin y) \<and>
       (x - cx)\<^sup>2 + (y - cy)\<^sup>2 = R\<^sup>2"
    by (metis add_diff_cancel_left')
qed

theorem circle_closed_and_round_witness:
  "length (circleLonLat (Fin 0) (Fin 0) (Fin 80) 64) = 65"
proof -
  have "(0::nat) < 64" by simp
  from circle_closed_and_round[OF this, of 0 0 80] show ?thesis by simp
qed

end
