(* ===== verification/MapView.thy ===== *)
theory MapView
  imports UseSwarm Orbit
begin

text \<open>
  \<open>web/src/MapView.tsx\<close>: the tactical map. MapLibre and milsymbol are outside the source: the
  map is what the component told it (sources, layer visibility, the paint of the fence
  outline), a DOM marker is the properties the component sets on it, and camera moves are
  output. One \<open>useEffect\<close> is one definition; \<open>map_commit\<close> runs those whose dependencies
  changed, in their order, after the first commit has created the map.
\<close>

section \<open>Props and state\<close>

record layer_vis =
  lv_mission :: bool
  lv_buffers :: bool
  lv_inputs :: bool

record sa_vis =
  sv_symbols :: bool
  sv_orbit :: bool
  sv_ghost :: bool

record map_props =
  mp_frame :: "swarm_state option"
  mp_trails :: trails
  mp_selected :: "string list"
  mp_basemap_osm :: bool
  mp_fitNonce :: nat
  mp_layerVis :: layer_vis
  mp_saVis :: sa_vis
  mp_critical :: "string list"
  mp_breachNonce :: nat
  mp_flyTo :: "(string \<times> nat) option"

type_synonym lnglat = "jsnum \<times> jsnum"

record line_feature =
  lf_coords :: "lnglat list"
  lf_status :: "link_status option"

record marker =
  mk_element :: nat
  mk_lnglat :: lnglat
  mk_color :: string
  mk_symbols :: bool
  mk_dim :: bool
  mk_key :: "link_status option"
  mk_svg :: string
  mk_selected :: bool
  mk_critical :: bool
  mk_recovered :: bool

record ghost =
  gh_lnglat :: lnglat
  gh_lost :: bool
  gh_label :: string

record map_view =
  mv_created :: bool
  mv_ready :: bool
  mv_first :: "map_props option"
  mv_frameRef :: "swarm_state option"
  mv_osmRef :: bool
  mv_markers :: "(string, marker) jsmap"
  mv_next_element :: nat
  mv_ghosts :: "(string, ghost) jsmap"
  mv_prevLink :: "(string, link_status) jsmap"
  mv_lostFrozen :: "(string, jsnum \<times> jsnum) jsmap"
  mv_symCache :: "(link_status, string) jsmap"
  mv_recovering :: "nat list"
  mv_sources :: "(string, line_feature list) jsmap"
  mv_layout :: "(string, bool) jsmap"
  mv_fence_color :: string
  mv_fence_width :: real
  mv_pulse :: "real option"

datatype camera = FitBounds "lnglat list" | FlyTo lnglat real

definition new_map_view :: map_view where
  "new_map_view =
     \<lparr>mv_created = False, mv_ready = False, mv_first = None, mv_frameRef = None, mv_osmRef = False,
      mv_markers = [], mv_next_element = 0, mv_ghosts = [], mv_prevLink = [], mv_lostFrozen = [],
      mv_symCache = [], mv_recovering = [], mv_sources = [], mv_layout = [(''osm'', True)],
      mv_fence_color = FENCE_UNION_COLOR, mv_fence_width = 3, mv_pulse = None\<rparr>"

definition robots_in :: "swarm_state option \<Rightarrow> robot_state list" where
  "robots_in f = (case f of None \<Rightarrow> [] | Some s \<Rightarrow> sw_robots s)"

definition robot_pos :: "robot_state \<Rightarrow> lnglat" where
  "robot_pos r = metersToLonLat (tl_x (rb_telemetry r)) (tl_y (rb_telemetry r))"

section \<open>GeoJSON lines\<close>

definition HEADING_TICK_M :: real where "HEADING_TICK_M = 35"

text \<open>\<open>getSource(id)?.setData(fc)\<close>: nothing happens when the source does not exist.\<close>

definition set_data :: "string \<Rightarrow> line_feature list \<Rightarrow> map_view \<Rightarrow> map_view" where
  "set_data i fc mv = (case map_of (mv_sources mv) i of
     None \<Rightarrow> mv | Some _ \<Rightarrow> mv\<lparr>mv_sources := AList.update i fc (mv_sources mv)\<rparr>)"

definition heading_line :: "robot_state \<Rightarrow> line_feature" where
  "heading_line r =
     (let t = rb_telemetry r;
          hx = tl_x t + Fin HEADING_TICK_M * js_cos (tl_heading t);
          hy = tl_y t + Fin HEADING_TICK_M * js_sin (tl_heading t)
      in \<lparr>lf_coords = [robot_pos r, metersToLonLat hx hy], lf_status = None\<rparr>)"

definition trail_lines :: "swarm_state option \<Rightarrow> trails \<Rightarrow> line_feature list" where
  "trail_lines f trails =
     map (\<lambda>(i, hist). \<lparr>lf_coords = map (\<lambda>(x, y). metersToLonLat x y) hist,
            lf_status = Some (case find (\<lambda>r. rb_id r = i) (robots_in f) of
              Some r \<Rightarrow> rb_link_status r | None \<Rightarrow> LINK_STATUS_UNSPECIFIED)\<rparr>)
       (filter (\<lambda>(i, hist). \<not> length hist < 2) trails)"

definition redrawLines :: "swarm_state option \<Rightarrow> trails \<Rightarrow> map_view \<Rightarrow> map_view" where
  "redrawLines f trails mv =
     set_data ''trails'' (trail_lines f trails) (set_data ''headings'' (map heading_line (robots_in f)) mv)"

definition orbit_line :: "robot_state \<Rightarrow> line_feature" where
  "orbit_line r =
     (let t = rb_telemetry r;
          (cx, cy) = orbitCenterMeters (tl_x t) (tl_y t) (tl_radius t) (tl_heading t)
      in \<lparr>lf_coords = circleLonLat cx cy (tl_radius t) 64, lf_status = None\<rparr>)"

definition redrawOrbits :: "swarm_state option \<Rightarrow> string list \<Rightarrow> bool \<Rightarrow> map_view \<Rightarrow> map_view" where
  "redrawOrbits f selected visible mv =
     set_data ''orbits''
       (if visible
        then map orbit_line (filter (\<lambda>r. \<not> (rb_id r \<notin> set selected \<or> tl_radius (rb_telemetry r) \<le> Fin 0))
               (robots_in f))
        else []) mv"

section \<open>Robot markers\<close>

text \<open>\<open>milIcon\<close>: \<open>svg lost\<close> is the symbol that milsymbol draws, with the red halo or without.\<close>

definition milIcon ::
  "(bool \<Rightarrow> string) \<Rightarrow> link_status \<Rightarrow> (link_status, string) jsmap \<Rightarrow> (link_status, string) jsmap \<times> string"
where
  "milIcon svg link cache =
     (case map_of cache link of
        Some s \<Rightarrow> if s = '''' then (AList.update link (svg (link = LINK_LOST)) cache, svg (link = LINK_LOST))
                  else (cache, s)
      | None \<Rightarrow> (AList.update link (svg (link = LINK_LOST)) cache, svg (link = LINK_LOST)))"

definition new_marker :: "nat \<Rightarrow> lnglat \<Rightarrow> marker" where
  "new_marker el pos =
     \<lparr>mk_element = el, mk_lnglat = pos, mk_color = '''', mk_symbols = False, mk_dim = False,
      mk_key = None, mk_svg = '''', mk_selected = False, mk_critical = False, mk_recovered = False\<rparr>"

text \<open>What is set on the element of a marker, new or old; the result is the marker and the
  symbol cache.\<close>

definition paint_marker ::
  "(bool \<Rightarrow> string) \<Rightarrow> string list \<Rightarrow> string list \<Rightarrow> bool \<Rightarrow> robot_state \<Rightarrow> (link_status, string) jsmap \<Rightarrow>
     marker \<Rightarrow> marker \<times> (link_status, string) jsmap"
where
  "paint_marker svg sel critical symbols r cache m =
     (let m1 = m\<lparr>mk_color := STATUS_COLOR (rb_link_status r), mk_symbols := symbols,
                  mk_dim := (symbols \<and> rb_link_status r = LINK_STALE)\<rparr>;
          (m2, cache1) =
            (if symbols \<and> mk_key m1 \<noteq> Some (rb_link_status r)
             then (case milIcon svg (rb_link_status r) cache of
                     (c, s) \<Rightarrow> (m1\<lparr>mk_svg := s, mk_key := Some (rb_link_status r)\<rparr>, c))
             else (m1, cache))
      in (m2\<lparr>mk_selected := (rb_id r \<in> set sel), mk_critical := (rb_id r \<in> set critical)\<rparr>, cache1))"

definition sync_marker ::
  "(bool \<Rightarrow> string) \<Rightarrow> string list \<Rightarrow> string list \<Rightarrow> bool \<Rightarrow> map_view \<Rightarrow> robot_state \<Rightarrow> map_view"
where
  "sync_marker svg sel critical symbols mv r =
     (let i = rb_id r;
          (m, el) = (case map_of (mv_markers mv) i of
             None \<Rightarrow> (new_marker (mv_next_element mv) (robot_pos r), Suc (mv_next_element mv))
           | Some m \<Rightarrow> (m\<lparr>mk_lnglat := robot_pos r\<rparr>, mv_next_element mv));
          (m', cache) = paint_marker svg sel critical symbols r (mv_symCache mv) m
      in mv\<lparr>mv_markers := AList.update i m' (mv_markers mv), mv_next_element := el,
             mv_symCache := cache\<rparr>)"

text \<open>Markers of robots that left the frame are removed.\<close>

definition keep_only :: "string list \<Rightarrow> (string, 'v) jsmap \<Rightarrow> (string, 'v) jsmap" where
  "keep_only ids m = filter (\<lambda>(i, _). i \<in> set ids) m"

definition syncMarkers ::
  "(bool \<Rightarrow> string) \<Rightarrow> swarm_state option \<Rightarrow> string list \<Rightarrow> string list \<Rightarrow> bool \<Rightarrow> map_view \<Rightarrow> map_view"
where
  "syncMarkers svg f sel critical symbols mv =
     (let mv1 = foldl (sync_marker svg sel critical symbols) mv (robots_in f)
      in mv1\<lparr>mv_markers := keep_only (map rb_id (robots_in f)) (mv_markers mv1)\<rparr>)"

section \<open>Coasting ghosts\<close>

definition is_down :: "link_status \<Rightarrow> bool" where
  "is_down l \<longleftrightarrow> l = LINK_STALE \<or> l = LINK_LOST"

text \<open>The recovery flash marks the element of the robot's marker and arms a timer for it.\<close>

definition flash :: "string \<Rightarrow> map_view \<Rightarrow> map_view" where
  "flash i mv =
     (case map_of (mv_markers mv) i of
        None \<Rightarrow> mv
      | Some m \<Rightarrow> mv\<lparr>mv_markers := AList.update i (m\<lparr>mk_recovered := True\<rparr>) (mv_markers mv),
                     mv_recovering := mv_recovering mv @ [mk_element m]\<rparr>)"

definition ghost_label_text :: "string \<Rightarrow> link_status \<Rightarrow> int \<Rightarrow> string" where
  "ghost_label_text i link age =
     (if link = LINK_LOST then i @ '' LOST '' @ middot @ '' proj''
      else ''proj '' @ middot @ '' last seen '' @ toFixed 1 (Fin (of_int age / 1000)) @ ''s'')"

definition sync_ghost :: "bool \<Rightarrow> map_view \<Rightarrow> robot_state \<Rightarrow> map_view" where
  "sync_ghost visible mv r =
     (let i = rb_id r;
          cur = rb_link_status r;
          prev = map_of (mv_prevLink mv) i;
          mv1 = (if cur = LINK_LIVE \<and> (prev = Some LINK_STALE \<or> prev = Some LINK_LOST)
                 then (flash i mv)\<lparr>mv_lostFrozen := AList.delete i (mv_lostFrozen mv)\<rparr> else mv);
          mv2 = mv1\<lparr>mv_prevLink := AList.update i cur (mv_prevLink mv1)\<rparr>
      in if \<not> visible \<or> \<not> is_down cur then mv2
         else
           (let here = ghostPosMeters (rb_telemetry r) (rb_age_ms r);
                frozen = (if cur = LINK_LOST \<and> prev = Some LINK_STALE
                          then AList.update i here (mv_lostFrozen mv2) else mv_lostFrozen mv2);
                posM = (if cur = LINK_LOST
                        then (case map_of frozen i of Some p \<Rightarrow> p | None \<Rightarrow> here) else here);
                g = \<lparr>gh_lnglat = metersToLonLat (fst posM) (snd posM), gh_lost = (cur = LINK_LOST),
                     gh_label = ghost_label_text i cur (rb_age_ms r)\<rparr>
            in mv2\<lparr>mv_lostFrozen := frozen, mv_ghosts := AList.update i g (mv_ghosts mv2)\<rparr>))"

definition ghosts_seen :: "bool \<Rightarrow> swarm_state option \<Rightarrow> string list" where
  "ghosts_seen visible f =
     (if visible then map rb_id (filter (\<lambda>r. is_down (rb_link_status r)) (robots_in f)) else [])"

definition syncGhosts :: "swarm_state option \<Rightarrow> bool \<Rightarrow> map_view \<Rightarrow> map_view" where
  "syncGhosts f visible mv =
     (let mv1 = foldl (sync_ghost visible) mv (robots_in f)
      in mv1\<lparr>mv_ghosts := keep_only (ghosts_seen visible f) (mv_ghosts mv1)\<rparr>)"

section \<open>The effects\<close>

definition redraw_effect :: "(bool \<Rightarrow> string) \<Rightarrow> map_props \<Rightarrow> map_view \<Rightarrow> map_view" where
  "redraw_effect svg p mv =
     (if \<not> mv_created mv then mv
      else
        (let mv1 = (if mv_ready mv
               then redrawOrbits (mp_frame p) (mp_selected p) (sv_orbit (mp_saVis p))
                      (redrawLines (mp_frame p) (mp_trails p) mv)
               else mv)
         in syncGhosts (mp_frame p) (sv_ghost (mp_saVis p))
              (syncMarkers svg (mp_frame p) (mp_selected p) (mp_critical p) (sv_symbols (mp_saVis p)) mv1)))"

definition set_layout :: "string \<Rightarrow> bool \<Rightarrow> map_view \<Rightarrow> map_view" where
  "set_layout layer v mv = mv\<lparr>mv_layout := AList.update layer v (mv_layout mv)\<rparr>"

definition basemap_effect :: "map_props \<Rightarrow> map_view \<Rightarrow> map_view" where
  "basemap_effect p mv =
     (if \<not> mv_created mv \<or> \<not> mv_ready mv then mv else set_layout ''osm'' (mp_basemap_osm p) mv)"

definition layers_effect :: "map_props \<Rightarrow> map_view \<Rightarrow> map_view" where
  "layers_effect p mv =
     (if \<not> mv_created mv \<or> \<not> mv_ready mv then mv
      else set_layout ''mission-inputs-point'' (lv_inputs (mp_layerVis p))
           (set_layout ''mission-inputs-line'' (lv_inputs (mp_layerVis p))
           (set_layout ''mission-buffers-line'' (lv_buffers (mp_layerVis p))
           (set_layout ''mission-buffers-fill'' (lv_buffers (mp_layerVis p))
           (set_layout ''mission-union-line'' (lv_mission (mp_layerVis p))
           (set_layout ''mission-union-fill'' (lv_mission (mp_layerVis p)) mv))))))"

definition fitAll :: "swarm_state \<Rightarrow> camera list" where
  "fitAll f = (if sw_robots f = [] then [] else [FitBounds (map robot_pos (sw_robots f))])"

definition fit_effect :: "map_props \<Rightarrow> map_view \<Rightarrow> camera list" where
  "fit_effect p mv =
     (if \<not> mv_created mv \<or> \<not> mv_ready mv \<or> mp_fitNonce p = 0 then []
      else case mv_frameRef mv of Some f \<Rightarrow> fitAll f | None \<Rightarrow> [])"

text \<open>The previous pulse's cleanup cancels its animation before a new one starts.\<close>

definition pulse_effect :: "real \<Rightarrow> map_props \<Rightarrow> map_view \<Rightarrow> map_view" where
  "pulse_effect now p mv =
     (let mv1 = mv\<lparr>mv_pulse := None\<rparr>
      in if \<not> mv_created mv1 \<or> \<not> mv_ready mv1 \<or> mp_breachNonce p = 0 then mv1
         else mv1\<lparr>mv_pulse := Some now\<rparr>)"

definition PULSE_MS :: real where "PULSE_MS = 1800"

definition pulse_frame :: "real \<Rightarrow> map_view \<Rightarrow> map_view" where
  "pulse_frame t mv =
     (case mv_pulse mv of
        None \<Rightarrow> mv
      | Some start \<Rightarrow>
          (let p = (t - start) / PULSE_MS in
           if 1 \<le> p then mv\<lparr>mv_fence_color := FENCE_UNION_COLOR, mv_fence_width := 3, mv_pulse := None\<rparr>
           else mv\<lparr>mv_fence_color := ''#f85149'', mv_fence_width := 3 + \<bar>sin (p * pi * 3)\<bar> * 6\<rparr>))"

definition fly_effect :: "real \<Rightarrow> map_props \<Rightarrow> map_view \<Rightarrow> camera list" where
  "fly_effect zoom p mv =
     (if \<not> mv_created mv \<or> \<not> mv_ready mv then []
      else case mp_flyTo p of
        None \<Rightarrow> []
      | Some (i, _) \<Rightarrow>
          (case find (\<lambda>r. rb_id r = i) (robots_in (mv_frameRef mv)) of
             Some r \<Rightarrow> [FlyTo (robot_pos r) (max zoom (155 / 10))] | None \<Rightarrow> []))"

section \<open>Loading, rendering, unmounting\<close>

definition LOADED_LAYERS :: "string list" where
  "LOADED_LAYERS =
     [''mission-union-fill'', ''mission-buffers-fill'', ''mission-buffers-line'',
      ''mission-inputs-line'', ''mission-inputs-point'', ''mission-union-line'',
      ''orbits-line'', ''trails-line'', ''headings-line'']"

text \<open>The \<open>load\<close> handler is a closure of the first render: the frame, the trails and the basemap
  come from refs, but the selection, the critical robots and the toggles are the first ones.\<close>

definition on_load :: "(bool \<Rightarrow> string) \<Rightarrow> trails \<Rightarrow> map_view \<Rightarrow> map_view" where
  "on_load svg trails mv =
     (case mv_first mv of
        None \<Rightarrow> mv
      | Some p \<Rightarrow>
          (let mv1 = mv\<lparr>mv_sources := [(''orbits'', []), (''trails'', []), (''headings'', [])],
                         mv_layout := mv_layout mv @ map (\<lambda>l. (l, True)) LOADED_LAYERS\<rparr>;
               mv2 = (set_layout ''osm'' (mv_osmRef mv1) mv1)\<lparr>mv_ready := True\<rparr>;
               mv3 = redrawLines (mv_frameRef mv2) trails mv2;
               mv4 = syncMarkers svg (mv_frameRef mv3) (mp_selected p) (mp_critical p)
                       (sv_symbols (mp_saVis p)) mv3
           in syncGhosts (mv_frameRef mv4) (sv_ghost (mp_saVis p)) mv4))"

definition create_effect :: "map_props \<Rightarrow> map_view \<Rightarrow> map_view" where
  "create_effect p mv = mv\<lparr>mv_created := True, mv_first := Some p\<rparr>"

definition when_changed :: "('p \<Rightarrow> 'd) \<Rightarrow> 'p option \<Rightarrow> 'p \<Rightarrow> bool" where
  "when_changed dep old p = (case old of None \<Rightarrow> True | Some q \<Rightarrow> dep q \<noteq> dep p)"

definition run_effect :: "bool \<Rightarrow> ('s \<Rightarrow> 's) \<Rightarrow> 's \<Rightarrow> 's" where
  "run_effect changed effect s = (if changed then effect s else s)"

text \<open>React compares dependencies by identity. The primitive ones, and \<open>layerVis\<close>, change
  identity exactly when they change value; the frame, the selection, the critical set and
  \<open>saVis\<close> may be new objects with an old value, which is the argument \<open>fresh\<close>.\<close>

definition map_commit ::
  "(bool \<Rightarrow> string) \<Rightarrow> bool \<Rightarrow> real \<Rightarrow> real \<Rightarrow> map_props option \<Rightarrow> map_props \<Rightarrow> map_view \<Rightarrow>
     map_view \<times> camera list"
where
  "map_commit svg fresh now zoom old p mv0 =
     (let mv1 = mv0\<lparr>mv_frameRef := mp_frame p, mv_osmRef := mp_basemap_osm p\<rparr>;
          mv2 = run_effect (old = None) (create_effect p) mv1;
          mv3 = run_effect (fresh \<or> when_changed (\<lambda>q. (mp_frame q, mp_selected q, mp_critical q, mp_saVis q)) old p)
                  (redraw_effect svg p) mv2;
          mv4 = run_effect (when_changed mp_basemap_osm old p) (basemap_effect p) mv3;
          mv5 = run_effect (when_changed mp_layerVis old p) (layers_effect p) mv4;
          fit = (if when_changed mp_fitNonce old p then fit_effect p mv5 else []);
          mv6 = run_effect (when_changed mp_breachNonce old p) (pulse_effect now p) mv5;
          fly = (if when_changed (\<lambda>q. map_option snd (mp_flyTo q)) old p then fly_effect zoom p mv6 else [])
      in (mv6, fit @ fly))"

definition recover_timer :: "nat \<Rightarrow> map_view \<Rightarrow> map_view" where
  "recover_timer el mv =
     (if el \<in> set (mv_recovering mv)
      then mv\<lparr>mv_recovering := remove1 el (mv_recovering mv),
              mv_markers := map (\<lambda>(i, m). (i, if mk_element m = el then m\<lparr>mk_recovered := False\<rparr> else m))
                (mv_markers mv)\<rparr>
      else mv)"

definition map_unmount :: "map_view \<Rightarrow> map_view" where
  "map_unmount mv = mv\<lparr>mv_markers := [], mv_ghosts := [], mv_created := False, mv_ready := False, mv_pulse := None\<rparr>"

datatype map_event =
    Commit bool real real map_props
  | Loaded trails
  | PulseFrame real
  | RecoverTimer nat
  | Unmounted

fun map_step ::
  "(bool \<Rightarrow> string) \<Rightarrow> map_view \<times> map_props option \<Rightarrow> map_event \<Rightarrow>
     (map_view \<times> map_props option) \<times> camera list"
where
  "map_step svg (mv, old) (Commit fresh now zoom p) =
     (let (mv', cams) = map_commit svg fresh now zoom old p mv in ((mv', Some p), cams))"
| "map_step svg (mv, old) (Loaded trails) =
     (if mv_created mv \<and> \<not> mv_ready mv then ((on_load svg trails mv, old), []) else ((mv, old), []))"
| "map_step svg (mv, old) (PulseFrame t) = ((pulse_frame t mv, old), [])"
| "map_step svg (mv, old) (RecoverTimer el) = ((recover_timer el mv, old), [])"
| "map_step svg (mv, old) Unmounted = ((map_unmount mv, old), [])"

text \<open>A click on a marker selects its robot, additively with a modifier key, and stops there; a
  click on the empty map clears the selection unless a modifier is held.\<close>

datatype map_action = SelectRobot string bool | ClearSelection

definition marker_click :: "string \<Rightarrow> bool \<Rightarrow> map_action list" where
  "marker_click i modifier = [SelectRobot i modifier]"

definition map_click :: "bool \<Rightarrow> map_action list" where
  "map_click modifier = (if \<not> modifier then [ClearSelection] else [])"

section \<open>Markers mirror the frame\<close>

definition marker_shows ::
  "string list \<Rightarrow> string list \<Rightarrow> bool \<Rightarrow> robot_state \<Rightarrow> marker \<Rightarrow> bool"
where
  "marker_shows sel critical symbols r m \<longleftrightarrow>
     mk_lnglat m = robot_pos r \<and> mk_color m = STATUS_COLOR (rb_link_status r) \<and>
     (mk_symbols m \<longleftrightarrow> symbols) \<and> (mk_dim m \<longleftrightarrow> symbols \<and> rb_link_status r = LINK_STALE) \<and>
     (symbols \<longrightarrow> mk_key m = Some (rb_link_status r)) \<and>
     (mk_selected m \<longleftrightarrow> rb_id r \<in> set sel) \<and> (mk_critical m \<longleftrightarrow> rb_id r \<in> set critical)"

lemma paint_shows:
  "mk_lnglat m = robot_pos r \<Longrightarrow> marker_shows sel crit sb r (fst (paint_marker svg sel crit sb r c m))"
  by (auto simp: paint_marker_def Let_def split_beta marker_shows_def)

lemma new_marker_pos [simp]: "mk_lnglat (new_marker el pos) = pos"
  by (simp add: new_marker_def)

lemma sync_marker_own:
  "\<exists>m. map_of (mv_markers (sync_marker svg sel crit sb mv r)) (rb_id r) = Some m \<and>
     marker_shows sel crit sb r m"
  by (simp add: sync_marker_def Let_def split_beta paint_shows split: option.split)

lemma sync_marker_other:
  "i \<noteq> rb_id r \<Longrightarrow> map_of (mv_markers (sync_marker svg sel crit sb mv r)) i = map_of (mv_markers mv) i"
  by (simp add: sync_marker_def Let_def split_beta)

lemma foldl_marker:
  "case last_of (\<lambda>r. rb_id r = i) rs of
     Some r \<Rightarrow> \<exists>m. map_of (mv_markers (foldl (sync_marker svg sel crit sb) mv rs)) i = Some m \<and>
       marker_shows sel crit sb r m
   | None \<Rightarrow> map_of (mv_markers (foldl (sync_marker svg sel crit sb) mv rs)) i = map_of (mv_markers mv) i"
proof (induction rs rule: rev_induct)
  case Nil
  then show ?case by simp
next
  case (snoc r rs)
  show ?case
  proof (cases "rb_id r = i")
    case True
    with sync_marker_own[of svg sel crit sb "foldl (sync_marker svg sel crit sb) mv rs" r] show ?thesis
      by (simp add: last_of_append)
  next
    case False
    with snoc sync_marker_other[of i r svg sel crit sb "foldl (sync_marker svg sel crit sb) mv rs"]
    show ?thesis by (auto simp: last_of_append split: option.splits)
  qed
qed

lemma map_of_keep_only: "map_of (keep_only ids m) i = (if i \<in> set ids then map_of m i else None)"
  by (induction m) (auto simp: keep_only_def)

section \<open>Ghosts, robot by robot\<close>

lemma flash_fields [simp]:
  "mv_prevLink (flash i mv) = mv_prevLink mv" "mv_ghosts (flash i mv) = mv_ghosts mv"
  "mv_lostFrozen (flash i mv) = mv_lostFrozen mv"
  by (simp_all add: flash_def split: option.split)

lemma map_of_delete_other [simp]: "i \<noteq> j \<Longrightarrow> map_of (AList.delete j m) i = map_of m i"
  by (simp add: delete_conv')

lemma sync_ghost_other:
  assumes "i \<noteq> rb_id r"
  shows "map_of (mv_prevLink (sync_ghost v mv r)) i = map_of (mv_prevLink mv) i"
    and "map_of (mv_lostFrozen (sync_ghost v mv r)) i = map_of (mv_lostFrozen mv) i"
    and "map_of (mv_ghosts (sync_ghost v mv r)) i = map_of (mv_ghosts mv) i"
  using assms by (simp_all add: sync_ghost_def Let_def)

lemma sync_ghost_prev: "map_of (mv_prevLink (sync_ghost v mv r)) (rb_id r) = Some (rb_link_status r)"
  by (simp add: sync_ghost_def Let_def)

lemma sync_ghost_seen:
  "v \<Longrightarrow> is_down (rb_link_status r) \<Longrightarrow> \<exists>g. map_of (mv_ghosts (sync_ghost v mv r)) (rb_id r) = Some g"
  by (simp add: sync_ghost_def Let_def)

lemma sync_ghost_stale:
  "rb_link_status r = LINK_STALE \<Longrightarrow>
     map_of (mv_ghosts (sync_ghost True mv r)) (rb_id r) =
       Some \<lparr>gh_lnglat = (case ghostPosMeters (rb_telemetry r) (rb_age_ms r) of (x, y) \<Rightarrow> metersToLonLat x y),
             gh_lost = False, gh_label = ghost_label_text (rb_id r) LINK_STALE (rb_age_ms r)\<rparr>"
  by (simp add: sync_ghost_def Let_def is_down_def split_beta)

text \<open>A robot that is only seen LOST keeps its frozen position; its ghost, if shown, is there.\<close>

definition ghost_at :: "string \<Rightarrow> jsnum \<times> jsnum \<Rightarrow> map_view \<Rightarrow> bool" where
  "ghost_at i p mv \<longleftrightarrow>
     map_of (mv_lostFrozen mv) i = Some p \<and> map_of (mv_prevLink mv) i = Some LINK_LOST \<and>
     (\<forall>g. map_of (mv_ghosts mv) i = Some g \<longrightarrow> gh_lnglat g = metersToLonLat (fst p) (snd p) \<and> gh_lost g)"

lemma ghost_at_lost:
  assumes "ghost_at i p mv" "rb_id r = i \<Longrightarrow> rb_link_status r = LINK_LOST"
  shows "ghost_at i p (sync_ghost v mv r)"
proof (cases "rb_id r = i")
  case True
  with assms show ?thesis
    by (auto simp: ghost_at_def sync_ghost_def Let_def)
next
  case False
  with assms(1) sync_ghost_other[of i r v mv] show ?thesis by (simp add: ghost_at_def)
qed

lemma ghost_at_frame:
  assumes "ghost_at i p mv" "\<forall>r \<in> set (robots_in f). rb_id r = i \<longrightarrow> rb_link_status r = LINK_LOST"
  shows "ghost_at i p (syncGhosts f v mv)"
proof -
  have "ghost_at i p (foldl (sync_ghost v) mv rs)"
    if "\<forall>r \<in> set rs. rb_id r = i \<longrightarrow> rb_link_status r = LINK_LOST" for rs
    using that by (induction rs rule: rev_induct) (simp_all add: assms(1) ghost_at_lost)
  from this[OF assms(2)] show ?thesis
    by (auto simp: ghost_at_def syncGhosts_def Let_def map_of_keep_only split: if_splits)
qed

definition sync_frames :: "(swarm_state option \<times> bool) list \<Rightarrow> map_view \<Rightarrow> map_view" where
  "sync_frames fs mv = foldl (\<lambda>mv (f, v). syncGhosts f v mv) mv fs"

lemma ghost_at_frames:
  "ghost_at i p mv \<Longrightarrow>
     \<forall>(f, v) \<in> set fs. \<forall>r \<in> set (robots_in f). rb_id r = i \<longrightarrow> rb_link_status r = LINK_LOST \<Longrightarrow>
     ghost_at i p (sync_frames fs mv)"
  by (induction fs arbitrary: mv) (auto simp: sync_frames_def ghost_at_frame)

text \<open>A frame in which the robot occurs once: the others do not matter to it.\<close>

lemma foldl_others:
  "\<forall>r \<in> set rs. rb_id r \<noteq> i \<Longrightarrow>
     map_of (mv_prevLink (foldl (sync_ghost v) mv rs)) i = map_of (mv_prevLink mv) i \<and>
     map_of (mv_lostFrozen (foldl (sync_ghost v) mv rs)) i = map_of (mv_lostFrozen mv) i \<and>
     map_of (mv_ghosts (foldl (sync_ghost v) mv rs)) i = map_of (mv_ghosts mv) i"
proof (induction rs arbitrary: mv)
  case Nil
  then show ?case by simp
next
  case (Cons r rs)
  then show ?case using sync_ghost_other[of i r v mv] by auto
qed

lemma once_split:
  assumes "filter (\<lambda>r. rb_id r = i) rs = [r]"
  obtains as bs where "rs = as @ r # bs" "rb_id r = i" "\<forall>x \<in> set as. rb_id x \<noteq> i" "\<forall>x \<in> set bs. rb_id x \<noteq> i"
proof -
  from filter_eq_ConsD[OF assms] obtain as bs where split:
    "rs = as @ r # bs" "\<forall>u\<in>set as. rb_id u \<noteq> i" "rb_id r = i" "[] = filter (\<lambda>r. rb_id r = i) bs"
    by blast
  from split(4) have "filter (\<lambda>r. rb_id r = i) bs = []" by (rule sym)
  then have "\<forall>x \<in> set bs. rb_id x \<noteq> i" by (simp add: filter_empty_conv)
  from that[OF split(1) split(3) split(2) this] show thesis .
qed

lemma once_synced:
  assumes "filter (\<lambda>r. rb_id r = i) (robots_in f) = [r]"
  shows "\<exists>mv'. map_of (mv_prevLink mv') i = map_of (mv_prevLink mv) i \<and>
    map_of (mv_lostFrozen mv') i = map_of (mv_lostFrozen mv) i \<and>
    map_of (mv_prevLink (syncGhosts f v mv)) i = map_of (mv_prevLink (sync_ghost v mv' r)) i \<and>
    map_of (mv_lostFrozen (syncGhosts f v mv)) i = map_of (mv_lostFrozen (sync_ghost v mv' r)) i \<and>
    map_of (mv_ghosts (syncGhosts f v mv)) i =
      (if v \<and> is_down (rb_link_status r) then map_of (mv_ghosts (sync_ghost v mv' r)) i else None)"
proof -
  from once_split[OF assms] obtain as bs where split: "robots_in f = as @ r # bs" "rb_id r = i"
    "\<forall>x \<in> set as. rb_id x \<noteq> i" "\<forall>x \<in> set bs. rb_id x \<noteq> i" .
  have "i \<in> set (ghosts_seen v f) \<longleftrightarrow> v \<and> is_down (rb_link_status r)"
    using split by (auto simp: ghosts_seen_def)
  then show ?thesis
    using foldl_others[OF split(3), of v mv] foldl_others[OF split(4), of v "sync_ghost v (foldl (sync_ghost v) mv as) r"]
    by (intro exI[of _ "foldl (sync_ghost v) mv as"])
      (cases v; simp add: syncGhosts_def Let_def split(1) map_of_keep_only)
qed

lemma ghosts_shown:
  "fst ` set (mv_ghosts (foldl (sync_ghost v) mv rs)) \<supseteq>
     set (map rb_id (filter (\<lambda>r. v \<and> is_down (rb_link_status r)) rs))"
proof (induction rs rule: rev_induct)
  case Nil
  then show ?case by simp
next
  case (snoc r rs)
  let ?mv = "foldl (sync_ghost v) mv rs"
  have grow: "fst ` set (mv_ghosts ?mv) \<subseteq> fst ` set (mv_ghosts (sync_ghost v ?mv r))"
    by (auto simp: sync_ghost_def Let_def dom_update)
  have "rb_id r \<in> fst ` set (mv_ghosts (sync_ghost v ?mv r))" if down: "v" "is_down (rb_link_status r)"
  proof -
    from sync_ghost_seen[OF down, of ?mv] obtain g where
      "map_of (mv_ghosts (sync_ghost v ?mv r)) (rb_id r) = Some g" by blast
    from map_of_SomeD[OF this] show ?thesis by (rule image_eqI[rotated]) simp
  qed
  then have "set (map rb_id (filter (\<lambda>r. v \<and> is_down (rb_link_status r)) [r])) \<subseteq>
      fst ` set (mv_ghosts (sync_ghost v ?mv r))"
    by simp
  with order_trans[OF snoc grow] show ?case
    unfolding filter_append map_append set_append foldl_append foldl.simps by (rule Un_least)
qed

lemma ghost_keys: "fst ` set (mv_ghosts (syncGhosts f v mv)) = set (ghosts_seen v f)"
proof -
  have sub: "set (ghosts_seen v f) \<subseteq> fst ` set (mv_ghosts (foldl (sync_ghost v) mv (robots_in f)))"
    using ghosts_shown[of v "robots_in f" mv] by (cases v) (auto simp: ghosts_seen_def)
  have "fst ` set (keep_only ids m) = set ids \<inter> fst ` set m" for ids and m :: "(string, ghost) jsmap"
    by (force simp: keep_only_def)
  with sub show ?thesis by (auto simp: syncGhosts_def Let_def)
qed

section \<open>Symbols\<close>

definition marker_svg_ok :: "(bool \<Rightarrow> string) \<Rightarrow> marker \<Rightarrow> bool" where
  "marker_svg_ok svg m \<longleftrightarrow> (\<forall>l. mk_key m = Some l \<longrightarrow> mk_svg m = svg (l = LINK_LOST))"

definition svg_ok :: "(bool \<Rightarrow> string) \<Rightarrow> map_view \<Rightarrow> bool" where
  "svg_ok svg mv \<longleftrightarrow>
     (\<forall>(l, s) \<in> set (mv_symCache mv). s = svg (l = LINK_LOST)) \<and>
     (\<forall>(i, m) \<in> set (mv_markers mv). marker_svg_ok svg m)"

lemma set_update: "set (AList.update k v m) \<subseteq> insert (k, v) (set m)"
  by (induction m) auto

lemma milIcon_ok:
  assumes "\<forall>(l, s) \<in> set c. s = svg (l = LINK_LOST)"
  shows "snd (milIcon svg link c) = svg (link = LINK_LOST) \<and>
    (\<forall>(l, s) \<in> set (fst (milIcon svg link c)). s = svg (l = LINK_LOST))"
proof -
  have "\<forall>(l, s) \<in> set (AList.update link (svg (link = LINK_LOST)) c). s = svg (l = LINK_LOST)"
    using assms set_update[of link "svg (link = LINK_LOST)" c] by blast
  moreover have "s = svg (link = LINK_LOST)" if "map_of c link = Some s" for s
    using assms map_of_SomeD[OF that] by blast
  ultimately show ?thesis using assms by (auto simp: milIcon_def split: option.split)
qed

lemma svg_ok_put:
  "svg_ok svg mv \<Longrightarrow> marker_svg_ok svg m \<Longrightarrow> svg_ok svg (mv\<lparr>mv_markers := AList.update i m (mv_markers mv)\<rparr>)"
  using set_update[of i m "mv_markers mv"] by (auto simp: svg_ok_def)

lemma svg_ok_lookup: "svg_ok svg mv \<Longrightarrow> map_of (mv_markers mv) i = Some m \<Longrightarrow> marker_svg_ok svg m"
  by (auto simp: svg_ok_def dest: map_of_SomeD)

lemma svg_ok_fields [simp]:
  "svg_ok svg (mv\<lparr>mv_next_element := n\<rparr>) = svg_ok svg mv"
  "svg_ok svg (mv\<lparr>mv_recovering := rec\<rparr>) = svg_ok svg mv"
  "svg_ok svg (mv\<lparr>mv_prevLink := l\<rparr>) = svg_ok svg mv"
  "svg_ok svg (mv\<lparr>mv_lostFrozen := z\<rparr>) = svg_ok svg mv"
  "svg_ok svg (mv\<lparr>mv_ghosts := g\<rparr>) = svg_ok svg mv"
  "svg_ok svg (mv\<lparr>mv_sources := src\<rparr>) = svg_ok svg mv"
  "svg_ok svg (mv\<lparr>mv_layout := lay\<rparr>) = svg_ok svg mv"
  "svg_ok svg (mv\<lparr>mv_pulse := p\<rparr>) = svg_ok svg mv"
  "svg_ok svg (mv\<lparr>mv_fence_color := c\<rparr>) = svg_ok svg mv"
  "svg_ok svg (mv\<lparr>mv_fence_width := w\<rparr>) = svg_ok svg mv"
  "svg_ok svg (mv\<lparr>mv_created := b\<rparr>) = svg_ok svg mv"
  "svg_ok svg (mv\<lparr>mv_ready := b\<rparr>) = svg_ok svg mv"
  "svg_ok svg (mv\<lparr>mv_first := f\<rparr>) = svg_ok svg mv"
  "svg_ok svg (mv\<lparr>mv_frameRef := fr\<rparr>) = svg_ok svg mv"
  "svg_ok svg (mv\<lparr>mv_osmRef := b\<rparr>) = svg_ok svg mv"
  by (simp_all add: svg_ok_def)

lemma paint_ok:
  assumes "\<forall>(l, s) \<in> set c. s = svg (l = LINK_LOST)" "marker_svg_ok svg m"
  shows "marker_svg_ok svg (fst (paint_marker svg sel crit sb r c m)) \<and>
    (\<forall>(l, s) \<in> set (snd (paint_marker svg sel crit sb r c m)). s = svg (l = LINK_LOST))"
  using assms(2) milIcon_ok[OF assms(1), of "rb_link_status r"] assms(1)
  by (simp add: paint_marker_def Let_def split_beta marker_svg_ok_def)

lemma svg_ok_sync_marker: "svg_ok svg mv \<Longrightarrow> svg_ok svg (sync_marker svg sel crit sb mv r)"
proof -
  assume ok: "svg_ok svg mv"
  then have cache: "\<forall>(l, s) \<in> set (mv_symCache mv). s = svg (l = LINK_LOST)" by (simp add: svg_ok_def)
  define m where "m = (case map_of (mv_markers mv) (rb_id r) of
    None \<Rightarrow> new_marker (mv_next_element mv) (robot_pos r) | Some m \<Rightarrow> m\<lparr>mk_lnglat := robot_pos r\<rparr>)"
  have "marker_svg_ok svg m"
    using svg_ok_lookup[OF ok, of "rb_id r"]
    by (auto simp: m_def marker_svg_ok_def new_marker_def split: option.split)
  note paint = paint_ok[OF cache this, of sel crit sb r]
  have "mv_markers (sync_marker svg sel crit sb mv r) =
      AList.update (rb_id r) (fst (paint_marker svg sel crit sb r (mv_symCache mv) m)) (mv_markers mv)"
    "mv_symCache (sync_marker svg sel crit sb mv r) = snd (paint_marker svg sel crit sb r (mv_symCache mv) m)"
    by (simp_all add: sync_marker_def Let_def split_beta m_def split: option.split)
  with paint svg_ok_put[OF ok conjunct1[OF paint], of "rb_id r"] show ?thesis
    by (simp add: svg_ok_def)
qed

lemma svg_ok_keep: "svg_ok svg mv \<Longrightarrow> svg_ok svg (mv\<lparr>mv_markers := keep_only ids (mv_markers mv)\<rparr>)"
  by (auto simp: svg_ok_def keep_only_def)

lemma svg_ok_markers: "svg_ok svg mv \<Longrightarrow> svg_ok svg (syncMarkers svg f sel crit sb mv)"
proof -
  assume ok: "svg_ok svg mv"
  have "svg_ok svg (foldl (sync_marker svg sel crit sb) mv rs)" for rs
    by (induction rs rule: rev_induct) (simp_all add: ok svg_ok_sync_marker)
  then show ?thesis by (simp add: syncMarkers_def Let_def svg_ok_keep)
qed

lemma svg_ok_flash: "svg_ok svg mv \<Longrightarrow> svg_ok svg (flash i mv)"
proof -
  assume ok: "svg_ok svg mv"
  have "svg_ok svg (mv\<lparr>mv_markers := AList.update i (m\<lparr>mk_recovered := True\<rparr>) (mv_markers mv)\<rparr>)"
    if "map_of (mv_markers mv) i = Some m" for m
    using svg_ok_put[OF ok, of "m\<lparr>mk_recovered := True\<rparr>"] svg_ok_lookup[OF ok that]
    by (simp add: marker_svg_ok_def)
  with ok show ?thesis by (auto simp: flash_def split: option.split)
qed

lemma svg_ok_ghosts: "svg_ok svg mv \<Longrightarrow> svg_ok svg (syncGhosts f v mv)"
proof -
  have step: "svg_ok svg mv \<Longrightarrow> svg_ok svg (sync_ghost v mv r)" for mv r
    by (simp add: sync_ghost_def Let_def svg_ok_flash)
  have "svg_ok svg mv \<Longrightarrow> svg_ok svg (foldl (sync_ghost v) mv rs)" for mv rs
    by (induction rs arbitrary: mv) (simp_all add: step)
  then show "svg_ok svg mv \<Longrightarrow> ?thesis" by (simp add: syncGhosts_def Let_def)
qed

lemma svg_ok_data [simp]: "svg_ok svg (set_data i fc mv) = svg_ok svg mv"
  by (simp add: set_data_def split: option.split)

lemma svg_ok_layout [simp]: "svg_ok svg (set_layout i b mv) = svg_ok svg mv"
  by (simp add: set_layout_def)

lemma svg_ok_redraw: "svg_ok svg mv \<Longrightarrow> svg_ok svg (redraw_effect svg p mv)"
  by (simp add: redraw_effect_def redrawLines_def redrawOrbits_def Let_def svg_ok_ghosts svg_ok_markers)

lemma svg_ok_load: "svg_ok svg mv \<Longrightarrow> svg_ok svg (on_load svg trails mv)"
  by (simp add: on_load_def redrawLines_def Let_def svg_ok_ghosts svg_ok_markers split: option.split)

lemma svg_ok_run: "svg_ok svg mv \<Longrightarrow> (svg_ok svg mv \<Longrightarrow> svg_ok svg (eff mv)) \<Longrightarrow> svg_ok svg (run_effect c eff mv)"
  by (simp add: run_effect_def)

lemma svg_ok_effects [simp]:
  "svg_ok svg (basemap_effect p mv) = svg_ok svg mv"
  "svg_ok svg (layers_effect p mv) = svg_ok svg mv"
  "svg_ok svg (create_effect p mv) = svg_ok svg mv"
  by (simp_all add: basemap_effect_def layers_effect_def create_effect_def)

lemma svg_ok_pulse [simp]: "svg_ok svg (pulse_effect now p mv) = svg_ok svg mv"
  by (simp add: pulse_effect_def Let_def)

lemma svg_ok_commit: "svg_ok svg mv \<Longrightarrow> svg_ok svg (fst (map_commit svg fresh now zoom old p mv))"
  unfolding map_commit_def Let_def fst_conv by (intro svg_ok_run) (simp_all add: svg_ok_redraw)

lemma svg_ok_unmount: "svg_ok svg mv \<Longrightarrow> svg_ok svg (map_unmount mv)"
  by (simp add: svg_ok_def map_unmount_def)

lemma svg_ok_recover: "svg_ok svg mv \<Longrightarrow> svg_ok svg (recover_timer el mv)"
  by (auto simp: recover_timer_def svg_ok_def marker_svg_ok_def split: if_splits)

interpretation map_machine: io_machine "map_step svg" "\<lambda>(mv, _). svg_ok svg mv" "\<lambda>_. True" for svg
proof unfold_locales
  fix s :: "map_view \<times> map_props option" and e
  assume "case s of (mv, _) \<Rightarrow> svg_ok svg mv"
  then show "case fst (map_step svg s e) of (mv, _) \<Rightarrow> svg_ok svg mv"
    by (cases s; cases e) (simp_all add: split_beta svg_ok_commit svg_ok_load svg_ok_recover svg_ok_unmount
        pulse_frame_def Let_def split: option.split)
qed (simp add: list_all_iff)

section \<open>Properties\<close>

text \<open>What every synchronisation leaves on the map, as a lemma.\<close>

lemma synced_markers:
  "case last_of (\<lambda>r. rb_id r = i) (robots_in f) of
     None \<Rightarrow> map_of (mv_markers (syncMarkers svg f sel critical symbols mv)) i = None
   | Some r \<Rightarrow> \<exists>m. map_of (mv_markers (syncMarkers svg f sel critical symbols mv)) i = Some m \<and>
       marker_shows sel critical symbols r m"
proof -
  have "i \<in> rb_id ` set (robots_in f) \<longleftrightarrow> last_of (\<lambda>r. rb_id r = i) (robots_in f) \<noteq> None"
    by (auto simp: last_of_None)
  then show ?thesis
    using foldl_marker[where i = i and rs = "robots_in f" and svg = svg and sel = sel and
        crit = critical and sb = symbols and mv = mv]
    by (auto simp: syncMarkers_def Let_def map_of_keep_only split: option.splits)
qed

text \<open>After the markers are synchronised with a frame, whatever was on the map before, there
  is a marker for exactly the robots of the frame, and each stands at its robot's projected
  position in the colour of its link status, selected, flashing and dimmed as the props say. (A
  robot listed twice shows its last entry.)\<close>

theorem markers_mirror_frame:
  "case last_of (\<lambda>r. rb_id r = i) (robots_in f) of
     None \<Rightarrow> map_of (mv_markers (syncMarkers svg f sel critical symbols mv)) i = None
   | Some r \<Rightarrow> \<exists>m. map_of (mv_markers (syncMarkers svg f sel critical symbols mv)) i = Some m \<and>
       marker_shows sel critical symbols r m"
  by (rule synced_markers)

definition map_session :: "(bool \<Rightarrow> string) \<Rightarrow> map_event list \<Rightarrow> map_view" where
  "map_session svg evs = fst (fst (run (map_step svg) (new_map_view, None) evs))"

text \<open>The symbol cache never shows the wrong glyph: after any session of the map, redrawing in
  2525 mode leaves on every marker the symbol of the robot's current link status, with the red
  halo exactly when it is LOST.\<close>

theorem symbols_show_link_status:
  assumes "last_of (\<lambda>r. rb_id r = i) (robots_in f) = Some r"
  shows "\<exists>m. map_of (mv_markers (syncMarkers svg f sel critical True (map_session svg evs))) i = Some m \<and>
    mk_svg m = svg (rb_link_status r = LINK_LOST)"
proof -
  have "svg_ok svg (map_session svg evs)"
    using map_machine.run_inv[of svg "(new_map_view, None)" evs]
    by (simp add: map_session_def split_beta) (simp add: svg_ok_def new_map_view_def)
  note ok = svg_ok_markers[OF this, of f sel critical True]
  from synced_markers[where i = i and f = f and svg = svg and sel = sel and critical = critical and
      symbols = True and mv = "map_session svg evs"] assms obtain m where
    m: "map_of (mv_markers (syncMarkers svg f sel critical True (map_session svg evs))) i = Some m"
      "mk_key m = Some (rb_link_status r)"
    by (auto simp: marker_shows_def)
  from svg_ok_lookup[OF ok m(1)] m show ?thesis by (simp add: marker_svg_ok_def)
qed

theorem symbols_show_link_status_witness:
  "\<exists>m. map_of (mv_markers (syncMarkers (\<lambda>lost. if lost then ''halo'' else ''plain'')
      (Some (sample_frame [sample_robot ''R-06'' LINK_LOST 0] [])) [] [] True
      (map_session (\<lambda>lost. if lost then ''halo'' else ''plain'') []))) ''R-06'' = Some m \<and>
    mk_svg m = ''halo''"
proof -
  have "last_of (\<lambda>r. rb_id r = ''R-06'') (robots_in (Some (sample_frame [sample_robot ''R-06'' LINK_LOST 0] []))) =
      Some (sample_robot ''R-06'' LINK_LOST 0)"
    by (simp add: robots_in_def sample_frame_def sample_robot_def)
  from symbols_show_link_status[OF this, of "\<lambda>lost. if lost then ''halo'' else ''plain''" "[]" "[]" "[]"]
  show ?thesis by (simp add: sample_robot_def)
qed

text \<open>Ghosts are shown for exactly the robots whose link is down, when the layer is on: after
  a frame the map has a ghost for an id exactly when some robot of the frame with that id is
  STALE or LOST.\<close>

theorem ghosts_exactly_for_down_robots:
  "(\<exists>g. map_of (mv_ghosts (syncGhosts f visible mv)) i = Some g) \<longleftrightarrow>
     visible \<and> (\<exists>r \<in> set (robots_in f). rb_id r = i \<and> rb_link_status r \<in> {LINK_STALE, LINK_LOST})"
proof -
  have "(\<exists>g. map_of (mv_ghosts (syncGhosts f visible mv)) i = Some g) \<longleftrightarrow>
      i \<in> fst ` set (mv_ghosts (syncGhosts f visible mv))"
    by (metis domD domI dom_map_of_conv_image_fst)
  then show ?thesis unfolding ghost_keys by (auto simp: ghosts_seen_def is_down_def)
qed

theorem ghosts_exactly_for_down_robots_witness:
  "\<exists>g. map_of (mv_ghosts (syncGhosts (Some (sample_frame [sample_robot ''R-06'' LINK_LOST 0] [])) True
     new_map_view)) ''R-06'' = Some g"
  unfolding ghosts_exactly_for_down_robots
  by (simp add: robots_in_def sample_frame_def sample_robot_def)

text \<open>C33: "LOST = freeze the ghost where it was": when the map sees a robot go from STALE to LOST
  with the ghost layer on, then through every later sequence of frames in which the robot is
  LOST (or missing), with the layer on or off, its ghost, whenever it is shown, stays at the
  position projected at that moment and is red.\<close>

theorem lost_ghost_is_frozen:
  assumes "map_of (mv_prevLink mv) i = Some LINK_STALE"
    and "filter (\<lambda>r. rb_id r = i) (robots_in f) = [r]" "rb_link_status r = LINK_LOST"
    and "\<forall>(g, v) \<in> set fs. \<forall>x \<in> set (robots_in g). rb_id x = i \<longrightarrow> rb_link_status x = LINK_LOST"
    and "map_of (mv_ghosts (sync_frames fs (syncGhosts f True mv))) i = Some g"
  shows "gh_lnglat g = (case ghostPosMeters (rb_telemetry r) (rb_age_ms r) of (x, y) \<Rightarrow> metersToLonLat x y) \<and>
    gh_lost g"
proof -
  let ?p = "ghostPosMeters (rb_telemetry r) (rb_age_ms r)"
  have i: "rb_id r = i" using assms(2) by (auto dest: filter_eq_ConsD)
  from once_synced[OF assms(2), of mv True] obtain mv' where mv':
    "map_of (mv_prevLink mv') i = Some LINK_STALE"
    "map_of (mv_prevLink (syncGhosts f True mv)) i = map_of (mv_prevLink (sync_ghost True mv' r)) i"
    "map_of (mv_lostFrozen (syncGhosts f True mv)) i = map_of (mv_lostFrozen (sync_ghost True mv' r)) i"
    "map_of (mv_ghosts (syncGhosts f True mv)) i = map_of (mv_ghosts (sync_ghost True mv' r)) i"
    using assms(1,3) by (auto simp: is_down_def)
  have "ghost_at i ?p (sync_ghost True mv' r)"
    using mv'(1) i assms(3) by (simp add: ghost_at_def sync_ghost_def Let_def is_down_def)
  then have "ghost_at i ?p (syncGhosts f True mv)"
    using mv'(2-4) by (simp add: ghost_at_def)
  from ghost_at_frames[OF this assms(4)] assms(5) show ?thesis
    by (simp add: ghost_at_def split_beta)
qed

theorem lost_ghost_is_frozen_witness:
  "map_option gh_lnglat (map_of (mv_ghosts (sync_frames
      [(Some (sample_frame [(sample_robot ''R-06'' LINK_LOST (Fin 10))\<lparr>rb_age_ms := 9000\<rparr>] []), True)]
      (syncGhosts (Some (sample_frame [sample_robot ''R-06'' LINK_LOST (Fin 10)] [])) True
        (new_map_view\<lparr>mv_prevLink := [(''R-06'', LINK_STALE)]\<rparr>)))) ''R-06'') =
   Some (case ghostPosMeters (rb_telemetry (sample_robot ''R-06'' LINK_LOST (Fin 10))) 0 of
     (x, y) \<Rightarrow> metersToLonLat x y)"
proof -
  let ?r = "sample_robot ''R-06'' LINK_LOST (Fin 10)" and ?mv = "new_map_view\<lparr>mv_prevLink := [(''R-06'', LINK_STALE)]\<rparr>"
  let ?fs = "[(Some (sample_frame [?r\<lparr>rb_age_ms := 9000\<rparr>] []), True)]" and ?f = "Some (sample_frame [?r] [])"
  have hyps: "map_of (mv_prevLink ?mv) ''R-06'' = Some LINK_STALE"
    "filter (\<lambda>r. rb_id r = ''R-06'') (robots_in ?f) = [?r]" "rb_link_status ?r = LINK_LOST"
    "\<forall>(g, v) \<in> set ?fs. \<forall>x \<in> set (robots_in g). rb_id x = ''R-06'' \<longrightarrow> rb_link_status x = LINK_LOST"
    by (simp_all add: robots_in_def sample_frame_def sample_robot_def)
  have "\<exists>g. map_of (mv_ghosts (sync_frames ?fs (syncGhosts ?f True ?mv))) ''R-06'' = Some g"
    using ghost_keys[of "fst (hd ?fs)" True "syncGhosts ?f True ?mv"]
    by (simp add: sync_frames_def ghosts_seen_def robots_in_def sample_frame_def sample_robot_def is_down_def)
      (metis domD dom_map_of_conv_image_fst insertI1)
  then obtain g where g: "map_of (mv_ghosts (sync_frames ?fs (syncGhosts ?f True ?mv))) ''R-06'' = Some g" ..
  from lost_ghost_is_frozen[OF hyps g] g show ?thesis by (simp add: sample_robot_def)
qed

text \<open>The freeze is taken only while the layer is on: when the transition from STALE to LOST
  happens with ghosts hidden, a ghost shown later is the extrapolation from the current age, so
  it keeps moving although the robot is LOST.\<close>

theorem hidden_transition_keeps_moving:
  assumes "map_of (mv_lostFrozen mv) i = None"
    and "filter (\<lambda>r. rb_id r = i) (robots_in f) = [r]" "rb_link_status r = LINK_LOST"
    and "filter (\<lambda>r. rb_id r = i) (robots_in g) = [r']" "rb_link_status r' = LINK_LOST"
  shows "map_option gh_lnglat (map_of (mv_ghosts (syncGhosts g True (syncGhosts f False mv))) i) =
    Some (case ghostPosMeters (rb_telemetry r') (rb_age_ms r') of (x, y) \<Rightarrow> metersToLonLat x y)"
proof -
  let ?mv1 = "syncGhosts f False mv"
  have ids: "rb_id r = i" "rb_id r' = i" using assms(2,4) by (auto dest: filter_eq_ConsD)
  from once_synced[OF assms(2), of mv False] assms(1,3) ids(1)
  have mv1: "map_of (mv_lostFrozen ?mv1) i = None" "map_of (mv_prevLink ?mv1) i = Some LINK_LOST"
    by (auto simp: sync_ghost_def Let_def)
  from once_synced[OF assms(4), of ?mv1 True] obtain mv' where
    "map_of (mv_prevLink mv') i = Some LINK_LOST" "map_of (mv_lostFrozen mv') i = None"
    "map_of (mv_ghosts (syncGhosts g True ?mv1)) i = map_of (mv_ghosts (sync_ghost True mv' r')) i"
    using mv1 assms(5) by (auto simp: is_down_def)
  with ids(2) assms(5) show ?thesis
    by (simp add: sync_ghost_def Let_def is_down_def split_beta)
qed

theorem hidden_transition_keeps_moving_witness:
  "map_option gh_lnglat (map_of (mv_ghosts
      (syncGhosts (Some (sample_frame [(sample_robot ''R-06'' LINK_LOST (Fin 10))\<lparr>rb_age_ms := 9000\<rparr>] [])) True
        (syncGhosts (Some (sample_frame [sample_robot ''R-06'' LINK_LOST (Fin 10)] [])) False
          (new_map_view\<lparr>mv_prevLink := [(''R-06'', LINK_STALE)]\<rparr>)))) ''R-06'') =
   Some (case ghostPosMeters (rb_telemetry (sample_robot ''R-06'' LINK_LOST (Fin 10))) 9000 of
     (x, y) \<Rightarrow> metersToLonLat x y)"
proof -
  let ?r = "sample_robot ''R-06'' LINK_LOST (Fin 10)"
  let ?mv = "new_map_view\<lparr>mv_prevLink := [(''R-06'', LINK_STALE)]\<rparr>"
  have "map_of (mv_lostFrozen ?mv) ''R-06'' = None"
    "filter (\<lambda>r. rb_id r = ''R-06'') (robots_in (Some (sample_frame [?r] []))) = [?r]"
    "rb_link_status ?r = LINK_LOST"
    "filter (\<lambda>r. rb_id r = ''R-06'') (robots_in (Some (sample_frame [?r\<lparr>rb_age_ms := 9000\<rparr>] []))) =
       [?r\<lparr>rb_age_ms := 9000\<rparr>]"
    "rb_link_status (?r\<lparr>rb_age_ms := 9000\<rparr>) = LINK_LOST"
    by (simp_all add: robots_in_def sample_frame_def sample_robot_def new_map_view_def)
  from hidden_transition_keeps_moving[OF this] show ?thesis by simp
qed

text \<open>The breach pulse is bounded and ends: started at any time, through any animation
  frames it keeps the fence outline between 3 and 9 pixels wide, and the first frame 1.8
  seconds after the start restores the cyan outline at width 3 and stops the animation.\<close>

theorem breach_pulse_restores:
  assumes "mv_pulse mv = Some start" "mv_fence_width mv \<in> {3..9}" "start + 1800 \<le> t"
  shows "mv_fence_width (foldl (\<lambda>m t. pulse_frame t m) mv ts) \<in> {3..9} \<and>
    (mv_pulse (foldl (\<lambda>m t. pulse_frame t m) mv ts) \<noteq> None \<longrightarrow>
      (let mv' = pulse_frame t (foldl (\<lambda>m t. pulse_frame t m) mv ts)
       in mv_fence_color mv' = FENCE_UNION_COLOR \<and> mv_fence_width mv' = 3 \<and> mv_pulse mv' = None))"
proof -
  have inv: "mv_fence_width (pulse_frame u m) \<in> {3..9} \<and> mv_pulse (pulse_frame u m) \<in> {None, Some start}"
    if "mv_fence_width m \<in> {3..9}" "mv_pulse m \<in> {None, Some start}" for u m
    using that by (auto simp: pulse_frame_def Let_def PULSE_MS_def split: if_splits)
  have "mv_fence_width (foldl (\<lambda>m t. pulse_frame t m) mv ts) \<in> {3..9} \<and>
      mv_pulse (foldl (\<lambda>m t. pulse_frame t m) mv ts) \<in> {None, Some start}"
    by (induction ts rule: rev_induct) (use assms inv in auto)
  then show ?thesis using assms(3) by (auto simp: pulse_frame_def Let_def PULSE_MS_def)
qed

theorem breach_pulse_restores_witness:
  "mv_fence_width (pulse_frame 2000 (pulse_frame 300 (new_map_view\<lparr>mv_pulse := Some 100\<rparr>))) = 3"
proof -
  let ?mv = "new_map_view\<lparr>mv_pulse := Some 100\<rparr>"
  have "mv_pulse ?mv = Some 100" "mv_fence_width ?mv \<in> {3..9}" "(100::real) + 1800 \<le> 2000"
    by (simp_all add: new_map_view_def)
  from breach_pulse_restores[OF this, of "[300]"] show ?thesis
    by (simp add: Let_def) (simp add: pulse_frame_def PULSE_MS_def Let_def)
qed

section \<open>What the load handler sees\<close>

lemma sync_marker_layout [simp]: "mv_layout (sync_marker svg sel crit sb mv r) = mv_layout mv"
  by (simp add: sync_marker_def Let_def split_beta)

lemma flash_layout [simp]: "mv_layout (flash i mv) = mv_layout mv"
  by (simp add: flash_def split: option.split)

lemma sync_ghost_layout [simp]: "mv_layout (sync_ghost v mv r) = mv_layout mv"
  by (simp add: sync_ghost_def Let_def)

lemma sync_layout [simp]:
  "mv_layout (syncMarkers svg f sel crit sb mv) = mv_layout mv"
  "mv_layout (syncGhosts f v mv) = mv_layout mv"
  "mv_layout (set_data i fc mv) = mv_layout mv"
proof -
  have "mv_layout (foldl (sync_marker svg sel crit sb) mv rs) = mv_layout mv" for rs
    by (induction rs rule: rev_induct) simp_all
  then show "mv_layout (syncMarkers svg f sel crit sb mv) = mv_layout mv"
    by (simp add: syncMarkers_def Let_def)
  have "mv_layout (foldl (sync_ghost v) mv rs) = mv_layout mv" for rs
    by (induction rs rule: rev_induct) simp_all
  then show "mv_layout (syncGhosts f v mv) = mv_layout mv" by (simp add: syncGhosts_def Let_def)
  show "mv_layout (set_data i fc mv) = mv_layout mv" by (simp add: set_data_def split: option.split)
qed

lemma sync_marker_host [simp]:
  "mv_created (sync_marker svg sel crit sb mv r) = mv_created mv"
  "mv_ready (sync_marker svg sel crit sb mv r) = mv_ready mv"
  "mv_frameRef (sync_marker svg sel crit sb mv r) = mv_frameRef mv"
  "mv_osmRef (sync_marker svg sel crit sb mv r) = mv_osmRef mv"
  "mv_first (sync_marker svg sel crit sb mv r) = mv_first mv"
  "mv_pulse (sync_marker svg sel crit sb mv r) = mv_pulse mv"
  by (simp_all add: sync_marker_def Let_def split_beta)

lemma sync_ghost_host [simp]:
  "mv_created (sync_ghost v mv r) = mv_created mv"
  "mv_ready (sync_ghost v mv r) = mv_ready mv"
  "mv_frameRef (sync_ghost v mv r) = mv_frameRef mv"
  "mv_osmRef (sync_ghost v mv r) = mv_osmRef mv"
  "mv_first (sync_ghost v mv r) = mv_first mv"
  "mv_pulse (sync_ghost v mv r) = mv_pulse mv"
  by (simp_all add: sync_ghost_def flash_def Let_def split: option.split)

lemma foldl_marker_host [simp]:
  "mv_created (foldl (sync_marker svg sel crit sb) mv rs) = mv_created mv"
  "mv_ready (foldl (sync_marker svg sel crit sb) mv rs) = mv_ready mv"
  "mv_frameRef (foldl (sync_marker svg sel crit sb) mv rs) = mv_frameRef mv"
  "mv_osmRef (foldl (sync_marker svg sel crit sb) mv rs) = mv_osmRef mv"
  "mv_first (foldl (sync_marker svg sel crit sb) mv rs) = mv_first mv"
  "mv_pulse (foldl (sync_marker svg sel crit sb) mv rs) = mv_pulse mv"
  by (induction rs arbitrary: mv) simp_all

lemma foldl_ghost_host [simp]:
  "mv_created (foldl (sync_ghost v) mv rs) = mv_created mv"
  "mv_ready (foldl (sync_ghost v) mv rs) = mv_ready mv"
  "mv_frameRef (foldl (sync_ghost v) mv rs) = mv_frameRef mv"
  "mv_osmRef (foldl (sync_ghost v) mv rs) = mv_osmRef mv"
  "mv_first (foldl (sync_ghost v) mv rs) = mv_first mv"
  "mv_pulse (foldl (sync_ghost v) mv rs) = mv_pulse mv"
  by (induction rs arbitrary: mv) simp_all

lemma set_data_host [simp]:
  "mv_created (set_data i fc mv) = mv_created mv"
  "mv_ready (set_data i fc mv) = mv_ready mv"
  "mv_frameRef (set_data i fc mv) = mv_frameRef mv"
  "mv_osmRef (set_data i fc mv) = mv_osmRef mv"
  "mv_first (set_data i fc mv) = mv_first mv"
  "mv_pulse (set_data i fc mv) = mv_pulse mv"
  by (simp_all add: set_data_def split: option.split)

lemma redraw_host [simp]:
  "mv_created (redraw_effect svg p mv) = mv_created mv"
  "mv_ready (redraw_effect svg p mv) = mv_ready mv"
  "mv_frameRef (redraw_effect svg p mv) = mv_frameRef mv"
  "mv_osmRef (redraw_effect svg p mv) = mv_osmRef mv"
  "mv_first (redraw_effect svg p mv) = mv_first mv"
  "mv_pulse (redraw_effect svg p mv) = mv_pulse mv"
  by (simp_all add: redraw_effect_def redrawLines_def redrawOrbits_def syncMarkers_def syncGhosts_def Let_def)

lemma redraw_layout [simp]:
  "mv_layout (redraw_effect svg p mv) = mv_layout mv"
  by (simp add: redraw_effect_def redrawLines_def redrawOrbits_def Let_def)

lemma first_commit:
  "mv_layout (fst (map_commit svg fresh now zoom None p new_map_view)) = [(''osm'', True)] \<and>
   mv_first (fst (map_commit svg fresh now zoom None p new_map_view)) = Some p \<and>
   mv_osmRef (fst (map_commit svg fresh now zoom None p new_map_view)) = mp_basemap_osm p \<and>
   mv_ready (fst (map_commit svg fresh now zoom None p new_map_view)) = False"
proof -
  let ?mv = "(new_map_view\<lparr>mv_frameRef := mp_frame p, mv_osmRef := mp_basemap_osm p, mv_created := True,
    mv_first := Some p\<rparr>)"
  have "mv_first (redraw_effect svg p ?mv) = Some p \<and> mv_osmRef (redraw_effect svg p ?mv) = mp_basemap_osm p \<and>
      \<not> mv_ready (redraw_effect svg p ?mv)"
    by simp (simp add: new_map_view_def)
  moreover have "mv_layout (redraw_effect svg p ?mv) = [(''osm'', True)]"
    by simp (simp add: new_map_view_def)
  ultimately show ?thesis
    by (simp add: map_commit_def run_effect_def when_changed_def create_effect_def basemap_effect_def
        layers_effect_def pulse_effect_def Let_def)
qed

definition loaded_map :: "(bool \<Rightarrow> string) \<Rightarrow> trails \<Rightarrow> real \<Rightarrow> real \<Rightarrow> map_props \<Rightarrow> map_view" where
  "loaded_map svg trails now zoom p = on_load svg trails (fst (map_commit svg True now zoom None p new_map_view))"

lemma loaded_layout:
  "mv_layout (loaded_map svg trails now zoom p) = (''osm'', mp_basemap_osm p) # map (\<lambda>l. (l, True)) LOADED_LAYERS"
  using first_commit[of svg True now zoom p]
  by (simp add: loaded_map_def on_load_def redrawLines_def set_layout_def Let_def)

text \<open>When the map has loaded, the basemap is the one that was chosen, but every mission
  layer is visible whatever the layer toggles say, and a new frame with the same toggles does
  not hide them: a toggle that was switched off before the load is lost.\<close>

theorem load_forgets_layer_toggles:
  "map_of (mv_layout (loaded_map svg trails now zoom p)) ''osm'' = Some (mp_basemap_osm p) \<and>
   list_all (\<lambda>l. map_of (mv_layout (fst (map_commit svg fresh now' zoom' (Some p) (p\<lparr>mp_frame := f\<rparr>)
       (loaded_map svg trails now zoom p)))) l = Some True) LOADED_LAYERS"
proof -
  have same: "mv_layout (fst (map_commit svg fresh now' zoom' (Some p) (p\<lparr>mp_frame := f\<rparr>) mv)) = mv_layout mv" for mv
    by (simp add: map_commit_def when_changed_def run_effect_def Let_def)
  show ?thesis unfolding same loaded_layout by (simp add: LOADED_LAYERS_def)
qed

text \<open>The lines of the map, once it has loaded.\<close>

lemma sync_marker_sources [simp]: "mv_sources (sync_marker svg sel crit sb mv r) = mv_sources mv"
  by (simp add: sync_marker_def Let_def split_beta)

lemma sync_ghost_sources [simp]: "mv_sources (sync_ghost v mv r) = mv_sources mv"
  by (simp add: sync_ghost_def flash_def Let_def split: option.split)

lemma foldl_marker_sources [simp]:
  "mv_sources (foldl (sync_marker svg sel crit sb) mv rs) = mv_sources mv"
  by (induction rs rule: rev_induct) simp_all

lemma foldl_ghost_sources [simp]: "mv_sources (foldl (sync_ghost v) mv rs) = mv_sources mv"
  by (induction rs rule: rev_induct) simp_all

lemma sync_sources [simp]:
  "mv_sources (syncMarkers svg f sel crit sb mv) = mv_sources mv"
  "mv_sources (syncGhosts f v mv) = mv_sources mv"
  by (simp_all add: syncMarkers_def syncGhosts_def Let_def)

definition has_lines :: "map_view \<Rightarrow> bool" where
  "has_lines mv \<longleftrightarrow> mv_created mv \<and> mv_ready mv \<and>
     list_all (\<lambda>i. map_of (mv_sources mv) i \<noteq> None) [''orbits'', ''trails'', ''headings'']"

lemma set_data_sources:
  "map_of (mv_sources mv) i \<noteq> None \<Longrightarrow> map_of (mv_sources (set_data i fc mv)) = (map_of (mv_sources mv))(i \<mapsto> fc)"
  by (auto simp: set_data_def)

lemma redraw_lines:
  assumes "has_lines mv"
  shows "map_of (mv_sources (redraw_effect svg p mv)) =
    (map_of (mv_sources mv))
      (''headings'' \<mapsto> map heading_line (robots_in (mp_frame p)),
       ''trails'' \<mapsto> trail_lines (mp_frame p) (mp_trails p),
       ''orbits'' \<mapsto> (if sv_orbit (mp_saVis p)
          then map orbit_line (filter (\<lambda>r. rb_id r \<in> set (mp_selected p) \<and> \<not> tl_radius (rb_telemetry r) \<le> Fin 0)
                 (robots_in (mp_frame p))) else []))"
  using assms
  by (simp add: has_lines_def redraw_effect_def redrawLines_def redrawOrbits_def Let_def set_data_sources)

lemma loaded_has_lines: "has_lines (loaded_map svg trails now zoom p)"
proof -
  have "mv_created (fst (map_commit svg True now zoom None p new_map_view))"
    by (simp add: map_commit_def run_effect_def when_changed_def create_effect_def basemap_effect_def
        layers_effect_def pulse_effect_def Let_def set_layout_def)
  with first_commit[of svg True now zoom p] show ?thesis
    by (simp add: has_lines_def loaded_map_def on_load_def Let_def syncMarkers_def syncGhosts_def
        redrawLines_def set_layout_def)
      (simp add: set_data_def)
qed

text \<open>With the simulator as the source, the dashed orbits on the map are the truth: for every
  selected robot, live or not, the line drawn is the circle of its actual centre and radius, and
  no other robot has one.\<close>

theorem drawn_orbits_are_true:
  assumes "has_lines mv" "sv_orbit (mp_saVis p)"
    and "robots_in (mp_frame p) = map (fake_robotState e q) rs" "0 \<le> e"
    and "list_all (\<lambda>r. robot_finite r \<and> \<not> fr_frozen r) rs"
  shows "map_of (mv_sources (redraw_effect svg p mv)) ''orbits'' =
    Some (map (\<lambda>r. \<lparr>lf_coords = circleLonLat (fr_cx r) (fr_cy r) (fr_R r) 64, lf_status = None\<rparr>)
      (filter (\<lambda>r. fr_id r \<in> set (mp_selected p)) rs))"
proof -
  have line: "orbit_line (fake_robotState e q r) =
      \<lparr>lf_coords = circleLonLat (fr_cx r) (fr_cy r) (fr_R r) 64, lf_status = None\<rparr> \<and>
      \<not> tl_radius (rb_telemetry (fake_robotState e q r)) \<le> Fin 0"
    if "robot_finite r \<and> \<not> fr_frozen r" for r
  proof -
    have "\<not> fr_R r \<le> Fin 0" using that by (auto simp: robot_finite_def is_finite_iff)
    have c: "robot_finite r" "\<not> fr_frozen r" using that by simp_all
    note c = center_of_telemetry[OF c assms(4), of q]
    show ?thesis
      using \<open>\<not> fr_R r \<le> Fin 0\<close> conjunct1[OF c, unfolded conjunct2[OF c]] conjunct2[OF c]
      by (simp add: orbit_line_def Let_def)
  qed
  have "map orbit_line (filter (\<lambda>r. rb_id r \<in> set (mp_selected p) \<and> \<not> tl_radius (rb_telemetry r) \<le> Fin 0)
        (map (fake_robotState e q) rs)) =
      map (\<lambda>r. \<lparr>lf_coords = circleLonLat (fr_cx r) (fr_cy r) (fr_R r) 64, lf_status = None\<rparr>)
        (filter (\<lambda>r. fr_id r \<in> set (mp_selected p)) rs)"
    using assms(5) by (induction rs) (simp_all add: line)
  then show ?thesis using assms(2) by (simp add: redraw_lines[OF assms(1)] assms(3))
qed

definition orbit_demo_props :: map_props where
  "orbit_demo_props =
     \<lparr>mp_frame = Some (sample_frame (map (fake_robotState 3 0) [fake_robot_of ''R-01'' 0 0 80 14 0 False]) []),
      mp_trails = [], mp_selected = [''R-01''], mp_basemap_osm = False, mp_fitNonce = 0,
      mp_layerVis = \<lparr>lv_mission = True, lv_buffers = True, lv_inputs = True\<rparr>,
      mp_saVis = \<lparr>sv_symbols = False, sv_orbit = True, sv_ghost = True\<rparr>, mp_critical = [],
      mp_breachNonce = 0, mp_flyTo = None\<rparr>"

theorem drawn_orbits_are_true_witness:
  "map_of (mv_sources (redraw_effect (\<lambda>_. '''') orbit_demo_props
      (loaded_map (\<lambda>_. '''') [] 0 14 orbit_demo_props))) ''orbits'' =
   Some [\<lparr>lf_coords = circleLonLat (Fin 0) (Fin 0) (Fin 80) 64, lf_status = None\<rparr>]"
proof -
  let ?r = "fake_robot_of ''R-01'' 0 0 80 14 0 False"
  have "sv_orbit (mp_saVis orbit_demo_props)"
    "robots_in (mp_frame orbit_demo_props) = map (fake_robotState 3 0) [?r]" "(0::real) \<le> 3"
    "list_all (\<lambda>r. robot_finite r \<and> \<not> fr_frozen r) [?r]"
    by (simp_all add: orbit_demo_props_def robots_in_def sample_frame_def robot_finite_def fake_robot_of_def)
  moreover have "mp_selected orbit_demo_props = [''R-01'']" by (simp add: orbit_demo_props_def)
  ultimately show ?thesis
    using drawn_orbits_are_true[OF loaded_has_lines[of "\<lambda>_. ''''" "[]" 0 14 orbit_demo_props],
        where p = orbit_demo_props and rs = "[?r]" and e = 3 and q = 0 and svg = "\<lambda>_. ''''"]
    by (simp add: fake_robot_of_def)
qed

end
