(* ===== verification/MapLayers.thy ===== *)
theory MapLayers
  imports MapView Fixtures
begin

text \<open>
  The style of the tactical map (\<open>web/src/MapView.tsx\<close>): the base style, the expressions that
  colour features by their properties, and the sources and layers that the \<open>load\<close> handler adds,
  as the list of calls it makes on the MapLibre map. MapLibre itself is outside the source: what
  a call needs (a source before the layers that use it, no id twice) is checked on the list, and
  the evaluation of an expression is a parameter.
\<close>

section \<open>The style language, as far as it is used\<close>

datatype style_expr =
    Str string
  | Num real
  | Nums "real list"
  | Get string
  | GeometryType
  | Equal style_expr style_expr
  | Match style_expr "(string \<times> string) list" string

record layer_spec =
  ly_id :: string
  ly_type :: string
  ly_source :: "string option"
  ly_filter :: "style_expr option"
  ly_layout :: "(string \<times> string) list"
  ly_paint :: "(string \<times> style_expr) list"

definition layer ::
  "string \<Rightarrow> string \<Rightarrow> string \<Rightarrow> (string \<times> style_expr) list \<Rightarrow> layer_spec"
where
  "layer i ty src paint = \<lparr>ly_id = i, ly_type = ty, ly_source = Some src, ly_filter = None,
     ly_layout = [], ly_paint = paint\<rparr>"

text \<open>The data of a GeoJSON source: features of the mission file, or lines drawn by the map.\<close>

datatype 'g source_data = Features "'g feature list" | Lines "line_feature list"

datatype 'g map_call =
    AddSource string "'g source_data"
  | AddLayer layer_spec
  | SetVisibility string bool

section \<open>The base style\<close>

record raster_source =
  rs_id :: string
  rs_tiles :: "string list"
  rs_tileSize :: nat
  rs_maxzoom :: nat

record base_style =
  bs_sources :: "raster_source list"
  bs_layers :: "layer_spec list"

definition STYLE :: base_style where
  "STYLE =
     \<lparr>bs_sources = [\<lparr>rs_id = ''osm'', rs_tiles = [''https://tile.openstreetmap.org/{z}/{x}/{y}.png''],
                     rs_tileSize = 256, rs_maxzoom = 19\<rparr>],
      bs_layers =
        [\<lparr>ly_id = ''bg'', ly_type = ''background'', ly_source = None, ly_filter = None, ly_layout = [],
          ly_paint = [(''background-color'', Str ''#0d1117'')]\<rparr>,
         layer ''osm'' ''raster'' ''osm''
           [(''raster-opacity'', Num (55 / 100)), (''raster-saturation'', Num (- 6 / 10)),
            (''raster-brightness-max'', Num (7 / 10))]]\<rparr>"

section \<open>What the load handler adds\<close>

definition bufferColorExpr :: style_expr where
  "bufferColorExpr = Match (Get ''name'')
     (map (\<lambda>n. (n, the (BUFFER_COLOR n)))
        [''fence_launch_point'', ''fence_ingress_route'', ''fence_region_of_interest'']) ''#8b949e''"

definition trailColorExpr :: style_expr where
  "trailColorExpr = Match (Get ''status'')
     [(''LINK_LIVE'', STATUS_COLOR LINK_LIVE), (''LINK_STALE'', STATUS_COLOR LINK_STALE)]
     (STATUS_COLOR LINK_STATUS_UNSPECIFIED)"

definition mission_sources :: "'g mission_fence \<Rightarrow> 'g map_call list" where
  "mission_sources m =
     [AddSource ''mission-inputs'' (Features (mf_inputs m)),
      AddSource ''mission-buffers'' (Features (mf_buffers m)),
      AddSource ''mission-union'' (Features (case mf_union m of Some f \<Rightarrow> [f] | None \<Rightarrow> []))]"

definition mission_layers :: "layer_spec list" where
  "mission_layers =
     [layer ''mission-union-fill'' ''fill'' ''mission-union''
        [(''fill-color'', Str FENCE_UNION_COLOR), (''fill-opacity'', Num (5 / 100))],
      layer ''mission-buffers-fill'' ''fill'' ''mission-buffers''
        [(''fill-color'', bufferColorExpr), (''fill-opacity'', Num (1 / 10))],
      layer ''mission-buffers-line'' ''line'' ''mission-buffers''
        [(''line-color'', bufferColorExpr), (''line-width'', Num 1), (''line-opacity'', Num (5 / 10))],
      layer ''mission-inputs-line'' ''line'' ''mission-inputs''
        [(''line-color'', Str INPUT_COLOR), (''line-width'', Num (12 / 10)), (''line-opacity'', Num (75 / 100)),
         (''line-dasharray'', Nums [2, 2])],
      (layer ''mission-inputs-point'' ''circle'' ''mission-inputs''
        [(''circle-radius'', Num 4), (''circle-color'', Str INPUT_COLOR),
         (''circle-stroke-color'', Str ''#0d1117''), (''circle-stroke-width'', Num (15 / 10))])
        \<lparr>ly_filter := Some (Equal GeometryType (Str ''Point''))\<rparr>,
      layer ''mission-union-line'' ''line'' ''mission-union''
        [(''line-color'', Str FENCE_UNION_COLOR), (''line-width'', Num 3), (''line-opacity'', Num 1)]]"

definition track_layers :: "layer_spec list" where
  "track_layers =
     [layer ''orbits-line'' ''line'' ''orbits''
        [(''line-color'', Str ''#58a6ff''), (''line-width'', Num (15 / 10)), (''line-opacity'', Num (85 / 100)),
         (''line-dasharray'', Nums [3, 3])],
      (layer ''trails-line'' ''line'' ''trails''
        [(''line-color'', trailColorExpr), (''line-width'', Num (15 / 10)), (''line-opacity'', Num (4 / 10))])
        \<lparr>ly_layout := [(''line-cap'', ''round''), (''line-join'', ''round'')]\<rparr>,
      layer ''headings-line'' ''line'' ''headings''
        [(''line-color'', Str ''#e6edf3''), (''line-width'', Num 2), (''line-opacity'', Num (85 / 100))]]"

definition load_calls :: "'g mission_fence \<Rightarrow> bool \<Rightarrow> 'g map_call list" where
  "load_calls m osm =
     mission_sources m @ map AddLayer mission_layers @
     map (\<lambda>i. AddSource i (Lines [])) [''orbits'', ''trails'', ''headings''] @
     map AddLayer track_layers @
     [SetVisibility ''osm'' osm]"

text \<open>The visibility toggles of \<open>layers_effect\<close>, as the calls they are.\<close>

definition layer_calls :: "layer_vis \<Rightarrow> 'g map_call list" where
  "layer_calls v =
     [SetVisibility ''mission-union-fill'' (lv_mission v), SetVisibility ''mission-union-line'' (lv_mission v),
      SetVisibility ''mission-buffers-fill'' (lv_buffers v), SetVisibility ''mission-buffers-line'' (lv_buffers v),
      SetVisibility ''mission-inputs-line'' (lv_inputs v), SetVisibility ''mission-inputs-point'' (lv_inputs v)]"

section \<open>What MapLibre asks of the calls\<close>

text \<open>A source or a layer id is used once, a layer's source exists, a property is set on a layer
  that exists.\<close>

fun calls_ok :: "string list \<Rightarrow> string list \<Rightarrow> 'g map_call list \<Rightarrow> bool" where
  "calls_ok srcs lys [] = True"
| "calls_ok srcs lys (AddSource i d # cs) = (i \<notin> set srcs \<and> calls_ok (i # srcs) lys cs)"
| "calls_ok srcs lys (AddLayer l # cs) =
     (ly_id l \<notin> set lys \<and> pred_option (\<lambda>s. s \<in> set srcs) (ly_source l) \<and> calls_ok srcs (ly_id l # lys) cs)"
| "calls_ok srcs lys (SetVisibility i v # cs) = (i \<in> set lys \<and> calls_ok srcs lys cs)"

fun added_layer :: "'g map_call \<Rightarrow> layer_spec list" where
  "added_layer (AddLayer l) = [l]"
| "added_layer _ = []"

fun added_source :: "'g map_call \<Rightarrow> (string \<times> 'g source_data) list" where
  "added_source (AddSource i d) = [(i, d)]"
| "added_source _ = []"

fun set_layer :: "'g map_call \<Rightarrow> (string \<times> bool) list" where
  "set_layer (SetVisibility i v) = [(i, v)]"
| "set_layer _ = []"

text \<open>The paint order, bottom first.\<close>

definition painted :: "'g map_call list \<Rightarrow> string list" where
  "painted cs = map ly_id (bs_layers STYLE @ concat (map added_layer cs))"

fun before :: "'a \<Rightarrow> 'a \<Rightarrow> 'a list \<Rightarrow> bool" where
  "before x y [] = False"
| "before x y (z # zs) = (if z = x then y \<in> set zs else before x y zs)"

definition paint_of :: "string \<Rightarrow> string \<Rightarrow> style_expr option" where
  "paint_of l k = Option.bind (find (\<lambda>s. ly_id s = l) (mission_layers @ track_layers)) (\<lambda>s. map_of (ly_paint s) k)"

section \<open>Properties\<close>

text \<open>The load handler and the layer toggles ask nothing impossible of the map: every source is
  added before the layers that draw it, no id is used twice, and every layer that is shown or
  hidden, on load or by a toggle later, exists by then.\<close>

theorem map_calls_valid:
  "calls_ok (map rs_id (bs_sources STYLE)) (map ly_id (bs_layers STYLE)) (load_calls m osm @ layer_calls v)"
  by (simp add: STYLE_def load_calls_def mission_sources_def mission_layers_def track_layers_def layer_def
      layer_calls_def)

text \<open>What is painted over what: everything of the mission lies under the lines of the robots,
  the outline of the union over its fill, the buffers and the inputs, and the raster basemap
  under all of it; the layers and the empty line sources are the ones the map component then
  works with.\<close>

theorem mission_under_robots:
  "list_all (\<lambda>a. list_all (\<lambda>b. before (ly_id a) (ly_id b) (painted (load_calls m osm))) track_layers) mission_layers \<and>
   list_all (\<lambda>a. ly_id a \<noteq> ''mission-union-line'' \<longrightarrow>
     before (ly_id a) ''mission-union-line'' (painted (load_calls m osm))) mission_layers \<and>
   list_all (\<lambda>a. before ''osm'' (ly_id a) (painted (load_calls m osm))) (mission_layers @ track_layers) \<and>
   concat (map added_layer (load_calls m osm)) = mission_layers @ track_layers \<and>
   map ly_id (mission_layers @ track_layers) = LOADED_LAYERS"
  by (simp add: STYLE_def painted_def load_calls_def mission_sources_def mission_layers_def track_layers_def
      layer_def LOADED_LAYERS_def)

text \<open>The calls, as far as the component's own state follows the map: the lines of a source, and
  which layers are visible.\<close>

definition do_call :: "map_view \<Rightarrow> 'g map_call \<Rightarrow> map_view" where
  "do_call mv c = (case c of
     AddSource i (Lines fc) \<Rightarrow> mv\<lparr>mv_sources := mv_sources mv @ [(i, fc)]\<rparr>
   | AddSource i (Features _) \<Rightarrow> mv
   | AddLayer l \<Rightarrow> mv\<lparr>mv_layout := mv_layout mv @ [(ly_id l, True)]\<rparr>
   | SetVisibility i v \<Rightarrow> set_layout i v mv)"

lemma do_layers:
  "foldl do_call mv (map AddLayer ls) = mv\<lparr>mv_layout := mv_layout mv @ map (\<lambda>l. (ly_id l, True)) ls\<rparr>"
  by (induction ls arbitrary: mv) (simp_all add: do_call_def)

lemma loaded_ids: "map (\<lambda>l. (ly_id l, True)) (mission_layers @ track_layers) = map (\<lambda>i. (i, True)) LOADED_LAYERS"
  by (simp add: mission_layers_def track_layers_def layer_def LOADED_LAYERS_def)

lemma do_load_calls:
  assumes "mv_sources mv = []"
  shows "foldl do_call mv (load_calls m osm) =
    set_layout ''osm'' osm (mv\<lparr>mv_sources := [(''orbits'', []), (''trails'', []), (''headings'', [])],
      mv_layout := mv_layout mv @ map (\<lambda>i. (i, True)) LOADED_LAYERS\<rparr>)"
  using assms
  by (simp add: load_calls_def mission_sources_def do_layers do_call_def loaded_ids[symmetric])

text \<open>The loaded map is what the calls make it: after the load handler the component's view of
  the map is the one its calls build, drawn with the current frame, and a toggle is exactly its
  six calls.\<close>

theorem load_and_toggles_are_calls:
  assumes "mv_first mv = Some p" "mv_sources mv = []" "mv_created mv" "mv_ready mv'" "mv_created mv'"
  shows "on_load svg trails mv =
      (let mv2 = (foldl do_call mv (load_calls m (mv_osmRef mv)))\<lparr>mv_ready := True\<rparr>;
           mv3 = redrawLines (mv_frameRef mv) trails mv2;
           mv4 = syncMarkers svg (mv_frameRef mv3) (mp_selected p) (mp_critical p) (sv_symbols (mp_saVis p)) mv3
       in syncGhosts (mv_frameRef mv4) (sv_ghost (mp_saVis p)) mv4) \<and>
    layers_effect q mv' = foldl do_call mv' (layer_calls (mp_layerVis q))"
  using assms
  by (simp add: on_load_def do_load_calls Let_def layers_effect_def layer_calls_def do_call_def)
    (simp add: set_layout_def)

theorem load_and_toggles_are_calls_witness:
  "layers_effect orbit_demo_props (new_map_view\<lparr>mv_created := True, mv_ready := True\<rparr>) =
     foldl do_call (new_map_view\<lparr>mv_created := True, mv_ready := True\<rparr>) (layer_calls (mp_layerVis orbit_demo_props))"
proof -
  let ?mv = "new_map_view\<lparr>mv_created := True, mv_first := Some orbit_demo_props\<rparr>"
  let ?mv' = "new_map_view\<lparr>mv_created := True, mv_ready := True\<rparr>"
  have "mv_first ?mv = Some orbit_demo_props" "mv_sources ?mv = []" "mv_created ?mv" "mv_ready ?mv'" "mv_created ?mv'"
    by (simp_all add: new_map_view_def)
  from load_and_toggles_are_calls[OF this, of "\<lambda>_. ''''" "[]" "fence mcmurdo" orbit_demo_props]
  show ?thesis by (rule conjunct2)
qed

text \<open>Each buffer of the generated mission file is drawn in the colour that \<open>viz.ts\<close> gives it, no
  two in the same and none in the fallback, for whatever evaluates \<open>match\<close> as the style
  specification documents it.\<close>

theorem buffers_coloured_by_name:
  assumes match: "\<And>k cases fb props. ev (Match (Get k) cases fb) props =
      (case Option.bind (props k) (map_of cases) of Some c \<Rightarrow> c | None \<Rightarrow> fb)"
    and buffers: "buffers = mf_buffers (fence (ff_features (fence_geojson buf merge)))"
    and view: "shown = (\<lambda>f. ev bufferColorExpr (\<lambda>k. if k = ''name'' then ft_name f else ft_role f))"
  shows "map (Some \<circ> shown) buffers = map (\<lambda>f. BUFFER_COLOR (the (ft_name f))) buffers \<and>
    distinct (map shown buffers) \<and> ''#8b949e'' \<notin> set (map shown buffers)"
proof -
  have names: "map ft_name buffers =
      map Some [''fence_launch_point'', ''fence_ingress_route'', ''fence_region_of_interest'']"
    by (simp add: buffers fence_geojson_def fence_def fx_feature_def)
  have shown: "shown f = (case Option.bind (ft_name f) (map_of
      (map (\<lambda>n. (n, the (BUFFER_COLOR n))) [''fence_launch_point'', ''fence_ingress_route'', ''fence_region_of_interest'']))
      of Some c \<Rightarrow> c | None \<Rightarrow> ''#8b949e'')" for f
    by (simp add: view bufferColorExpr_def match del: map_of.simps)
  from names obtain a b c where "buffers = [a, b, c]" "ft_name a = Some ''fence_launch_point''"
    "ft_name b = Some ''fence_ingress_route''" "ft_name c = Some ''fence_region_of_interest''"
    by (auto simp: map_eq_Cons_conv)
  then show ?thesis by (simp add: shown BUFFER_COLOR_def)
qed

theorem buffers_coloured_by_name_witness:
  "length (mf_buffers (fence (ff_features (fence_geojson (\<lambda>g r. g) (\<lambda>g h. g))))) = 3 \<and>
   distinct (map (\<lambda>f. (\<lambda>e props. case e of Match (Get k) cases fb \<Rightarrow>
         (case Option.bind (props k) (map_of cases) of Some c \<Rightarrow> c | None \<Rightarrow> fb) | _ \<Rightarrow> '''')
       bufferColorExpr (\<lambda>k. if k = ''name'' then ft_name f else ft_role f))
     (mf_buffers (fence (ff_features (fence_geojson (\<lambda>g r. g) (\<lambda>g h. g))))))"
proof -
  let ?ev = "\<lambda>e props. case e of Match (Get k) cases fb \<Rightarrow>
    (case Option.bind (props k) (map_of cases) of Some c \<Rightarrow> c | None \<Rightarrow> fb) | _ \<Rightarrow> ''''"
  have "?ev (Match (Get k) cases fb) props = (case Option.bind (props k) (map_of cases) of Some c \<Rightarrow> c | None \<Rightarrow> fb)"
    for k cases fb and props :: "string \<Rightarrow> string option" by simp
  from buffers_coloured_by_name[of ?ev, OF this refl refl, of "\<lambda>g r. g" "\<lambda>g h. g"]
  show ?thesis by (simp add: fence_geojson_def fence_def fx_feature_def)
qed

text \<open>A trail is drawn in the colour of its robot's dot unless the robot is LOST: the
  expression has no case for that status, so the trail of a red dot is the grey of an unknown one.\<close>

theorem lost_trail_not_red:
  assumes match: "\<And>k cases fb props. ev (Match (Get k) cases fb) props =
      (case Option.bind (props k) (map_of cases) of Some c \<Rightarrow> c | None \<Rightarrow> fb)"
  shows "ev trailColorExpr (\<lambda>k. if k = ''status'' then Some (link_str s) else None) = STATUS_COLOR s \<longleftrightarrow> s \<noteq> LINK_LOST"
  by (cases s) (simp_all add: trailColorExpr_def match)

theorem lost_trail_not_red_witness:
  "(\<lambda>e props. case e of Match (Get k) cases fb \<Rightarrow>
       (case Option.bind (props k) (map_of cases) of Some c \<Rightarrow> c | None \<Rightarrow> fb) | _ \<Rightarrow> '''')
     trailColorExpr (\<lambda>k. if k = ''status'' then Some (link_str LINK_LOST) else None) \<noteq> STATUS_COLOR LINK_LOST"
proof -
  let ?ev = "\<lambda>e props. case e of Match (Get k) cases fb \<Rightarrow>
    (case Option.bind (props k) (map_of cases) of Some c \<Rightarrow> c | None \<Rightarrow> fb) | _ \<Rightarrow> ''''"
  have "?ev (Match (Get k) cases fb) props = (case Option.bind (props k) (map_of cases) of Some c \<Rightarrow> c | None \<Rightarrow> fb)"
    for k cases fb and props :: "string \<Rightarrow> string option" by simp
  from lost_trail_not_red[of ?ev, OF this, of LINK_LOST] show ?thesis by simp
qed

text \<open>The breach pulse puts back the paint that the load handler gave the outline.\<close>

theorem pulse_restores_loaded_paint:
  assumes "mv_pulse mv = Some start" "PULSE_MS \<le> t - start"
  shows "paint_of ''mission-union-line'' ''line-color'' = Some (Str (mv_fence_color (pulse_frame t mv))) \<and>
    paint_of ''mission-union-line'' ''line-width'' = Some (Num (mv_fence_width (pulse_frame t mv))) \<and>
    mv_pulse (pulse_frame t mv) = None"
  using assms
  by (simp add: paint_of_def mission_layers_def layer_def pulse_frame_def PULSE_MS_def)

theorem pulse_restores_loaded_paint_witness:
  "mv_fence_width (pulse_frame 2000 (new_map_view\<lparr>mv_pulse := Some 100\<rparr>)) = 3"
proof -
  have "mv_pulse (new_map_view\<lparr>mv_pulse := Some 100\<rparr>) = Some 100" "PULSE_MS \<le> 2000 - 100"
    by (simp_all add: PULSE_MS_def)
  from pulse_restores_loaded_paint[OF this] show ?thesis
    by (simp add: paint_of_def mission_layers_def layer_def)
qed

end
