(* ===== verification/EngineTests.thy ===== *)
theory EngineTests
  imports AlertEngine
begin

text \<open>
  \<open>web/src/alertEngine.test.ts\<close>: the unit tests of the alert engine, run on the model. Each case
  feeds its frames to a fresh engine whose fence is \<open>x < 100\<close>, one millisecond apart, and states
  the kinds and the severities of what every frame raised.
\<close>

definition insideIfXlt100 :: "jsnum \<Rightarrow> jsnum \<Rightarrow> bool" where
  "insideIfXlt100 x y = (x < Fin 100)"

definition test_frame :: "real \<Rightarrow> link_status \<Rightarrow> command_status list \<Rightarrow> swarm_state" where
  "test_frame x link cs = sample_frame [sample_robot ''R-1'' link (Fin x)] cs"

definition test_cmd :: "command_state \<Rightarrow> command_status" where
  "test_cmd s = \<lparr>cs_command_id = ''c1'', cs_targets = [\<lparr>tg_robot_id = ''R-1'', tg_state = s, tg_detail = ''''\<rparr>]\<rparr>"

fun verdicts :: "engine \<Rightarrow> int \<Rightarrow> swarm_state list \<Rightarrow> (alert_kind \<times> severity) list list" where
  "verdicts e now [] = []"
| "verdicts e now (f # fs) =
     (let (e', out) = ingest insideIfXlt100 e f now
      in map (\<lambda>a. (al_kind a, al_severity a)) out # verdicts e' (now + 1) fs)"

definition run_test :: "swarm_state list \<Rightarrow> (alert_kind \<times> severity) list list" where
  "run_test fs = verdicts new_engine 0 fs"

lemmas test_simps = run_test_def verdicts.simps ingest_def test_frame_def sample_frame_def
  sample_robot_def test_cmd_def insideIfXlt100_def new_engine_def robot_step_def link_step_def
  fence_step_def linkAlert_def mk_def cmd_targets_def target_step_def cmd_key_def TERMINAL_FAILURES_def
  js_add_def Let_def

text \<open>Link transitions.\<close>

lemma first_sighting_silent: "run_test [test_frame 0 LINK_LIVE []] = [[]]"
  by (simp add: test_simps)

lemma link_ladder:
  "run_test [test_frame 0 LINK_LIVE [], test_frame 0 LINK_STALE [], test_frame 0 LINK_LOST [],
             test_frame 0 LINK_LIVE []] =
     [[], [(LinkAlert, Warn)], [(LinkAlert, Critical)], [(LinkAlert, Info)]]"
  by (simp add: test_simps)

lemma steady_status_silent:
  "run_test [test_frame 0 LINK_STALE [], test_frame 0 LINK_STALE [], test_frame 0 LINK_STALE []] = [[], [], []]"
  by (simp add: test_simps)

text \<open>Geofence.\<close>

lemma already_outside:
  "run_test [test_frame 200 LINK_LIVE [], test_frame 300 LINK_LIVE []] = [[(GeofenceAlert, Critical)], []]"
  by (simp add: test_simps)

lemma exit_and_reentry:
  "run_test [test_frame 0 LINK_LIVE [], test_frame 200 LINK_LIVE [], test_frame 300 LINK_LIVE [],
             test_frame 0 LINK_LIVE []] =
     [[], [(GeofenceAlert, Critical)], [], [(GeofenceAlert, Info)]]"
  by (simp add: test_simps)

lemma lost_robot_not_judged:
  "run_test [test_frame 0 LINK_LIVE [], test_frame 999 LINK_LOST []] = [[], [(LinkAlert, Critical)]]"
  by (simp add: test_simps)

text \<open>Commands.\<close>

lemma failure_warns_once:
  "run_test [test_frame 0 LINK_LIVE [test_cmd CMD_ROBOT_OFFLINE], test_frame 0 LINK_LIVE [test_cmd CMD_ROBOT_OFFLINE]] =
     [[(CommandAlert, Warn)], []]"
  by (simp add: test_simps)

lemma non_terminal_silent: "run_test [test_frame 0 LINK_LIVE [test_cmd CMD_SENT]] = [[]]"
  by (simp add: test_simps)

end
