(* ===== verification/Vdom.thy ===== *)
theory Vdom
  imports WireTypes
begin

text \<open>
  What the panels of the web client render, as a tree, and how the browser delivers an event to
  it: the handlers of the target and of its ancestors run from the inside out, until one of them
  stops the propagation; a disabled control swallows the event. A handler returns the callbacks
  it calls, as a list of actions of the caller's type, and whether it stopped the event. Style
  properties are attributes.
\<close>

record dom_event =
  de_value :: string
  de_ctrl :: bool
  de_meta :: bool
  de_shift :: bool

definition plain_event :: dom_event where
  "plain_event = \<lparr>de_value = '''', de_ctrl = False, de_meta = False, de_shift = False\<rparr>"

definition has_modifier :: "dom_event \<Rightarrow> bool" where
  "has_modifier e \<longleftrightarrow> de_ctrl e \<or> de_meta e \<or> de_shift e"

type_synonym 'a handler = "dom_event \<Rightarrow> 'a list \<times> bool"

datatype 'a vnode =
    Txt string
  | El string "(string \<times> string) list" "(string \<times> 'a handler) list" "'a vnode list"

text \<open>A handler that calls one callback and lets the event bubble.\<close>

definition calls :: "'a \<Rightarrow> 'a handler" where
  "calls a e = ([a], False)"

text \<open>Plain elements: a class and children; a class and text.\<close>

definition box :: "string \<Rightarrow> string \<Rightarrow> 'a vnode list \<Rightarrow> 'a vnode" where
  "box tag c kids = El tag [(''className'', c)] [] kids"

definition label :: "string \<Rightarrow> string \<Rightarrow> string \<Rightarrow> 'a vnode" where
  "label tag c s = box tag c [Txt s]"

text \<open>\<open>{cond && node}\<close>.\<close>

definition when_node :: "bool \<Rightarrow> 'a vnode \<Rightarrow> 'a vnode list" where
  "when_node c n = (if c then [n] else [])"

definition disabled_attr :: "bool \<Rightarrow> (string \<times> string) list" where
  "disabled_attr b = (if b then [(''disabled'', ''true'')] else [])"

definition handle :: "string \<Rightarrow> dom_event \<Rightarrow> (string \<times> 'a handler) list \<Rightarrow> 'a list \<times> bool" where
  "handle kind e hs = (case map_of hs kind of None \<Rightarrow> ([], False) | Some h \<Rightarrow> h e)"

fun dispatch :: "string \<Rightarrow> dom_event \<Rightarrow> nat list \<Rightarrow> 'a vnode \<Rightarrow> 'a list \<times> bool" where
  "dispatch kind e p (Txt s) = ([], p \<noteq> [])"
| "dispatch kind e p (El tag attrs hs kids) =
     (if map_of attrs ''disabled'' \<noteq> None then ([], True)
      else case p of
        [] \<Rightarrow> handle kind e hs
      | i # q \<Rightarrow>
          if i < length kids
          then (case dispatch kind e q (kids ! i) of
                  (as, stop) \<Rightarrow> if stop then (as, True)
                                else (case handle kind e hs of (bs, stop') \<Rightarrow> (as @ bs, stop')))
          else ([], True))"

definition click :: "nat list \<Rightarrow> 'a vnode \<Rightarrow> 'a list" where
  "click p n = fst (dispatch ''click'' plain_event p n)"

definition click_with :: "dom_event \<Rightarrow> nat list \<Rightarrow> 'a vnode \<Rightarrow> 'a list" where
  "click_with e p n = fst (dispatch ''click'' e p n)"

definition change :: "string \<Rightarrow> nat list \<Rightarrow> 'a vnode \<Rightarrow> 'a list" where
  "change s p n = fst (dispatch ''change'' (plain_event\<lparr>de_value := s\<rparr>) p n)"

text \<open>The text of a node, its children in order.\<close>

fun text_of :: "'a vnode \<Rightarrow> string" where
  "text_of (Txt s) = s"
| "text_of (El tag attrs hs kids) = concat (map text_of kids)"

lemmas vdom_simps = box_def label_def when_node_def disabled_attr_def handle_def calls_def click_def
  click_with_def change_def

section \<open>Which actions a tree can call\<close>

fun all_acts :: "('a \<Rightarrow> bool) \<Rightarrow> 'a vnode \<Rightarrow> bool" where
  "all_acts P (Txt s) = True"
| "all_acts P (El tag attrs hs kids) =
     (list_all (\<lambda>(k, h). \<forall>e. list_all P (fst (h e))) hs \<and> list_all (all_acts P) kids)"

lemma all_acts_dispatch: "all_acts P n \<Longrightarrow> list_all P (fst (dispatch kind e p n))"
proof (induction kind e p n rule: dispatch.induct)
  case (1 kind e p s)
  then show ?case by simp
next
  case (2 kind e p tag attrs hs kids)
  have own: "list_all P (fst (handle kind e hs))"
    using "2.prems" by (auto simp: handle_def list_all_iff split: option.split dest!: map_of_SomeD)
  show ?case
  proof (cases p)
    case Nil
    with own show ?thesis by (simp add: dispatch.simps(2))
  next
    case (Cons i q)
    show ?thesis
    proof (cases "map_of attrs ''disabled'' = None \<and> i < length kids")
      case True
      then have "all_acts P (kids ! i)" using "2.prems" by (auto simp: list_all_length)
      with "2.IH"[of i q] True Cons have "list_all P (fst (dispatch kind e q (kids ! i)))" by simp
      with own True Cons show ?thesis by (auto simp: dispatch.simps(2) split: prod.splits)
    next
      case False
      with Cons show ?thesis by (auto simp: dispatch.simps(2))
    qed
  qed
qed

lemma all_acts_when [simp]: "list_all (all_acts P) (when_node c n) \<longleftrightarrow> (c \<longrightarrow> all_acts P n)"
  by (simp add: when_node_def)

lemma all_acts_label [simp]: "all_acts P (label tag c s)"
  by (simp add: label_def box_def)

lemma all_acts_box [simp]: "all_acts P (box tag c kids) = list_all (all_acts P) kids"
  by (simp add: box_def)

lemma all_acts_calls [simp]: "list_all P (fst (calls a e)) = P a"
  by (simp add: calls_def)

text \<open>A tree without handlers for a kind of event calls nothing on it.\<close>

fun no_kind :: "string \<Rightarrow> 'a vnode \<Rightarrow> bool" where
  "no_kind kind (Txt s) = True"
| "no_kind kind (El tag attrs hs kids) =
     (list_all (\<lambda>(k, h). k \<noteq> kind) hs \<and> list_all (no_kind kind) kids)"

lemma no_kind_handle: "list_all (\<lambda>(k, h). k \<noteq> kind) hs \<Longrightarrow> handle kind e hs = ([], False)"
  by (induction hs) (auto simp: handle_def)

lemma no_kind_dispatch: "no_kind kind n \<Longrightarrow> fst (dispatch kind e p n) = []"
proof (induction kind e p n rule: dispatch.induct)
  case (1 kind e p s)
  then show ?case by simp
next
  case (2 kind e p tag attrs hs kids)
  then have own: "handle kind e hs = ([], False)" by (simp add: no_kind_handle)
  have "fst (dispatch kind e q (kids ! i)) = []"
    if "p = i # q" "map_of attrs ''disabled'' = None" "i < length kids" for i q
    using "2.IH"[of i q] that "2.prems" by (auto simp: list_all_length)
  with own show ?case by (auto simp: split_beta split: list.split)
qed

lemma no_kind_simps [simp]:
  "no_kind kind (label tag c s)"
  "no_kind kind (box tag c kids) = list_all (no_kind kind) kids"
  by (simp_all add: label_def box_def)

end
