(* ===== verification/UseAlerts.thy ===== *)
theory UseAlerts
  imports AlertEngine
begin

text \<open>
  \<open>web/src/useAlerts.ts\<close>, the React state around the alert engine, with the rows of
  \<open>web/src/AlertFeed.tsx\<close> through which the operator acknowledges. The state is the hook's
  refs and \<open>useState\<close> cells; one event is one committed frame (the effect on \<open>[frame]\<close>),
  one click on a row's ACK button, or ACK ALL.
\<close>

section \<open>Model\<close>

definition MAX_ALERTS :: nat where "MAX_ALERTS = 200"

record alerts_hook =
  ua_engine :: engine
  ua_alerts :: "alert list"
  ua_acked :: "string list"
  ua_breachPulseNonce :: nat

definition new_alerts_hook :: alerts_hook where
  "new_alerts_hook = \<lparr>ua_engine = new_engine, ua_alerts = [], ua_acked = [], ua_breachPulseNonce = 0\<rparr>"

definition push_alerts :: "alert list \<Rightarrow> alert list \<Rightarrow> alert list" where
  "push_alerts created prev = latest MAX_ALERTS (prev @ created)"

definition on_alert_frame ::
  "(jsnum \<Rightarrow> jsnum \<Rightarrow> bool) \<Rightarrow> alerts_hook \<Rightarrow> swarm_state option \<Rightarrow> int \<Rightarrow> alerts_hook"
where
  "on_alert_frame inside h frame now =
     (case frame of
        None \<Rightarrow> h
      | Some f \<Rightarrow>
          (let (e, created) = ingest inside (ua_engine h) f now; h1 = h\<lparr>ua_engine := e\<rparr> in
           if created = [] then h1
           else h1\<lparr>ua_alerts := push_alerts created (ua_alerts h1),
                   ua_breachPulseNonce :=
                     (if \<exists>a \<in> set created. al_kind a = GeofenceAlert \<and> al_severity a = Critical
                      then Suc (ua_breachPulseNonce h1) else ua_breachPulseNonce h1)\<rparr>))"

definition ack :: "string \<Rightarrow> alerts_hook \<Rightarrow> alerts_hook" where
  "ack i h = h\<lparr>ua_acked := js_add i (ua_acked h)\<rparr>"

definition ackAll :: "alerts_hook \<Rightarrow> alerts_hook" where
  "ackAll h = h\<lparr>ua_acked := js_set (map al_id (ua_alerts h))\<rparr>"

definition unacked :: "alerts_hook \<Rightarrow> alert list" where
  "unacked h = filter (\<lambda>a. al_id a \<notin> set (ua_acked h)) (ua_alerts h)"

definition unackedCount :: "alerts_hook \<Rightarrow> nat" where
  "unackedCount h = length (unacked h)"

definition criticalRobots :: "alerts_hook \<Rightarrow> string list" where
  "criticalRobots h =
     js_set (map al_robotId (filter (\<lambda>a. al_severity a = Critical) (unacked h)))"

text \<open>The rows of the alert feed, newest first; a row offers ACK while it is unacknowledged.\<close>

definition feed_rows :: "alerts_hook \<Rightarrow> (alert \<times> bool) list" where
  "feed_rows h = map (\<lambda>a. (a, al_id a \<in> set (ua_acked h))) (rev (ua_alerts h))"

datatype alert_event = FrameEv "swarm_state option" int | AckRow nat | AckAllEv

fun alert_event_step ::
  "(jsnum \<Rightarrow> jsnum \<Rightarrow> bool) \<Rightarrow> alerts_hook \<Rightarrow> alert_event \<Rightarrow> alerts_hook"
where
  "alert_event_step inside h (FrameEv f now) = on_alert_frame inside h f now"
| "alert_event_step inside h (AckRow n) =
     (if n < length (feed_rows h) then
        (case feed_rows h ! n of (a, isAck) \<Rightarrow> if isAck then h else ack (al_id a) h)
      else h)"
| "alert_event_step inside h AckAllEv = (if unackedCount h = 0 then h else ackAll h)"

definition alert_session ::
  "(jsnum \<Rightarrow> jsnum \<Rightarrow> bool) \<Rightarrow> alerts_hook \<Rightarrow> alert_event list \<Rightarrow> alerts_hook"
where
  "alert_session inside h evs = foldl (alert_event_step inside) h evs"

fun frames_of :: "alert_event list \<Rightarrow> (swarm_state \<times> int) list" where
  "frames_of [] = []"
| "frames_of (FrameEv (Some f) now # evs) = (f, now) # frames_of evs"
| "frames_of (_ # evs) = frames_of evs"

section \<open>The feed as a capped log\<close>

interpretation alert_log: bounded_log push_alerts "\<lambda>c. c" "\<lambda>l. l" MAX_ALERTS
  by unfold_locales (simp add: push_alerts_def)

lemma on_alert_frame_fields:
  "ua_acked (on_alert_frame inside h f now) = ua_acked h"
  "ua_engine (on_alert_frame inside h (Some g) now) = fst (ingest inside (ua_engine h) g now)"
  by (auto simp: on_alert_frame_def split_beta Let_def split: option.split)

lemma on_alert_frame_log:
  "length (ua_alerts h) \<le> MAX_ALERTS \<Longrightarrow>
     ua_alerts (on_alert_frame inside h (Some f) now) =
       push_alerts (snd (ingest inside (ua_engine h) f now)) (ua_alerts h)"
  by (simp add: on_alert_frame_def split_beta Let_def push_alerts_def)

lemma ack_events_keep_feed:
  "ua_engine (alert_event_step inside h (AckRow n)) = ua_engine h"
  "ua_alerts (alert_event_step inside h (AckRow n)) = ua_alerts h"
  "ua_engine (alert_event_step inside h AckAllEv) = ua_engine h"
  "ua_alerts (alert_event_step inside h AckAllEv) = ua_alerts h"
  by (auto simp: ack_def ackAll_def split: prod.split)

lemma frame_none: "on_alert_frame inside h None now = h"
  by (simp add: on_alert_frame_def)

lemma session_log:
  "length (ua_alerts h) \<le> MAX_ALERTS \<Longrightarrow>
     ua_engine (alert_session inside h evs) = fst (ingest_all inside (ua_engine h) (frames_of evs)) \<and>
     ua_alerts (alert_session inside h evs) =
       latest MAX_ALERTS (ua_alerts h @ snd (ingest_all inside (ua_engine h) (frames_of evs)))"
proof (induction evs arbitrary: h)
  case Nil
  then show ?case by (simp add: alert_session_def ingest_all_def)
next
  case (Cons ev evs)
  show ?case
  proof (cases ev)
    case (FrameEv f now)
    show ?thesis
    proof (cases f)
      case None
      with Cons FrameEv show ?thesis by (simp add: alert_session_def frame_none)
    next
      case (Some g)
      let ?h = "on_alert_frame inside h (Some g) now"
      have "length (ua_alerts ?h) \<le> MAX_ALERTS"
        using alert_log.view_bounded[OF Cons.prems] by (simp add: on_alert_frame_log Cons.prems)
      from Cons.IH[OF this] Cons.prems show ?thesis
        by (simp add: FrameEv Some alert_session_def ingest_all_def split_beta on_alert_frame_fields
            on_alert_frame_log push_alerts_def latest_append_latest)
    qed
  next
    case (AckRow n)
    from Cons.IH[of "alert_event_step inside h (AckRow n)"] Cons.prems AckRow show ?thesis
      by (simp add: alert_session_def ack_events_keep_feed del: alert_event_step.simps)
  next
    case AckAllEv
    from Cons.IH[of "alert_event_step inside h AckAllEv"] Cons.prems AckAllEv show ?thesis
      by (simp add: alert_session_def ack_events_keep_feed del: alert_event_step.simps)
  qed
qed

section \<open>Acknowledgement\<close>

text \<open>Acknowledged ids are ids the engine has already handed out, and feed ids never repeat.\<close>

definition hook_inv :: "alerts_hook \<Rightarrow> bool" where
  "hook_inv h \<longleftrightarrow>
     distinct (map al_id (ua_alerts h)) \<and>
     al_id ` set (ua_alerts h) \<subseteq> set (alert_ids 0 (en_seq (ua_engine h))) \<and>
     set (ua_acked h) \<subseteq> set (alert_ids 0 (en_seq (ua_engine h)))"

lemma alert_ids_mono: "m \<le> n \<Longrightarrow> set (alert_ids 0 m) \<subseteq> set (alert_ids 0 n)"
  by (auto simp: alert_ids_def)

lemma alert_ids_fresh: "set (alert_ids 0 m) \<inter> set (alert_ids m n) = {}"
  by (auto simp: alert_ids_def)

lemma hook_inv_new [inv_intros]: "hook_inv new_alerts_hook"
  by (simp add: hook_inv_def new_alerts_hook_def)

lemma hook_inv_push:
  assumes inv: "hook_inv h" and num: "numbered (ua_engine h) (e, created)"
  shows "hook_inv (h\<lparr>ua_engine := e, ua_alerts := push_alerts created (ua_alerts h),
           ua_breachPulseNonce := p\<rparr>)"
proof -
  let ?m = "en_seq (ua_engine h)" and ?n = "en_seq e"
  have n: "?n = ?m + length created" and ids: "map al_id created = alert_ids ?m ?n"
    using num by (auto simp: numbered_def)
  have new: "al_id ` set created = set (alert_ids ?m ?n)"
    using arg_cong[OF ids, of set] by simp
  have sub: "set (alert_ids 0 ?m) \<subseteq> set (alert_ids 0 ?n)" "set (alert_ids ?m ?n) \<subseteq> set (alert_ids 0 ?n)"
    using n by (auto simp: alert_ids_def)
  have "distinct (map al_id created)" by (simp add: ids distinct_alert_ids)
  moreover have "al_id ` set (ua_alerts h) \<inter> al_id ` set created = {}"
    using inv new alert_ids_fresh[of ?m ?n] by (auto simp: hook_inv_def)
  ultimately have "distinct (map al_id (ua_alerts h @ created))"
    using inv by (auto simp: hook_inv_def)
  then have "distinct (map al_id (push_alerts created (ua_alerts h)))"
    by (simp add: push_alerts_def distinct_latest flip: latest_map)
  moreover have "al_id ` set (push_alerts created (ua_alerts h)) \<subseteq> set (alert_ids 0 ?n)"
  proof -
    have "al_id ` set (push_alerts created (ua_alerts h)) \<subseteq> al_id ` (set (ua_alerts h) \<union> set created)"
      using set_latest[of MAX_ALERTS "ua_alerts h @ created"]
      by (intro image_mono) (simp add: push_alerts_def)
    moreover have "al_id ` set (ua_alerts h) \<subseteq> set (alert_ids 0 ?m)"
      using inv by (simp add: hook_inv_def)
    ultimately show ?thesis using new sub unfolding image_Un by blast
  qed
  ultimately show ?thesis using inv sub by (auto simp: hook_inv_def)
qed

lemma hook_inv_frame [inv_intros]: "hook_inv h \<Longrightarrow> hook_inv (on_alert_frame inside h f now)"
proof (cases f)
  case None
  then show "hook_inv h \<Longrightarrow> ?thesis" by (simp add: frame_none)
next
  case (Some g)
  assume inv: "hook_inv h"
  obtain e created where i: "ingest inside (ua_engine h) g now = (e, created)" by force
  have num: "numbered (ua_engine h) (e, created)"
    using numbered_ingest[of "ua_engine h" inside g now] by (simp add: i)
  have "en_seq (ua_engine h) \<le> en_seq e" using num by (simp add: numbered_def)
  with inv alert_ids_mono[OF this] have "hook_inv (h\<lparr>ua_engine := e\<rparr>)"
    by (auto simp: hook_inv_def)
  with hook_inv_push[OF inv num] show ?thesis
    by (simp add: Some on_alert_frame_def i Let_def)
qed

lemma hook_inv_ack [inv_intros]:
  "hook_inv h \<Longrightarrow> a \<in> set (ua_alerts h) \<Longrightarrow> hook_inv (ack (al_id a) h)"
  by (auto simp: hook_inv_def ack_def)

lemma hook_inv_ackAll [inv_intros]: "hook_inv h \<Longrightarrow> hook_inv (ackAll h)"
  by (auto simp: hook_inv_def ackAll_def)

lemma feed_row_alert:
  "n < length (feed_rows h) \<Longrightarrow> feed_rows h ! n = (a, b) \<Longrightarrow> a \<in> set (ua_alerts h)"
  using nth_mem[of n "feed_rows h"] by (auto simp: feed_rows_def)

lemma hook_inv_step: "hook_inv h \<Longrightarrow> hook_inv (alert_event_step inside h ev)"
  by (cases ev) (auto intro!: inv_intros dest: feed_row_alert split: prod.split)

lemma hook_inv_session: "hook_inv h \<Longrightarrow> hook_inv (alert_session inside h evs)"
  unfolding alert_session_def by (induction evs arbitrary: h) (auto simp: hook_inv_step)

lemma created_fresh:
  "hook_inv h \<Longrightarrow> numbered (ua_engine h) (e, created) \<Longrightarrow>
     al_id ` set created \<inter> set (ua_acked h) = {}"
proof -
  assume inv: "hook_inv h" and "numbered (ua_engine h) (e, created)"
  then have "map al_id created = alert_ids (en_seq (ua_engine h)) (en_seq e)"
    by (simp add: numbered_def)
  from arg_cong[OF this, of set]
  have "al_id ` set created = set (alert_ids (en_seq (ua_engine h)) (en_seq e))" by simp
  moreover have "set (ua_acked h) \<subseteq> set (alert_ids 0 (en_seq (ua_engine h)))"
    using inv by (simp add: hook_inv_def)
  ultimately show ?thesis using alert_ids_fresh by blast
qed

section \<open>Properties\<close>

text \<open>After any session from page load, the feed holds exactly the newest 200 of all the
  alerts the engine raised over the session's frames, oldest first; acknowledging never adds,
  drops or reorders an alert.\<close>

theorem feed_is_latest_200:
  "ua_alerts (alert_session inside new_alerts_hook evs) =
   latest 200 (snd (ingest_all inside new_engine (frames_of evs)))"
  using session_log[of new_alerts_hook inside evs]
  by (simp add: new_alerts_hook_def MAX_ALERTS_def)

text \<open>A new alert is never born acknowledged: after any session of frames and clicks,
  every alert that the next frame creates (of the newest 200) is listed as unacknowledged,
  because acknowledgements only ever name ids already handed out.\<close>

theorem new_alerts_unacked:
  "set (latest 200 (snd (ingest inside (ua_engine (alert_session inside new_alerts_hook evs)) f now)))
   \<subseteq> set (unacked (on_alert_frame inside (alert_session inside new_alerts_hook evs) (Some f) now))"
proof -
  let ?h = "alert_session inside new_alerts_hook evs"
  obtain e created where i: "ingest inside (ua_engine ?h) f now = (e, created)" by force
  have inv: "hook_inv ?h" by (rule hook_inv_session[OF hook_inv_new])
  have num: "numbered (ua_engine ?h) (e, created)"
    using numbered_ingest[of "ua_engine ?h" inside f now] by (simp add: i)
  have len: "length (ua_alerts ?h) \<le> MAX_ALERTS"
    using session_log[of new_alerts_hook inside evs] by (simp add: new_alerts_hook_def)
  have "set (latest 200 created) \<subseteq> set (ua_alerts (on_alert_frame inside ?h (Some f) now))"
    using set_mono_suffix[of "latest 200 created" "latest 200 (ua_alerts ?h @ created)"]
    by (simp add: on_alert_frame_log[OF len] i push_alerts_def MAX_ALERTS_def latest_def suffix_drop)
  moreover have "al_id a \<notin> set (ua_acked ?h)" if "a \<in> set (latest 200 created)" for a
    using created_fresh[OF inv num] set_latest[of 200 created] that by auto
  ultimately show ?thesis by (auto simp: unacked_def i on_alert_frame_fields)
qed

text \<open>ACK ALL clears the board: afterwards nothing is unacknowledged, the badge counts zero
  and no robot flashes on the map.\<close>

theorem ack_all_clears:
  "unacked (ackAll h) = [] \<and> unackedCount (ackAll h) = 0 \<and> criticalRobots (ackAll h) = []"
proof -
  have "unacked (ackAll h) = []" by (simp add: unacked_def ackAll_def filter_empty_conv)
  then show ?thesis by (simp add: unackedCount_def criticalRobots_def)
qed

text \<open>After any session, acknowledging a listed alert removes exactly that alert from the
  unacknowledged ones.\<close>

theorem ack_removes_one:
  assumes "a \<in> set (ua_alerts (alert_session inside new_alerts_hook evs))"
  shows "unacked (ack (al_id a) (alert_session inside new_alerts_hook evs)) =
         filter (\<lambda>b. b \<noteq> a) (unacked (alert_session inside new_alerts_hook evs))"
proof -
  let ?h = "alert_session inside new_alerts_hook evs"
  have "hook_inv ?h" by (rule hook_inv_session[OF hook_inv_new])
  then have "inj_on al_id (set (ua_alerts ?h))"
    by (simp add: hook_inv_def distinct_map)
  with assms have "al_id b = al_id a \<longleftrightarrow> b = a" if "b \<in> set (ua_alerts ?h)" for b
    using that by (auto dest: inj_onD)
  then show ?thesis by (auto simp: unacked_def ack_def intro!: filter_cong)
qed

theorem ack_removes_one_witness:
  "unacked (ack ''alert-0'' (alert_session (\<lambda>x y. x < Fin 100) new_alerts_hook
     [FrameEv (Some (sample_frame [sample_robot ''R-1'' LINK_LIVE (Fin 200)] [])) 5])) = []"
proof -
  let ?h = "alert_session (\<lambda>x y. x < Fin 100) new_alerts_hook
     [FrameEv (Some (sample_frame [sample_robot ''R-1'' LINK_LIVE (Fin 200)] [])) 5]"
  let ?a = "\<lparr>al_id = ''alert-0'', al_kind = GeofenceAlert, al_severity = Critical, al_ts = 5,
     al_robotId = ''R-1'', al_message = ''R-1 outside the geofence''\<rparr>"
  have alerts: "ua_alerts ?h = [?a]" and acked: "ua_acked ?h = []"
    by (simp_all add: alert_session_def on_alert_frame_def new_alerts_hook_def ingest_def
        sample_frame_def sample_robot_def cmd_targets_def robot_step_def link_step_def fence_step_def
        new_engine_def mk_def push_alerts_def MAX_ALERTS_def nat_str_0 Let_def)
  have "?a \<in> set (ua_alerts ?h)" by (simp add: alerts)
  from ack_removes_one[OF this] show ?thesis
    by (simp add: alerts acked unacked_def)
qed

end
