(* ===== verification/UseCommandAudit.thy ===== *)
theory UseCommandAudit
  imports AlertEngine
begin

text \<open>
  \<open>web/src/useCommandAudit.ts\<close>: the client-local audit log. The state is the hook's
  \<open>entries\<close> cell, newest first. \<open>record_command\<close> is the callback \<open>record\<close>; the effect
  on \<open>[frame]\<close> is \<open>on_audit_frame\<close>, whose \<open>changed\<close> flag decides between the new and the
  old list as the code does.
\<close>

section \<open>Model\<close>

definition MAX_ENTRIES :: nat where "MAX_ENTRIES = 100"

type_synonym outcomes = "(string, command_state) jsmap"

record audit_entry =
  ae_command_id :: string
  ae_ts :: int
  ae_targets :: "string list"
  ae_params :: params
  ae_allStop :: bool
  ae_outcomes :: outcomes

definition sameOutcomes :: "outcomes \<Rightarrow> outcomes \<Rightarrow> bool" where
  "sameOutcomes a b =
     (if length (map fst a) \<noteq> length (map fst b) then False
      else list_all (\<lambda>k. map_of a k = map_of b k) (map fst a))"

definition new_entry :: "string \<Rightarrow> command_intent \<Rightarrow> bool \<Rightarrow> int \<Rightarrow> audit_entry" where
  "new_entry command_id intent allStop now =
     \<lparr>ae_command_id = command_id, ae_ts = now, ae_targets = in_targets intent,
      ae_params = in_params intent, ae_allStop = allStop,
      ae_outcomes = foldl (\<lambda>o' t. AList.update t CMD_PENDING o') [] (in_targets intent)\<rparr>"

definition push_entry :: "audit_entry \<Rightarrow> audit_entry list \<Rightarrow> audit_entry list" where
  "push_entry e prev = take MAX_ENTRIES (e # prev)"

definition record_command ::
  "string \<Rightarrow> command_intent \<Rightarrow> bool \<Rightarrow> int \<Rightarrow> audit_entry list \<Rightarrow> audit_entry list"
where
  "record_command command_id intent allStop now prev =
     push_entry (new_entry command_id intent allStop now) prev"

definition by_id :: "swarm_state \<Rightarrow> (string, command_status) jsmap" where
  "by_id f = foldl (\<lambda>m c. AList.update (cs_command_id c) c m) [] (sw_commands f)"

definition merged_outcomes :: "outcomes \<Rightarrow> command_status \<Rightarrow> outcomes" where
  "merged_outcomes o1 cmd =
     foldl (\<lambda>o' t. AList.update (tg_robot_id t) (tg_state t) o') o1 (cs_targets cmd)"

text \<open>The callback of \<open>prev.map\<close>: the entry, and whether it set \<open>changed\<close>.\<close>

definition merge_entry :: "(string, command_status) jsmap \<Rightarrow> audit_entry \<Rightarrow> audit_entry \<times> bool" where
  "merge_entry m e =
     (case map_of m (ae_command_id e) of
        None \<Rightarrow> (e, False)
      | Some cmd \<Rightarrow>
          (let outs = merged_outcomes (ae_outcomes e) cmd in
           if sameOutcomes (ae_outcomes e) outs then (e, False)
           else (e\<lparr>ae_outcomes := outs\<rparr>, True)))"

definition on_audit_frame :: "swarm_state option \<Rightarrow> audit_entry list \<Rightarrow> audit_entry list" where
  "on_audit_frame frame prev =
     (case frame of
        None \<Rightarrow> prev
      | Some f \<Rightarrow>
          (let results = map (merge_entry (by_id f)) prev in
           if list_ex snd results then map fst results else prev))"

datatype audit_event =
    AuditFrame "swarm_state option"
  | Record string command_intent bool int

fun audit_step :: "audit_entry list \<Rightarrow> audit_event \<Rightarrow> audit_entry list" where
  "audit_step es (AuditFrame f) = on_audit_frame f es"
| "audit_step es (Record command_id intent allStop now) =
     record_command command_id intent allStop now es"

definition audit_session :: "audit_entry list \<Rightarrow> audit_event list \<Rightarrow> audit_entry list" where
  "audit_session es evs = foldl audit_step es evs"

section \<open>The merge without its shortcuts\<close>

text \<open>What the effect computes, entry by entry, were it to rebuild every entry.\<close>

definition merge_plain :: "swarm_state \<Rightarrow> audit_entry \<Rightarrow> audit_entry" where
  "merge_plain f e =
     (case map_of (by_id f) (ae_command_id e) of
        None \<Rightarrow> e
      | Some cmd \<Rightarrow> e\<lparr>ae_outcomes := merged_outcomes (ae_outcomes e) cmd\<rparr>)"

definition keys_ok :: "audit_entry \<Rightarrow> bool" where
  "keys_ok e \<longleftrightarrow> distinct (map fst (ae_outcomes e))"

lemma foldl_update_distinct:
  "distinct (map fst m) \<Longrightarrow> distinct (map fst (foldl (\<lambda>o' t. AList.update (k t) (v t) o') m ts))"
  by (induction ts arbitrary: m) (auto simp: distinct_update)

lemma foldl_update_keys:
  "\<exists>new. map fst (foldl (\<lambda>o' t. AList.update (k t) (v t) o') m ts) = map fst m @ new"
proof (induction ts arbitrary: m)
  case Nil
  then show ?case by simp
next
  case (Cons t ts)
  obtain n1 where "map fst (AList.update (k t) (v t) m) = map fst m @ n1"
    by (cases "k t \<in> set (map fst m)") (auto simp: update_keys)
  moreover obtain n2 where "map fst (foldl (\<lambda>o' t. AList.update (k t) (v t) o')
      (AList.update (k t) (v t) m) ts) = map fst (AList.update (k t) (v t) m) @ n2"
    using Cons by blast
  ultimately show ?case by simp
qed

lemma rebuild_from_keys:
  "distinct (map fst m) \<Longrightarrow> map (\<lambda>k. (k, the (map_of m k))) (map fst m) = m"
  by (auto simp: comp_def intro!: map_idI)

lemma same_keys_same_values:
  assumes "map fst a = map fst b" "distinct (map fst a)"
    "\<forall>k \<in> set (map fst a). map_of a k = map_of b k"
  shows "a = b"
proof -
  have "map (\<lambda>k. (k, the (map_of a k))) (map fst a) = map (\<lambda>k. (k, the (map_of b k))) (map fst b)"
    unfolding assms(1)[symmetric] using assms(3) by (intro map_cong) auto
  with rebuild_from_keys[of a] rebuild_from_keys[of b] assms(1,2) show ?thesis by simp
qed

lemma sameOutcomes_merged:
  assumes "distinct (map fst o1)" "sameOutcomes o1 (merged_outcomes o1 cmd)"
  shows "merged_outcomes o1 cmd = o1"
proof -
  obtain new where new: "map fst (merged_outcomes o1 cmd) = map fst o1 @ new"
    unfolding merged_outcomes_def
    using foldl_update_keys[of tg_robot_id tg_state o1 "cs_targets cmd"] by blast
  have "length (merged_outcomes o1 cmd) = length o1"
    using assms(2) by (simp add: sameOutcomes_def split: if_splits)
  with arg_cong[OF new, of length] have "new = []" by simp
  with new assms show ?thesis
    by (intro same_keys_same_values[symmetric])
      (auto simp: sameOutcomes_def list_all_iff split: if_splits)
qed

lemma merge_entry_plain: "keys_ok e \<Longrightarrow> fst (merge_entry (by_id f) e) = merge_plain f e"
  by (auto simp: merge_entry_def merge_plain_def keys_ok_def Let_def sameOutcomes_merged
      split: option.split)

lemma merge_entry_unchanged: "\<not> snd (merge_entry m e) \<Longrightarrow> fst (merge_entry m e) = e"
  by (auto simp: merge_entry_def Let_def split: option.splits)

lemma on_audit_frame_plain:
  assumes "list_all keys_ok es"
  shows "on_audit_frame (Some f) es = map (merge_plain f) es"
proof (cases "list_ex snd (map (merge_entry (by_id f)) es)")
  case True
  with assms show ?thesis
    by (auto simp: on_audit_frame_def Let_def merge_entry_plain list_all_iff)
next
  case False
  then have "fst (merge_entry (by_id f) e) = e" if "e \<in> set es" for e
    using that by (intro merge_entry_unchanged) (auto simp: list_ex_iff)
  with assms have "map (merge_plain f) es = es"
    by (intro map_idI) (auto simp: merge_entry_plain[symmetric] list_all_iff)
  with False show ?thesis by (simp add: on_audit_frame_def Let_def)
qed

lemma keys_ok_new [inv_intros]: "keys_ok (new_entry c i s t)"
  unfolding keys_ok_def new_entry_def by (simp add: foldl_update_distinct[of _ "\<lambda>t. t"])

lemma keys_ok_merge [inv_intros]: "keys_ok e \<Longrightarrow> keys_ok (merge_plain f e)"
  by (auto simp: keys_ok_def merge_plain_def merged_outcomes_def foldl_update_distinct
      split: option.split)

lemma keys_ok_step: "list_all keys_ok es \<Longrightarrow> list_all keys_ok (audit_step es ev)"
proof (cases ev)
  case (AuditFrame f)
  assume "list_all keys_ok es"
  then show ?thesis
    by (cases f) (simp_all add: AuditFrame on_audit_frame_plain[of es] on_audit_frame_def[of None]
        list.pred_map list.pred_mono_strong keys_ok_merge comp_def)
next
  case (Record c i s t)
  assume "list_all keys_ok es"
  then show ?thesis
    using set_take_subset[of MAX_ENTRIES "new_entry c i s t # es"] keys_ok_new[of c i s t]
    by (auto simp: Record record_command_def push_entry_def list_all_iff)
qed

lemma keys_ok_session: "list_all keys_ok es \<Longrightarrow> list_all keys_ok (audit_session es evs)"
  unfolding audit_session_def by (induction evs arbitrary: es) (auto simp: keys_ok_step)

section \<open>The log as a capped log\<close>

interpretation audit_log: bounded_log push_entry "\<lambda>e. [e]" rev MAX_ENTRIES
proof unfold_locales
  fix l :: "audit_entry list" and e
  assume "length (rev l) \<le> MAX_ENTRIES"
  show "rev (push_entry e l) = latest MAX_ENTRIES (rev l @ [e])"
    using take_rev_latest[of MAX_ENTRIES "rev (e # l)"] by (simp add: push_entry_def)
qed

fun recorded :: "audit_event list \<Rightarrow> string list" where
  "recorded [] = []"
| "recorded (Record c _ _ _ # evs) = c # recorded evs"
| "recorded (AuditFrame _ # evs) = recorded evs"

lemma merge_entry_id: "ae_command_id (fst (merge_entry m e)) = ae_command_id e"
  by (auto simp: merge_entry_def Let_def split: option.split)

lemma frame_keeps_ids: "map ae_command_id (on_audit_frame f es) = map ae_command_id es"
  by (auto simp: on_audit_frame_def Let_def merge_entry_id split: option.split)

lemma session_ids:
  "length es \<le> MAX_ENTRIES \<Longrightarrow>
     rev (map ae_command_id (audit_session es evs)) =
       latest MAX_ENTRIES (rev (map ae_command_id es) @ recorded evs)"
proof (induction evs arbitrary: es)
  case Nil
  then show ?case by (simp add: audit_session_def)
next
  case (Cons ev evs)
  have len: "length (audit_step es ev) \<le> MAX_ENTRIES"
  proof (cases ev)
    case (AuditFrame f)
    from arg_cong[OF frame_keeps_ids[of f es], of length] Cons.prems show ?thesis
      by (simp add: AuditFrame)
  qed (simp add: record_command_def push_entry_def)
  have ids: "rev (map ae_command_id (audit_step es ev)) =
      latest MAX_ENTRIES (rev (map ae_command_id es) @ recorded [ev])"
  proof (cases ev)
    case (AuditFrame f)
    with Cons.prems show ?thesis by (simp add: frame_keeps_ids)
  next
    case (Record c i s t)
    from audit_log.view_push[of es "new_entry c i s t"] Cons.prems
    have "rev (audit_step es ev) = latest MAX_ENTRIES (rev es @ [new_entry c i s t])"
      by (simp add: Record record_command_def)
    then have "map ae_command_id (rev (audit_step es ev)) =
        latest MAX_ENTRIES (map ae_command_id (rev es @ [new_entry c i s t]))"
      by (simp only: latest_map)
    then show ?thesis by (simp add: Record rev_map new_entry_def)
  qed
  have "recorded (ev # evs) = recorded [ev] @ recorded evs"
    by (cases ev) simp_all
  with Cons.IH[OF len] ids show ?case
    by (simp add: audit_session_def latest_append_latest)
qed

section \<open>Last known outcomes\<close>

text \<open>What a frame reports about one target of one command, if anything: the last target
  entry for the robot in the last command with the id.\<close>

definition reported :: "string \<Rightarrow> string \<Rightarrow> swarm_state \<Rightarrow> command_state option" where
  "reported c r f =
     (case last_of (\<lambda>s. cs_command_id s = c) (sw_commands f) of
        None \<Rightarrow> None
      | Some s \<Rightarrow> map_option tg_state (last_of (\<lambda>t. tg_robot_id t = r) (cs_targets s)))"

definition last_known :: "command_state option \<Rightarrow> command_state option list \<Rightarrow> command_state option" where
  "last_known = foldl (\<lambda>known rep. case rep of None \<Rightarrow> known | Some s \<Rightarrow> Some s)"

lemma map_of_foldl_update:
  "map_of (foldl (\<lambda>o' t. AList.update (k t) (v t) o') m ts) r =
     (case last_of (\<lambda>t. k t = r) ts of None \<Rightarrow> map_of m r | Some t \<Rightarrow> Some (v t))"
  by (induction ts arbitrary: m) (auto split: option.split)

lemma by_id_lookup: "map_of (by_id f) c = last_of (\<lambda>s. cs_command_id s = c) (sw_commands f)"
  unfolding by_id_def
  using map_of_foldl_update[of cs_command_id "\<lambda>c. c" "[]" "sw_commands f" c]
  by (auto split: option.splits)

lemma merge_plain_outcome:
  "map_of (ae_outcomes (merge_plain f e)) r =
     last_known (map_of (ae_outcomes e) r) [reported (ae_command_id e) r f]"
  by (auto simp: merge_plain_def by_id_lookup reported_def last_known_def merged_outcomes_def
      map_of_foldl_update split: option.split)

lemma merge_plain_id [simp]: "ae_command_id (merge_plain f e) = ae_command_id e"
  by (simp add: merge_plain_def split: option.split)

lemma frames_outcome:
  "keys_ok e \<Longrightarrow>
     map (\<lambda>x. map_of (ae_outcomes x) r) (audit_session [e] (map (\<lambda>f. AuditFrame (Some f)) fs)) =
     [last_known (map_of (ae_outcomes e) r) (map (reported (ae_command_id e) r) fs)]"
  by (induction fs arbitrary: e)
    (simp_all add: audit_session_def last_known_def on_audit_frame_plain merge_plain_outcome keys_ok_merge)

section \<open>Any entry of the log\<close>

fun audit_frames :: "audit_event list \<Rightarrow> swarm_state list" where
  "audit_frames [] = []"
| "audit_frames (AuditFrame (Some f) # evs) = f # audit_frames evs"
| "audit_frames (AuditFrame None # evs) = audit_frames evs"
| "audit_frames (Record _ _ _ _ # evs) = audit_frames evs"

text \<open>What an entry says apart from its outcomes.\<close>

definition entry_of :: "audit_entry \<Rightarrow> string \<times> int \<times> string list \<times> params \<times> bool" where
  "entry_of e = (ae_command_id e, ae_ts e, ae_targets e, ae_params e, ae_allStop e)"

lemma entry_of_merge [simp]: "entry_of (merge_plain f e) = entry_of e"
  by (simp add: entry_of_def merge_plain_def split: option.split)

lemma entry_of_id: "entry_of x = entry_of e \<Longrightarrow> ae_command_id x = ae_command_id e"
  by (simp add: entry_of_def)

text \<open>The entry at a position moves down by one with every command recorded, and is merged with
  every frame, whatever the entries around it are.\<close>

lemma entry_followed:
  assumes "list_all keys_ok es" "k < length es" "k + length (recorded evs) < MAX_ENTRIES"
  shows "k + length (recorded evs) < length (audit_session es evs) \<and>
    (let x = audit_session es evs ! (k + length (recorded evs)) in
       entry_of x = entry_of (es ! k) \<and>
       map_of (ae_outcomes x) r = last_known (map_of (ae_outcomes (es ! k)) r)
         (map (reported (ae_command_id (es ! k)) r) (audit_frames evs)))"
  using assms
proof (induction evs arbitrary: es k)
  case Nil
  then show ?case by (simp add: audit_session_def last_known_def)
next
  case (Cons ev evs)
  have keys: "list_all keys_ok (audit_step es ev)" using Cons.prems(1) by (rule keys_ok_step)
  show ?case
  proof (cases ev)
    case (Record c i st t)
    have "audit_step es ev = take MAX_ENTRIES (new_entry c i st t # es)"
      by (simp add: Record record_command_def push_entry_def)
    with Cons.prems(2,3) Record have "Suc k < length (audit_step es ev)" "audit_step es ev ! Suc k = es ! k"
      "Suc k + length (recorded evs) < MAX_ENTRIES" by (simp_all add: nth_Cons')
    with Cons.IH[OF keys, of "Suc k"] show ?thesis
      by (simp add: Record audit_session_def Let_def)
  next
    case (AuditFrame f)
    show ?thesis
    proof (cases f)
      case None
      with Cons.IH[of es k] Cons.prems show ?thesis
        by (simp add: AuditFrame audit_session_def on_audit_frame_def)
    next
      case (Some g)
      have step: "audit_step es ev = map (merge_plain g) es"
        using Cons.prems(1) by (simp add: AuditFrame Some on_audit_frame_plain)
      with Cons.prems(2,3) have "k < length (audit_step es ev)" "audit_step es ev ! k = merge_plain g (es ! k)"
        "k + length (recorded evs) < MAX_ENTRIES" by (simp_all add: AuditFrame)
      with Cons.IH[OF keys, of k] show ?thesis
        by (simp add: AuditFrame Some audit_session_def Let_def merge_plain_outcome last_known_def)
    qed
  qed
qed

lemma new_entry_outcome:
  "map_of (ae_outcomes (new_entry c intent s t)) r = (if r \<in> set (in_targets intent) then Some CMD_PENDING else None)"
  using map_of_foldl_update[of "\<lambda>t. t" "\<lambda>_. CMD_PENDING" "[]" "in_targets intent" r]
    last_of_None[of "\<lambda>t. t = r" "in_targets intent"]
  by (auto simp: new_entry_def split: option.splits)

lemma recorded_append [simp]: "recorded (xs @ ys) = recorded xs @ recorded ys"
  by (induction xs rule: recorded.induct) simp_all

section \<open>Properties\<close>

text \<open>After any session of recorded commands and frames, the effect's shortcuts (keeping an
  entry whose outcomes are the same, and the whole list when no entry changed) do not change
  the result: the log is what rebuilding every entry from the frame would give.\<close>

theorem audit_shortcuts_sound:
  "on_audit_frame (Some f) (audit_session [] evs) = map (merge_plain f) (audit_session [] evs)"
  by (rule on_audit_frame_plain) (simp add: keys_ok_session)

text \<open>C32: A log must not forget: in any session, whatever was logged before, whatever frames and other
  commands follow, and whether or not the server still lists the command, the entry of a command is
  in the log as it was recorded, below the entries of the commands recorded since (as long as those
  are fewer than 100), and it shows for each robot the state that the last frame since mentioning
  that robot under that command reported, PENDING for a target no frame has mentioned, and nothing
  for a robot that was neither a target nor mentioned.\<close>

theorem audit_shows_last_known:
  assumes "length (recorded es2) < 100"
  shows "let log = audit_session [] (es1 @ Record c intent stop t # es2); k = length (recorded es2) in
    k < length log \<and>
    entry_of (log ! k) = (c, t, in_targets intent, in_params intent, stop) \<and>
    (\<forall>r. map_of (ae_outcomes (log ! k)) r =
       last_known (if r \<in> set (in_targets intent) then Some CMD_PENDING else None)
         (map (reported c r) (audit_frames es2)))"
proof -
  let ?es = "record_command c intent stop t (audit_session [] es1)"
  have head: "0 < length ?es" "?es ! 0 = new_entry c intent stop t"
    by (simp_all add: record_command_def push_entry_def MAX_ENTRIES_def)
  have keys: "list_all keys_ok ?es"
    using keys_ok_step[OF keys_ok_session[of "[]" es1], of "Record c intent stop t"] by simp
  have log: "audit_session [] (es1 @ Record c intent stop t # es2) = audit_session ?es es2"
    by (simp add: audit_session_def)
  have bound: "0 + length (recorded es2) < MAX_ENTRIES" using assms by (simp add: MAX_ENTRIES_def)
  have new: "entry_of (new_entry c intent stop t) = (c, t, in_targets intent, in_params intent, stop)"
    "ae_command_id (new_entry c intent stop t) = c"
    by (simp_all add: entry_of_def new_entry_def)
  show ?thesis
    using entry_followed[OF keys head(1) bound] by (simp add: log head(2) new new_entry_outcome Let_def)
qed

theorem audit_shows_last_known_witness:
  "let one = \<lparr>in_command_id = None, in_targets = [''R-1''], in_params = no_params\<rparr>;
       two = \<lparr>in_command_id = None, in_targets = [''R-2''], in_params = no_params\<rparr>
   in map_of (ae_outcomes (audit_session []
       [Record ''web-1-0'' one False 7, Record ''web-1-1'' two False 8,
        AuditFrame (Some (sample_frame [] [\<lparr>cs_command_id = ''web-1-0'', cs_targets =
          [\<lparr>tg_robot_id = ''R-1'', tg_state = CMD_APPLIED, tg_detail = ''''\<rparr>]\<rparr>])),
        AuditFrame (Some (sample_frame [] []))] ! 1)) ''R-1'' = Some CMD_APPLIED"
proof -
  let ?one = "\<lparr>in_command_id = None, in_targets = [''R-1''], in_params = no_params\<rparr>"
  let ?es2 = "[Record ''web-1-1'' \<lparr>in_command_id = None, in_targets = [''R-2''], in_params = no_params\<rparr> False 8,
        AuditFrame (Some (sample_frame [] [\<lparr>cs_command_id = ''web-1-0'', cs_targets =
          [\<lparr>tg_robot_id = ''R-1'', tg_state = CMD_APPLIED, tg_detail = ''''\<rparr>]\<rparr>])),
        AuditFrame (Some (sample_frame [] []))]"
  have "length (recorded ?es2) < 100" by simp
  from audit_shows_last_known[OF this, of "[]" "''web-1-0''" ?one False 7] show ?thesis
    by (simp add: Let_def reported_def sample_frame_def last_known_def)
qed

text \<open>The log holds exactly the ids of the newest 100 commands recorded in the session, newest
  first; frames never add, drop or reorder an entry.\<close>

theorem audit_keeps_newest_100:
  "rev (map ae_command_id (audit_session [] evs)) = latest 100 (recorded evs)"
  using session_ids[of "[]" evs] by (simp add: MAX_ENTRIES_def)

end
