(* ===== verification/Panels.thy ===== *)
theory Panels
  imports Vdom UseAlerts UseCommandAudit MapView "HOL-Library.Multiset"
begin

text \<open>
  The panels of the web client that only show state and forward clicks: \<open>Roster.tsx\<close>,
  \<open>StatusBar.tsx\<close>, \<open>AlertFeed.tsx\<close>, \<open>AuditStrip.tsx\<close>, \<open>CommandStrip.tsx\<close>,
  \<open>LayerToggles.tsx\<close> and \<open>ConfirmDialog.tsx\<close>, each a function from its props to a tree.
  \<open>localeCompare\<close> and \<open>toLocaleTimeString\<close> depend on the host's locale and are parameters.
\<close>

section \<open>Roster.tsx\<close>

text \<open>\<open>sort(compare)\<close> is stable: an element goes before the first one it does not follow.\<close>

fun insert_by :: "('a \<Rightarrow> 'a \<Rightarrow> int) \<Rightarrow> 'a \<Rightarrow> 'a list \<Rightarrow> 'a list" where
  "insert_by cmp x [] = [x]"
| "insert_by cmp x (y # ys) = (if cmp x y \<le> 0 then x # y # ys else y # insert_by cmp x ys)"

definition sort_by :: "('a \<Rightarrow> 'a \<Rightarrow> int) \<Rightarrow> 'a list \<Rightarrow> 'a list" where
  "sort_by cmp xs = foldr (insert_by cmp) xs []"

definition fmtAge :: "int \<Rightarrow> string" where
  "fmtAge ms = (if ms < 1000 then int_str ms @ '' ms''
     else toFixed 1 (Fin (of_int ms / 1000)) @ '' s'')"

definition roster_row :: "string list \<Rightarrow> (string \<Rightarrow> bool \<Rightarrow> 'a) \<Rightarrow> robot_state \<Rightarrow> 'a vnode" where
  "roster_row selected onSelect r =
     El ''div''
       [(''key'', rb_id r),
        (''className'', ''roster-row'' @ (if rb_id r \<in> set selected then '' selected'' else ''''))]
       [(''click'', \<lambda>e. ([onSelect (rb_id r) (has_modifier e)], False))]
       [El ''span'' [(''className'', ''dot''), (''background'', STATUS_COLOR (rb_link_status r))] [] [],
        label ''span'' ''rid'' (rb_id r),
        El ''span'' [(''className'', ''rstatus''), (''color'', STATUS_COLOR (rb_link_status r))] []
          [Txt (shortStatus (rb_link_status r))],
        label ''span'' ''rage'' (fmtAge (rb_age_ms r)),
        box ''span'' ''rparams''
          [Txt (toFixed 0 (tl_speed (rb_telemetry r))), Txt ('' m/s '' @ middot @ '' R''),
           Txt (toFixed 0 (tl_radius (rb_telemetry r)))]]"

definition Roster ::
  "(string \<Rightarrow> string \<Rightarrow> int) \<Rightarrow> robot_state list \<Rightarrow> string list \<Rightarrow> (string \<Rightarrow> bool \<Rightarrow> 'a) \<Rightarrow> 'a vnode"
where
  "Roster localeCompare robots selected onSelect =
     (let sorted = sort_by (\<lambda>a b. localeCompare (rb_id a) (rb_id b)) robots in
      box ''div'' ''panel roster''
        [label ''div'' ''panel-title'' ''ROSTER'',
         box ''div'' ''roster-list''
           (when_node (sorted = []) (label ''div'' ''muted'' (''no robots yet'' @ ellipsis)) @
            map (roster_row selected onSelect) sorted)])"

section \<open>StatusBar.tsx\<close>

definition link_count :: "link_status \<Rightarrow> robot_state list \<Rightarrow> nat" where
  "link_count l robots = length (filter (\<lambda>r. rb_link_status r = l) robots)"

fun source_str :: "source_kind option \<Rightarrow> string" where
  "source_str None = ''?''"
| "source_str (Some k) = kind_str k"

definition linkText :: "swarm_status \<Rightarrow> string" where
  "linkText status =
     (if \<not> ss_ws status then ''BRIDGE DOWN''
      else if ss_connected status then ''LIVE '' @ middot @ '' '' @ to_upper (source_str (ss_source status))
      else ''NO C2 '' @ middot @ '' '' @ to_upper (source_str (ss_source status)))"

definition StatusBar ::
  "robot_state list \<Rightarrow> swarm_status \<Rightarrow> bool \<Rightarrow> nat \<Rightarrow> bool \<Rightarrow> 'a \<Rightarrow> 'a \<Rightarrow> 'a \<Rightarrow> 'a \<Rightarrow> 'a vnode"
where
  "StatusBar robots status basemap_osm unackedN symbology onAllStop onToggleSymbology onToggleBasemap onFitAll =
     (let linkOk = ss_ws status \<and> ss_connected status in
      box ''div'' ''statusbar''
        ([box ''div'' ''brand''
            [Txt (''SWARM'' @ [CHR 0xC2, CHR 0xA0] @ ''C2 ''), label ''span'' ''brand-sub'' ''react/maplibre spike''],
          El ''button'' ([(''className'', ''allstop'')] @ disabled_attr (length robots = 0) @
                         [(''title'', ''Stop all robots (speed '' @ arrow @ '' 0)'')])
            [(''click'', calls onAllStop)] [Txt ([CHR 0xE2, CHR 0xAC, CHR 0x9B] @ '' ALL-STOP'')],
          box ''div'' ''counts''
            [El ''span'' [(''color'', STATUS_COLOR LINK_LIVE)] [] [Txt (nat_str (link_count LINK_LIVE robots) @ '' LIVE'')],
             El ''span'' [(''color'', STATUS_COLOR LINK_STALE)] [] [Txt (nat_str (link_count LINK_STALE robots) @ '' STALE'')],
             El ''span'' [(''color'', STATUS_COLOR LINK_LOST)] [] [Txt (nat_str (link_count LINK_LOST robots) @ '' LOST'')]]] @
         when_node (unackedN > 0)
           (El ''div'' [(''className'', ''alarm''), (''title'', nat_str unackedN @ '' unacknowledged alert(s)'')] []
              [label ''span'' ''alarm-badge'' (nat_str unackedN), Txt '' ALERTS'']) @
         [box ''div'' ''right''
            [El ''button'' [(''className'', ''ghost'' @ (if symbology then '' on'' else '''')),
                            (''title'', ''MIL-STD-2525 symbols'')]
               [(''click'', calls onToggleSymbology)] [Txt ''2525''],
             El ''button'' [(''className'', ''ghost'')] [(''click'', calls onFitAll)] [Txt ''Fit All''],
             El ''button'' [(''className'', ''ghost'')] [(''click'', calls onToggleBasemap)]
               [Txt (''Basemap: '' @ (if basemap_osm then ''OSM'' else ''Dark''))],
             El ''span'' [(''className'', ''conn '' @ (if linkOk then ''ok'' else ''bad'')),
                          (''title'', ss_detail status)] []
               [box ''span'' ''conn-dot'' [], Txt (linkText status)]]]))"

section \<open>AlertFeed.tsx\<close>

definition alert_row ::
  "(int \<Rightarrow> string) \<Rightarrow> string list \<Rightarrow> (string \<Rightarrow> 'a) \<Rightarrow> (string \<Rightarrow> 'a) \<Rightarrow> alert \<Rightarrow> 'a vnode"
where
  "alert_row fmtTime acked onAck onSelectAlert a =
     (let isAck = al_id a \<in> set acked in
      El ''div''
        [(''key'', al_id a),
         (''className'', ''alert-row sev-'' @ severity_str (al_severity a) @ (if isAck then '' acked'' else '''')),
         (''title'', ''click to select + fly to robot'')]
        [(''click'', calls (onSelectAlert (al_robotId a)))]
        ([El ''span'' [(''className'', ''alert-bar''), (''background'', SEVERITY_COLOR (al_severity a))] [] [],
          box ''div'' ''alert-body''
            [label ''div'' ''alert-msg'' (al_message a),
             label ''div'' ''alert-meta''
               (fmtTime (al_ts a) @ '' '' @ middot @ '' '' @ to_upper (severity_str (al_severity a)))]] @
         when_node (\<not> isAck)
           (El ''button'' [(''className'', ''ack-btn'')] [(''click'', \<lambda>e. ([onAck (al_id a)], True))] [Txt ''ACK''])))"

definition AlertFeed ::
  "(int \<Rightarrow> string) \<Rightarrow> alert list \<Rightarrow> string list \<Rightarrow> nat \<Rightarrow> (string \<Rightarrow> 'a) \<Rightarrow> 'a \<Rightarrow> (string \<Rightarrow> 'a) \<Rightarrow> 'a vnode"
where
  "AlertFeed fmtTime alerts acked unackedN onAck onAckAll onSelectAlert =
     (let rows = rev alerts in
      box ''div'' ''panel alerts''
        [box ''div'' ''alerts-head''
           ([label ''span'' ''alerts-title'' ''ALERTS''] @
            when_node (unackedN > 0) (label ''span'' ''alert-badge'' (nat_str unackedN)) @
            [El ''button'' ([(''className'', ''ghost ackall'')] @ disabled_attr (unackedN = 0))
               [(''click'', calls onAckAll)] [Txt ''ACK ALL'']]),
         box ''div'' ''alert-list''
           (when_node (rows = [])
              (label ''div'' ''muted alert-empty'' (''no alerts '' @ mdash @ '' swarm nominal'')) @
            map (alert_row fmtTime acked onAck onSelectAlert) rows)])"

section \<open>AuditStrip.tsx\<close>

definition or_default :: "string \<Rightarrow> string \<Rightarrow> string" where
  "or_default s d = (if s = '''' then d else s)"

definition num_part :: "string \<Rightarrow> jsnum option \<Rightarrow> string list" where
  "num_part lead v = (case v of Some n \<Rightarrow> [lead @ num_str n] | None \<Rightarrow> [])"

definition audit_paramsSummary :: "params \<Rightarrow> string" where
  "audit_paramsSummary p =
     or_default
       (join ('' '' @ middot @ '' '')
         (num_part ''speed '' (pr_speed p) @ num_part ''radius '' (pr_radius p) @
          (if pr_center_x p \<noteq> None \<or> pr_center_y p \<noteq> None
           then [''center ('' @ (case pr_center_x p of Some v \<Rightarrow> num_str v | None \<Rightarrow> mdash) @ '','' @
                   (case pr_center_y p of Some v \<Rightarrow> num_str v | None \<Rightarrow> mdash) @ '')'']
           else []) @
          num_part (theta_sign @ '' '') (pr_theta p)))
       mdash"

definition scopeLabel :: "audit_entry \<Rightarrow> string" where
  "scopeLabel e =
     (if ae_allStop e then ''ALL '' @ nat_str (length (ae_targets e))
      else if length (ae_targets e) = 1 then ae_targets e ! 0
      else if length (ae_targets e) \<le> 3 then join '','' (ae_targets e)
      else nat_str (length (ae_targets e)) @ '' robots'')"

definition outcome_of :: "audit_entry \<Rightarrow> string \<Rightarrow> command_state" where
  "outcome_of e i = (case map_of (ae_outcomes e) i of Some s \<Rightarrow> s | None \<Rightarrow> CMD_STATE_UNSPECIFIED)"

definition audit_chip :: "audit_entry \<Rightarrow> string \<Rightarrow> 'a vnode" where
  "audit_chip e i =
     (let st = outcome_of e i in
      El ''span'' [(''key'', i), (''className'', ''audit-chip''), (''borderColor'', CMD_COLOR st), (''color'', CMD_COLOR st)] []
        [Txt i, Txt '': '', Txt (shortCmd st)])"

definition audit_row :: "(int \<Rightarrow> string) \<Rightarrow> audit_entry \<Rightarrow> 'a vnode" where
  "audit_row fmtTime e =
     El ''div'' [(''key'', ae_command_id e), (''className'', ''audit-row'' @ (if ae_allStop e then '' allstop'' else ''''))] []
       [box ''div'' ''audit-line1''
          [label ''span'' ''audit-time'' (fmtTime (ae_ts e)),
           label ''span'' (''audit-scope'' @ (if ae_allStop e then '' danger'' else '''')) (scopeLabel e),
           label ''span'' ''audit-params'' (audit_paramsSummary (ae_params e))],
        box ''div'' ''audit-chips'' (map (audit_chip e) (ae_targets e))]"

definition AuditStrip :: "(int \<Rightarrow> string) \<Rightarrow> audit_entry list \<Rightarrow> bool \<Rightarrow> 'a \<Rightarrow> 'a vnode" where
  "AuditStrip fmtTime entries isOpen onToggle =
     box ''div'' (''panel audit'' @ (if isOpen then '' open'' else ''''))
       ([El ''button'' [(''className'', ''audit-head'')] [(''click'', calls onToggle)]
           [label ''span'' ''caret'' (if isOpen then [CHR 0xE2, CHR 0x96, CHR 0xBE] else [CHR 0xE2, CHR 0x96, CHR 0xB8]),
            label ''span'' ''audit-title'' ''AUDIT LOG'',
            label ''span'' ''audit-count'' (nat_str (length entries)),
            label ''span'' ''audit-note'' ''client-local'']] @
        when_node isOpen
          (box ''div'' ''audit-list''
             (when_node (entries = []) (label ''div'' ''muted audit-empty'' ''no commands issued this session'') @
              map (audit_row fmtTime) entries)))"

section \<open>CommandStrip.tsx\<close>

definition strip_chip :: "target_status \<Rightarrow> 'a vnode" where
  "strip_chip t =
     El ''span'' [(''key'', tg_robot_id t), (''className'', ''chip''),
                  (''borderColor'', CMD_COLOR (tg_state t)), (''color'', CMD_COLOR (tg_state t))] []
       [Txt (tg_robot_id t), Txt '': '', Txt (shortCmd (tg_state t))]"

definition strip_row :: "command_status \<Rightarrow> 'a vnode" where
  "strip_row c =
     El ''div'' [(''key'', cs_command_id c), (''className'', ''strip-row'')] []
       [label ''span'' ''cmd-id'' (cs_command_id c),
        box ''span'' ''cmd-targets'' (map strip_chip (cs_targets c))]"

definition CommandStrip :: "command_status list \<Rightarrow> 'a vnode" where
  "CommandStrip commands =
     (let rows = rev commands in
      box ''div'' ''strip''
        ([label ''div'' ''panel-title'' ''COMMANDS''] @
         when_node (length rows = 0) (label ''span'' ''muted'' ''no commands issued yet'') @
         [box ''div'' ''strip-rows'' (map strip_row rows)]))"

section \<open>LayerToggles.tsx\<close>

datatype layer_key = LayerMission | LayerBuffers | LayerInputs
datatype sa_key = SaSymbols | SaOrbit | SaGhost

fun layer_on :: "layer_key \<Rightarrow> layer_vis \<Rightarrow> bool" where
  "layer_on LayerMission v = lv_mission v"
| "layer_on LayerBuffers v = lv_buffers v"
| "layer_on LayerInputs v = lv_inputs v"

fun sa_on :: "sa_key \<Rightarrow> sa_vis \<Rightarrow> bool" where
  "sa_on SaSymbols v = sv_symbols v"
| "sa_on SaOrbit v = sv_orbit v"
| "sa_on SaGhost v = sv_ghost v"

definition LAYER_ROWS :: "(layer_key \<times> string \<times> string) list" where
  "LAYER_ROWS =
     [(LayerMission, ''Geofence'', FENCE_UNION_COLOR),
      (LayerBuffers, ''Buffers'', ''#a855f7''),
      (LayerInputs, ''Mission inputs'', INPUT_COLOR)]"

definition SA_ROWS :: "(sa_key \<times> string \<times> string) list" where
  "SA_ROWS = [(SaOrbit, ''Predicted orbit'', ''#58a6ff''), (SaGhost, ''Coasting ghost'', ''#8b949e'')]"

definition toggle_row :: "bool \<Rightarrow> 'a \<Rightarrow> string \<Rightarrow> string \<Rightarrow> 'a vnode" where
  "toggle_row checked action text color =
     El ''label'' [(''className'', ''layer-row'')] []
       [El ''input'' [(''type'', ''checkbox''), (''checked'', if checked then ''true'' else ''false'')]
          [(''change'', calls action)] [],
        El ''span'' [(''className'', ''swatch''), (''background'', color)] [] [],
        El ''span'' [] [] [Txt text]]"

definition LayerToggles :: "layer_vis \<Rightarrow> (layer_key \<Rightarrow> 'a) \<Rightarrow> sa_vis \<Rightarrow> (sa_key \<Rightarrow> 'a) \<Rightarrow> 'a vnode" where
  "LayerToggles vis onToggle saVis onToggleSa =
     box ''div'' ''layers''
       ([label ''div'' ''panel-title'' ''MAP LAYERS''] @
        map (\<lambda>(k, text, color). toggle_row (layer_on k vis) (onToggle k) text color) LAYER_ROWS @
        [label ''div'' ''panel-title'' ''SITUATIONAL AWARENESS''] @
        map (\<lambda>(k, text, color). toggle_row (sa_on k saVis) (onToggleSa k) text color) SA_ROWS)"

section \<open>ConfirmDialog.tsx\<close>

definition ConfirmDialog :: "string \<Rightarrow> string list \<Rightarrow> bool \<Rightarrow> string \<Rightarrow> 'a \<Rightarrow> 'a \<Rightarrow> 'a vnode" where
  "ConfirmDialog title lines danger confirmLabel onConfirm onCancel =
     El ''div'' [(''className'', ''modal-backdrop'')] [(''click'', calls onCancel)]
       [El ''div'' [(''className'', ''modal'' @ (if danger then '' danger'' else ''''))]
          [(''click'', \<lambda>e. ([], True))]
          [label ''div'' ''modal-title'' title,
           box ''div'' ''modal-body'' (map (label ''div'' ''modal-line'') lines),
           box ''div'' ''modal-actions''
             [El ''button'' [(''className'', ''ghost'')] [(''click'', calls onCancel)] [Txt ''Cancel''],
              El ''button'' [(''className'', if danger then ''apply danger'' else ''apply'')]
                [(''click'', calls onConfirm)] [Txt confirmLabel]]]]"

section \<open>Sorting\<close>

lemma mset_insert_by [simp]: "mset (insert_by cmp x xs) = add_mset x (mset xs)"
  by (induction xs) auto

lemma set_insert_by [simp]: "set (insert_by cmp x xs) = insert x (set xs)"
  by (induction xs) auto

lemma mset_sort_by [simp]: "mset (sort_by cmp xs) = mset xs"
  by (induction xs) (simp_all add: sort_by_def)

lemma set_sort_by [simp]: "set (sort_by cmp xs) = set xs"
  by (metis mset_sort_by set_mset_mset)

definition total_preorder :: "('a \<Rightarrow> 'a \<Rightarrow> int) \<Rightarrow> bool" where
  "total_preorder cmp \<longleftrightarrow> (\<forall>x y. cmp x y \<le> 0 \<or> cmp y x \<le> 0) \<and>
     (\<forall>x y z. cmp x y \<le> 0 \<longrightarrow> cmp y z \<le> 0 \<longrightarrow> cmp x z \<le> 0)"

lemma sorted_insert_by:
  assumes "total_preorder cmp" "sorted_wrt (\<lambda>x y. cmp x y \<le> 0) xs"
  shows "sorted_wrt (\<lambda>x y. cmp x y \<le> 0) (insert_by cmp x xs)"
  using assms(2)
proof (induction xs)
  case Nil
  then show ?case by simp
next
  case (Cons y ys)
  with Cons assms(1) show ?case by (auto simp: total_preorder_def)
qed

lemma sorted_sort_by: "total_preorder cmp \<Longrightarrow> sorted_wrt (\<lambda>x y. cmp x y \<le> 0) (sort_by cmp xs)"
  by (induction xs) (simp_all add: sort_by_def sorted_insert_by)

section \<open>Clicks\<close>

lemma dispatch_El [simp]:
  "map_of attrs ''disabled'' = None \<Longrightarrow> i < length kids \<Longrightarrow>
     dispatch kind e (i # q) (El tag attrs hs kids) =
       (case dispatch kind e q (kids ! i) of
          (as, stop) \<Rightarrow> if stop then (as, True)
                        else (case handle kind e hs of (bs, stop') \<Rightarrow> (as @ bs, stop')))"
  "map_of attrs ''disabled'' = None \<Longrightarrow> dispatch kind e [] (El tag attrs hs kids) = handle kind e hs"
  by simp_all

lemma dispatch_box [simp]:
  "i < length kids \<Longrightarrow> dispatch kind e (i # q) (box tag c kids) =
     (case dispatch kind e q (kids ! i) of (as, stop) \<Rightarrow> (as, stop))"
  "dispatch kind e [] (box tag c kids) = ([], False)"
  by (auto simp: box_def handle_def split: prod.split)

text \<open>Nothing inside a node without handlers calls anything.\<close>

lemma dispatch_label [simp]: "fst (dispatch kind e p (label tag c s)) = []"
proof (cases p)
  case (Cons i q)
  then show ?thesis by (cases "i = 0") (auto simp: label_def box_def handle_def)
qed (simp add: label_def)

declare dispatch.simps(2) [simp del]

section \<open>Properties\<close>

text \<open>No robot goes missing from the roster: whatever the locale's string comparison, the
  roster has one row per robot of the frame, as a multiset, and a click anywhere on a row selects
  exactly its robot, additively when a modifier is held.\<close>

theorem roster_lists_every_robot:
  "\<exists>rows. mset rows = mset robots \<and>
     Roster cmp robots selected onSelect =
       box ''div'' ''panel roster''
         [label ''div'' ''panel-title'' ''ROSTER'',
          box ''div'' ''roster-list''
            (when_node (robots = []) (label ''div'' ''muted'' (''no robots yet'' @ ellipsis)) @
             map (roster_row selected onSelect) rows)] \<and>
     list_all (\<lambda>i. click_with e [1, i] (Roster cmp robots selected onSelect) =
         [onSelect (rb_id (rows ! i)) (has_modifier e)]) [0 ..< length robots]"
proof -
  let ?rows = "sort_by (\<lambda>a b. cmp (rb_id a) (rb_id b)) robots"
  have empty: "?rows = [] \<longleftrightarrow> robots = []" by (metis set_empty set_sort_by)
  have len: "length ?rows = length robots" by (metis mset_sort_by size_mset)
  have shape: "Roster cmp robots selected onSelect =
       box ''div'' ''panel roster''
         [label ''div'' ''panel-title'' ''ROSTER'',
          box ''div'' ''roster-list''
            (when_node (robots = []) (label ''div'' ''muted'' (''no robots yet'' @ ellipsis)) @
             map (roster_row selected onSelect) ?rows)]"
    by (simp add: Roster_def Let_def empty)
  have "click_with e [1, i] (Roster cmp robots selected onSelect) =
      [onSelect (rb_id (?rows ! i)) (has_modifier e)]" if "i < length robots" for i
  proof -
    from that have "robots \<noteq> []" by auto
    with that len show ?thesis
      by (simp add: shape click_with_def when_node_def roster_row_def handle_def)
  qed
  then have "list_all (\<lambda>i. click_with e [1, i] (Roster cmp robots selected onSelect) =
      [onSelect (rb_id (?rows ! i)) (has_modifier e)]) [0 ..< length robots]"
    by (simp add: list_all_iff)
  with shape mset_sort_by show ?thesis by blast
qed

text \<open>When the comparison is a total preorder, as the locale's collation is, the roster is in
  its order, so a robot is always found at the same place.\<close>

theorem roster_sorted:
  assumes "total_preorder cmp"
  shows "sorted_wrt (\<lambda>a b. cmp (rb_id a) (rb_id b) \<le> 0)
    (sort_by (\<lambda>a b. cmp (rb_id a) (rb_id b)) (robots :: robot_state list))"
proof -
  have "total_preorder (\<lambda>a b :: robot_state. cmp (rb_id a) (rb_id b))"
    using assms unfolding total_preorder_def by blast
  then show ?thesis by (rule sorted_sort_by)
qed

theorem roster_sorted_witness:
  "map rb_id (sort_by (\<lambda>a b. int (length (rb_id a)) - int (length (rb_id b)))
     [sample_robot ''R-100'' LINK_LIVE (Fin 0), sample_robot ''R-1'' LINK_LOST (Fin 0)]) = [''R-1'', ''R-100''] \<and>
   sorted_wrt (\<lambda>a b. int (length (rb_id a)) - int (length (rb_id b)) \<le> 0)
     (sort_by (\<lambda>a b. int (length (rb_id a)) - int (length (rb_id b)))
       [sample_robot ''R-100'' LINK_LIVE (Fin 0), sample_robot ''R-1'' LINK_LOST (Fin 0)])"
proof -
  have "total_preorder (\<lambda>a b. int (length a) - int (length (b :: string)))"
    by (auto simp: total_preorder_def)
  from roster_sorted[OF this, of "[sample_robot ''R-100'' LINK_LIVE (Fin 0), sample_robot ''R-1'' LINK_LOST (Fin 0)]"]
  show ?thesis by (simp add: sort_by_def sample_robot_def)
qed

text \<open>The health counts of the status bar account for every robot: LIVE, STALE and LOST add up
  to the number of robots, less those whose status is unspecified; and the ALL-STOP button does
  nothing on an empty swarm and calls the all-stop on any other.\<close>

theorem status_bar_counts:
  "link_count LINK_LIVE robots + link_count LINK_STALE robots + link_count LINK_LOST robots +
     link_count LINK_STATUS_UNSPECIFIED robots = length robots \<and>
   click [1] (StatusBar robots status osm n sy onAllStop a b c) = (if robots = [] then [] else [onAllStop])"
proof
  show "link_count LINK_LIVE robots + link_count LINK_STALE robots + link_count LINK_LOST robots +
      link_count LINK_STATUS_UNSPECIFIED robots = length robots"
  proof (induction robots)
    case (Cons r robots)
    then show ?case by (cases "rb_link_status r") (simp_all add: link_count_def)
  qed (simp add: link_count_def)
  show "click [1] (StatusBar robots status osm n sy onAllStop a b c) = (if robots = [] then [] else [onAllStop])"
    by (simp add: StatusBar_def Let_def click_def dispatch.simps vdom_simps)
qed

text \<open>Acknowledging an alert does not also jump to its robot: on the row of an alert that is
  not acknowledged the ACK button calls only the acknowledgement of that alert, since it stops
  the click, and a click elsewhere on the row only selects its robot; a row that is acknowledged
  has no ACK button.\<close>

theorem ack_button_stops_the_click:
  "click [2] (alert_row fmt acked onAck onSelect a) = (if al_id a \<in> set acked then [] else [onAck (al_id a)]) \<and>
   click [] (alert_row fmt acked onAck onSelect a) = [onSelect (al_robotId a)] \<and>
   click [1, 0] (alert_row fmt acked onAck onSelect a) = [onSelect (al_robotId a)]"
  by (simp add: alert_row_def Let_def click_def dispatch.simps vdom_simps)

lemma dispatch_button:
  "map_of attrs ''disabled'' = None \<Longrightarrow>
     fst (dispatch ''click'' e q (El tag attrs [(''click'', calls a)] [Txt s])) =
       (if q = [] \<or> q = [0] then [a] else [])"
proof (cases q)
  case (Cons m r)
  assume "map_of attrs ''disabled'' = None"
  with Cons show ?thesis
    by (cases "m = 0"; cases r) (simp_all add: dispatch.simps(2) handle_def calls_def)
qed (simp add: dispatch.simps(2) handle_def calls_def)

lemma fst_dispatch_box:
  "fst (dispatch kind e p (box tag c kids)) =
     (case p of [] \<Rightarrow> [] | i # q \<Rightarrow> if i < length kids then fst (dispatch kind e q (kids ! i)) else [])"
  by (simp add: box_def dispatch.simps(2) handle_def split: list.split prod.split)

lemma dialog_dispatch:
  "fst (dispatch ''click'' e p (ConfirmDialog title lines danger confirmLabel ok cancel)) =
     (if p = [] then [cancel]
      else if p = [0, 2, 1] \<or> p = [0, 2, 1, 0] then [ok]
      else if p = [0, 2, 0] \<or> p = [0, 2, 0, 0] then [cancel]
      else [])"
proof (cases p)
  case Nil
  then show ?thesis by (simp add: ConfirmDialog_def handle_def calls_def dispatch.simps(2))
next
  case (Cons i q)
  let ?buttons = "[El ''button'' [(''className'', ''ghost'')] [(''click'', calls cancel)] [Txt ''Cancel''],
     El ''button'' [(''className'', if danger then ''apply danger'' else ''apply'')] [(''click'', calls ok)]
       [Txt confirmLabel]]"
  let ?kids = "[label ''div'' ''modal-title'' title,
     box ''div'' ''modal-body'' (map (label ''div'' ''modal-line'') lines), box ''div'' ''modal-actions'' ?buttons]"
  have inside: "fst (dispatch ''click'' e (0 # q) (ConfirmDialog title lines danger confirmLabel ok cancel)) =
      (case q of [] \<Rightarrow> [] | j # r \<Rightarrow> if j < 3 then fst (dispatch ''click'' e r (?kids ! j)) else [])"
    by (simp add: ConfirmDialog_def handle_def dispatch.simps(2) split: list.split prod.split)
  have body: "fst (dispatch ''click'' e r (box ''div'' ''modal-body'' (map (label ''div'' ''modal-line'') lines))) = []" for r
    by (simp add: fst_dispatch_box split: list.split)
  have actions: "fst (dispatch ''click'' e r (box ''div'' ''modal-actions'' ?buttons)) =
      (if r = [1] \<or> r = [1, 0] then [ok] else if r = [0] \<or> r = [0, 0] then [cancel] else [])" for r
  proof (cases r)
    case (Cons k t)
    then consider "k = 0" | "k = 1" | "2 \<le> k" by linarith
    then show ?thesis by cases (simp_all add: Cons fst_dispatch_box dispatch_button)
  qed (simp add: fst_dispatch_box)
  show ?thesis
  proof (cases "i = 0")
    case True
    then show ?thesis
    proof (cases q)
      case (Cons j r)
      then consider "j = 0" | "j = 1" | "j = 2" | "3 \<le> j" by linarith
      then show ?thesis using True \<open>p = i # q\<close> Cons inside body[of r] actions[of r] by cases auto
    qed (use True \<open>p = i # q\<close> inside in simp)
  next
    case False
    then show ?thesis using Cons by (simp add: ConfirmDialog_def dispatch.simps(2))
  qed
qed

lemma dialog_other_kinds:
  "kind \<noteq> ''click'' \<Longrightarrow> fst (dispatch kind e p (ConfirmDialog title lines danger confirmLabel ok cancel)) = []"
  by (rule no_kind_dispatch) (simp add: ConfirmDialog_def list.pred_map comp_def list.pred_True)

text \<open>The confirmation dialog is modal: wherever the operator clicks, only the confirm button
  (or its text) confirms, only the Cancel button and the backdrop cancel, and a click on anything
  else inside the dialog does nothing.\<close>

theorem dialog_is_modal:
  "click p (ConfirmDialog title lines danger confirmLabel ok cancel) =
     (if p = [] then [cancel]
      else if p = [0, 2, 1] \<or> p = [0, 2, 1, 0] then [ok]
      else if p = [0, 2, 0] \<or> p = [0, 2, 0, 0] then [cancel]
      else [])"
  unfolding click_def by (rule dialog_dispatch)

text \<open>Every toggle of the left panel is wired to its own switch, and shows its state.\<close>

theorem layer_toggles_wired:
  "map (\<lambda>i. change s [i, 0] (LayerToggles vis onLayer saVis onSa)) [1, 2, 3, 5, 6] =
     [[onLayer LayerMission], [onLayer LayerBuffers], [onLayer LayerInputs], [onSa SaOrbit], [onSa SaGhost]]"
  by (simp add: LayerToggles_def LAYER_ROWS_def SA_ROWS_def toggle_row_def change_def handle_def calls_def)

end
