(* ===== verification/App.thy ===== *)
theory App
  imports Panels
begin

text \<open>
  \<open>web/src/App.tsx\<close>, the composition root, with \<open>web/src/CommandPanel.tsx\<close>, whose local state
  it contains. The state is every \<open>useState\<close> cell and ref of the two components and the hooks
  they call; the rendered tree carries \<open>action\<close>s, so an operator's event is a DOM event on the
  tree, and what it sends on the WebSocket is output. The geofence test \<open>inside\<close>, the
  locale's \<open>localeCompare\<close> and \<open>toLocaleTimeString\<close> are parameters. An event is processed to the
  end (its passive effects included) before the next event: \<open>app_step\<close> is the state it leaves, and
  \<open>page_commits\<close> what the page shows on the way, first with what the event itself set, then with
  what the effects set.
\<close>

section \<open>CommandPanel.tsx\<close>

record command_panel =
  cp_speed :: string
  cp_radius :: string
  cp_first :: "string option"

definition first_target :: "string list \<Rightarrow> string option" where
  "first_target selected = (case selected of [] \<Rightarrow> None | i # _ \<Rightarrow> Some i)"

definition primary :: "string list \<Rightarrow> robot_state list \<Rightarrow> robot_state option" where
  "primary selected robots =
     (case first_target selected of None \<Rightarrow> None | Some i \<Rightarrow> find (\<lambda>r. rb_id r = i) robots)"

text \<open>The prefill effect: its only dependency is the first selected id.\<close>

definition prefill_effect :: "string list \<Rightarrow> robot_state list \<Rightarrow> command_panel \<Rightarrow> command_panel" where
  "prefill_effect selected robots cp =
     (if first_target selected = cp_first cp then cp
      else case primary selected robots of
        Some r \<Rightarrow> \<lparr>cp_speed = toFixed 0 (tl_speed (rb_telemetry r)),
                   cp_radius = toFixed 0 (tl_radius (rb_telemetry r)), cp_first = first_target selected\<rparr>
      | None \<Rightarrow> \<lparr>cp_speed = '''', cp_radius = '''', cp_first = first_target selected\<rparr>)"

definition field_value :: "string \<Rightarrow> jsnum option" where
  "field_value s = (if trim s \<noteq> '''' \<and> is_finite (js_Number s) then Some (js_Number s) else None)"

definition apply_panel :: "string list \<Rightarrow> command_panel \<Rightarrow> command_intent option" where
  "apply_panel selected cp =
     (if selected = [] then None
      else
        (let p = no_params\<lparr>pr_speed := field_value (cp_speed cp), pr_radius := field_value (cp_radius cp)\<rparr> in
         if pr_speed p = None \<and> pr_radius p = None then None
         else Some \<lparr>in_command_id = None, in_targets = selected, in_params = p\<rparr>))"

definition CommandPanel ::
  "string list \<Rightarrow> command_panel \<Rightarrow> (string \<Rightarrow> 'a) \<Rightarrow> (string \<Rightarrow> 'a) \<Rightarrow> 'a \<Rightarrow> 'a vnode"
where
  "CommandPanel targets cp onSpeed onRadius onApply =
     (let n = length targets; disabled = (n = 0) in
      box ''div'' ''panel command''
        [label ''div'' ''panel-title'' ''COMMAND'',
         (if disabled then label ''div'' ''muted'' ''select a robot on the map or roster''
          else box ''div'' ''sel-summary''
            ([Txt (if n = 1 then ''SELECTED: '' @ targets ! 0 else ''SELECTED: '' @ nat_str n @ '' robots'')] @
             when_node (n > 1) (label ''div'' ''muted small'' (join '', '' targets)))),
         box ''label'' ''field''
           [El ''span'' [] [] [Txt ''Speed (m/s)''],
            El ''input'' ([(''value'', cp_speed cp)] @ disabled_attr disabled @ [(''inputMode'', ''decimal'')])
              [(''change'', \<lambda>e. ([onSpeed (de_value e)], False))] []],
         box ''label'' ''field''
           [El ''span'' [] [] [Txt ''Radius (m)''],
            El ''input'' ([(''value'', cp_radius cp)] @ disabled_attr disabled @ [(''inputMode'', ''decimal'')])
              [(''change'', \<lambda>e. ([onRadius (de_value e)], False))] []],
         El ''button'' ([(''className'', ''apply'')] @ disabled_attr disabled) [(''click'', calls onApply)]
           [Txt (if disabled then ''APPLY''
                 else ''APPLY TO '' @ nat_str n @ '' ROBOT'' @ (if n = 1 then '''' else ''S''))]])"

section \<open>State of the application\<close>

definition CONFIRM_ABOVE :: nat where "CONFIRM_ABOVE = 3"

text \<open>The closure \<open>onConfirm\<close> is the intent and the flag it captured.\<close>

record confirm_spec =
  cf_title :: string
  cf_lines :: "string list"
  cf_danger :: bool
  cf_confirmLabel :: string
  cf_intent :: command_intent
  cf_allStop :: bool

record demo_query =
  dq_sel :: "string option"
  dq_sym :: "string option"
  dq_confirm :: "string option"
  dq_fire :: "string option"

record app =
  ap_swarm :: swarm_hook
  ap_alerts :: alerts_hook
  ap_audit :: "audit_entry list"
  ap_demo :: demo_query
  ap_demoFired :: bool
  ap_selected :: "string list"
  ap_osm :: bool
  ap_fitNonce :: nat
  ap_flyTo :: "(string \<times> nat) option"
  ap_layerVis :: layer_vis
  ap_saVis :: sa_vis
  ap_confirm :: "confirm_spec option"
  ap_panel :: command_panel
  ap_auditOpen :: bool

definition mounted_app :: "demo_query \<Rightarrow> app" where
  "mounted_app demo =
     (let sel = js_set (filter (\<lambda>s. s \<noteq> '''')
                  (split_on (CHR '','') (case dq_sel demo of Some s \<Rightarrow> s | None \<Rightarrow> ''''))) in
      \<lparr>ap_swarm = mounted_swarm, ap_alerts = new_alerts_hook, ap_audit = [], ap_demo = demo,
       ap_demoFired = False, ap_selected = sel, ap_osm = False, ap_fitNonce = 0, ap_flyTo = None,
       ap_layerVis = \<lparr>lv_mission = True, lv_buffers = True, lv_inputs = True\<rparr>,
       ap_saVis = \<lparr>sv_symbols = (dq_sym demo = Some ''1''), sv_orbit = True, sv_ghost = True\<rparr>,
       ap_confirm = None,
       ap_panel = \<lparr>cp_speed = '''', cp_radius = '''', cp_first = first_target sel\<rparr>,
       ap_auditOpen = True\<rparr>)"

definition app_robots :: "app \<Rightarrow> robot_state list" where
  "app_robots app = robots_in (sh_frame (ap_swarm app))"

definition allIds :: "app \<Rightarrow> string list" where
  "allIds app = map rb_id (app_robots app)"

section \<open>The one command path\<close>

definition app_paramsSummary :: "params \<Rightarrow> string" where
  "app_paramsSummary p =
     or_default
       (join ('' '' @ middot @ '' '')
         (num_part (''speed '' @ arrow @ '' '') (pr_speed p) @ num_part (''radius '' @ arrow @ '' '') (pr_radius p) @
          (if pr_center_x p \<noteq> None \<or> pr_center_y p \<noteq> None then [''center '' @ arrow] else []) @
          num_part (theta_sign @ '' '' @ arrow @ '' '') (pr_theta p)))
       ''no change''"

definition doSend :: "nat \<Rightarrow> command_intent \<Rightarrow> bool \<Rightarrow> app \<Rightarrow> app \<times> client_message list" where
  "doSend now intent allStop app =
     (let (h, command_id, msgs) = swarm_sendCommand now (ap_swarm app) intent
      in (app\<lparr>ap_swarm := h,
              ap_audit := record_command command_id intent allStop (int now) (ap_audit app)\<rparr>, msgs))"

definition confirm_for :: "command_intent \<Rightarrow> bool \<Rightarrow> confirm_spec" where
  "confirm_for intent allStop =
     (let n = length (in_targets intent) in
      \<lparr>cf_title = (if allStop then ''Stop ALL '' @ nat_str n @ '' robots?''
                   else ''Apply to '' @ nat_str n @ '' robots?''),
       cf_lines = [''Targets: '' @ join '', '' (in_targets intent),
                   ''Command: '' @ (if allStop then ''speed '' @ arrow @ '' 0 (STOP)''
                                    else app_paramsSummary (in_params intent))],
       cf_danger = allStop,
       cf_confirmLabel = (if allStop then ''STOP ALL'' else ''Apply to '' @ nat_str n),
       cf_intent = intent, cf_allStop = allStop\<rparr>)"

definition issueCommand :: "nat \<Rightarrow> command_intent \<Rightarrow> bool \<Rightarrow> app \<Rightarrow> app \<times> client_message list" where
  "issueCommand now intent allStop app =
     (let n = length (in_targets intent) in
      if n = 0 then (app, [])
      else if allStop \<or> n > CONFIRM_ABOVE
      then (app\<lparr>ap_confirm := Some (confirm_for intent allStop)\<rparr>, [])
      else doSend now intent allStop app)"

definition all_stop_intent :: "app \<Rightarrow> command_intent" where
  "all_stop_intent app =
     \<lparr>in_command_id = None, in_targets = allIds app, in_params = no_params\<lparr>pr_speed := Some (Fin 0)\<rparr>\<rparr>"

definition onAllStop :: "nat \<Rightarrow> app \<Rightarrow> app \<times> client_message list" where
  "onAllStop now app =
     (if allIds app = [] then (app, []) else issueCommand now (all_stop_intent app) True app)"

definition onConfirm :: "nat \<Rightarrow> app \<Rightarrow> app \<times> client_message list" where
  "onConfirm now app =
     (case ap_confirm app of
        None \<Rightarrow> (app, [])
      | Some spec \<Rightarrow>
          (case doSend now (cf_intent spec) (cf_allStop spec) app of
             (app', msgs) \<Rightarrow> (app'\<lparr>ap_confirm := None\<rparr>, msgs)))"

text \<open>The demo helper of the URL: \<open>?confirm=allstop\<close> opens the dialog, \<open>?fire=allstop\<close> sends.\<close>

definition demo_effect :: "nat \<Rightarrow> app \<Rightarrow> app \<times> client_message list" where
  "demo_effect now app =
     (if ap_demoFired app \<or> allIds app = [] then (app, [])
      else if dq_confirm (ap_demo app) = Some ''allstop''
      then onAllStop now (app\<lparr>ap_demoFired := True\<rparr>)
      else if dq_fire (ap_demo app) = Some ''allstop''
      then doSend now (all_stop_intent app) True (app\<lparr>ap_demoFired := True\<rparr>)
      else (app, []))"

section \<open>Actions\<close>

datatype action =
    Select string bool
  | ClearSelected
  | FlyToRobot string
  | ToggleLayer layer_key
  | ToggleSa sa_key
  | ToggleBasemap
  | FitAllRobots
  | AllStop
  | Apply
  | Confirm
  | Cancel
  | Ack string
  | AckAll
  | ToggleAudit
  | EditSpeed string
  | EditRadius string

definition handleSelect :: "string \<Rightarrow> bool \<Rightarrow> string list \<Rightarrow> string list" where
  "handleSelect i adding prev =
     (if adding then (if i \<in> set prev then js_remove i prev else js_add i prev) else [i])"

fun flip_layer :: "layer_key \<Rightarrow> layer_vis \<Rightarrow> layer_vis" where
  "flip_layer LayerMission v = v\<lparr>lv_mission := \<not> lv_mission v\<rparr>"
| "flip_layer LayerBuffers v = v\<lparr>lv_buffers := \<not> lv_buffers v\<rparr>"
| "flip_layer LayerInputs v = v\<lparr>lv_inputs := \<not> lv_inputs v\<rparr>"

fun flip_sa :: "sa_key \<Rightarrow> sa_vis \<Rightarrow> sa_vis" where
  "flip_sa SaSymbols v = v\<lparr>sv_symbols := \<not> sv_symbols v\<rparr>"
| "flip_sa SaOrbit v = v\<lparr>sv_orbit := \<not> sv_orbit v\<rparr>"
| "flip_sa SaGhost v = v\<lparr>sv_ghost := \<not> sv_ghost v\<rparr>"

fun app_act :: "nat \<Rightarrow> app \<Rightarrow> action \<Rightarrow> app \<times> client_message list" where
  "app_act now app (Select i adding) =
     (app\<lparr>ap_selected := handleSelect i adding (ap_selected app)\<rparr>, [])"
| "app_act now app ClearSelected = (app\<lparr>ap_selected := []\<rparr>, [])"
| "app_act now app (FlyToRobot i) =
     (app\<lparr>ap_selected := [i],
          ap_flyTo := Some (i, (case ap_flyTo app of Some (_, n) \<Rightarrow> n | None \<Rightarrow> 0) + 1)\<rparr>, [])"
| "app_act now app (ToggleLayer k) = (app\<lparr>ap_layerVis := flip_layer k (ap_layerVis app)\<rparr>, [])"
| "app_act now app (ToggleSa k) = (app\<lparr>ap_saVis := flip_sa k (ap_saVis app)\<rparr>, [])"
| "app_act now app ToggleBasemap = (app\<lparr>ap_osm := \<not> ap_osm app\<rparr>, [])"
| "app_act now app FitAllRobots = (app\<lparr>ap_fitNonce := ap_fitNonce app + 1\<rparr>, [])"
| "app_act now app AllStop = onAllStop now app"
| "app_act now app Apply =
     (case apply_panel (ap_selected app) (ap_panel app) of
        None \<Rightarrow> (app, []) | Some intent \<Rightarrow> issueCommand now intent False app)"
| "app_act now app Confirm = onConfirm now app"
| "app_act now app Cancel = (app\<lparr>ap_confirm := None\<rparr>, [])"
| "app_act now app (Ack i) = (app\<lparr>ap_alerts := ack i (ap_alerts app)\<rparr>, [])"
| "app_act now app AckAll = (app\<lparr>ap_alerts := ackAll (ap_alerts app)\<rparr>, [])"
| "app_act now app ToggleAudit = (app\<lparr>ap_auditOpen := \<not> ap_auditOpen app\<rparr>, [])"
| "app_act now app (EditSpeed s) = (app\<lparr>ap_panel := (ap_panel app)\<lparr>cp_speed := s\<rparr>\<rparr>, [])"
| "app_act now app (EditRadius s) = (app\<lparr>ap_panel := (ap_panel app)\<lparr>cp_radius := s\<rparr>\<rparr>, [])"

section \<open>The rendered tree\<close>

definition App_panels ::
  "(string \<Rightarrow> string \<Rightarrow> int) \<Rightarrow> (int \<Rightarrow> string) \<Rightarrow> app \<Rightarrow> action vnode list"
where
  "App_panels localeCompare fmtTime app =
     [StatusBar (app_robots app) (sh_status (ap_swarm app)) (ap_osm app) (unackedCount (ap_alerts app))
        (sv_symbols (ap_saVis app)) AllStop (ToggleSa SaSymbols) ToggleBasemap FitAllRobots,
      box ''div'' ''body''
        [box ''div'' ''leftcol''
           [Roster localeCompare (app_robots app) (ap_selected app) Select,
            LayerToggles (ap_layerVis app) ToggleLayer (ap_saVis app) ToggleSa],
         box ''div'' ''map'' [],
         box ''div'' ''rightcol''
           [CommandPanel (ap_selected app) (ap_panel app) EditSpeed EditRadius Apply,
            AlertFeed fmtTime (ua_alerts (ap_alerts app)) (ua_acked (ap_alerts app))
              (unackedCount (ap_alerts app)) Ack AckAll FlyToRobot,
            AuditStrip fmtTime (ap_audit app) (ap_auditOpen app) ToggleAudit]],
      CommandStrip (case sh_frame (ap_swarm app) of None \<Rightarrow> [] | Some f \<Rightarrow> sw_commands f)]"

definition App_view ::
  "(string \<Rightarrow> string \<Rightarrow> int) \<Rightarrow> (int \<Rightarrow> string) \<Rightarrow> app \<Rightarrow> action vnode"
where
  "App_view localeCompare fmtTime app =
     box ''div'' ''app''
       (App_panels localeCompare fmtTime app @
        (case ap_confirm app of
           None \<Rightarrow> []
         | Some c \<Rightarrow> [ConfirmDialog (cf_title c) (cf_lines c) (cf_danger c) (cf_confirmLabel c) Confirm Cancel]))"

text \<open>The props of the map.\<close>

definition app_map_props :: "app \<Rightarrow> map_props" where
  "app_map_props app =
     \<lparr>mp_frame = sh_frame (ap_swarm app), mp_trails = sh_trails (ap_swarm app),
      mp_selected = ap_selected app, mp_basemap_osm = ap_osm app, mp_fitNonce = ap_fitNonce app,
      mp_layerVis = ap_layerVis app, mp_saVis = ap_saVis app, mp_critical = criticalRobots (ap_alerts app),
      mp_breachNonce = ua_breachPulseNonce (ap_alerts app), mp_flyTo = ap_flyTo app\<rparr>"

section \<open>Events\<close>

datatype app_event =
    Socket nat swarm_event
  | Dom nat string dom_event "nat list"
  | OnMap nat map_action

text \<open>Whether an event of the WebSocket is a frame that reaches the hook.\<close>

fun frame_arrives :: "swarm_hook \<Rightarrow> swarm_event \<Rightarrow> bool" where
  "frame_arrives h (WsMessage k (SwarmMsg f)) = (k < length (sh_sockets h) \<and> sh_sockets h ! k = OPEN)"
| "frame_arrives h _ = False"

definition frame_effects :: "(jsnum \<Rightarrow> jsnum \<Rightarrow> bool) \<Rightarrow> nat \<Rightarrow> app \<Rightarrow> app" where
  "frame_effects inside now app =
     app\<lparr>ap_alerts := on_alert_frame inside (ap_alerts app) (sh_frame (ap_swarm app)) (int now),
         ap_audit := on_audit_frame (sh_frame (ap_swarm app)) (ap_audit app)\<rparr>"

fun map_to_action :: "map_action \<Rightarrow> action" where
  "map_to_action (SelectRobot i adding) = Select i adding"
| "map_to_action ClearSelection = ClearSelected"

definition after_event :: "nat \<Rightarrow> app \<times> client_message list \<Rightarrow> app \<times> client_message list" where
  "after_event now r =
     (let (app, msgs) = r;
          app1 = app\<lparr>ap_panel := prefill_effect (ap_selected app) (app_robots app) (ap_panel app)\<rparr>;
          (app2, msgs') = demo_effect now app1
      in (app2, msgs @ msgs'))"

fun app_step ::
  "(jsnum \<Rightarrow> jsnum \<Rightarrow> bool) \<Rightarrow> (string \<Rightarrow> string \<Rightarrow> int) \<Rightarrow> (int \<Rightarrow> string) \<Rightarrow>
     app \<Rightarrow> app_event \<Rightarrow> app \<times> client_message list"
where
  "app_step inside localeCompare fmtTime app (Socket now ev) =
     (let app1 = app\<lparr>ap_swarm := swarm_step (ap_swarm app) ev\<rparr>;
          app2 = (if frame_arrives (ap_swarm app) ev then frame_effects inside now app1 else app1)
      in after_event now (app2, []))"
| "app_step inside localeCompare fmtTime app (Dom now kind e path) =
     after_event now
       (run (app_act now) app (fst (dispatch kind e path (App_view localeCompare fmtTime app))))"
| "app_step inside localeCompare fmtTime app (OnMap now a) =
     after_event now (app_act now app (map_to_action a))"

declare app_step.simps [simp del]

text \<open>An event commits the page with the state that its handler has set. The passive effects run
  after that commit (the alert engine, the audit log, the prefill, the demo), and what they set
  is in a second commit; when they set nothing there is none, and its props would be the same.\<close>

fun first_render ::
  "(string \<Rightarrow> string \<Rightarrow> int) \<Rightarrow> (int \<Rightarrow> string) \<Rightarrow> app \<Rightarrow> app_event \<Rightarrow> app \<times> client_message list"
where
  "first_render localeCompare fmtTime app (Socket now ev) =
     (app\<lparr>ap_swarm := swarm_step (ap_swarm app) ev\<rparr>, [])"
| "first_render localeCompare fmtTime app (Dom now kind e path) =
     run (app_act now) app (fst (dispatch kind e path (App_view localeCompare fmtTime app)))"
| "first_render localeCompare fmtTime app (OnMap now a) = app_act now app (map_to_action a)"

fun passive_effects ::
  "(jsnum \<Rightarrow> jsnum \<Rightarrow> bool) \<Rightarrow> app \<Rightarrow> app_event \<Rightarrow> app \<times> client_message list \<Rightarrow> app \<times> client_message list"
where
  "passive_effects inside old (Socket now ev) (app, msgs) =
     after_event now (if frame_arrives (ap_swarm old) ev then frame_effects inside now app else app, msgs)"
| "passive_effects inside old (Dom now kind e path) r = after_event now r"
| "passive_effects inside old (OnMap now a) r = after_event now r"

lemma app_step_phases:
  "app_step inside cmp fmt app ev = passive_effects inside app ev (first_render cmp fmt app ev)"
  by (cases ev) (simp_all add: app_step.simps Let_def)

definition page_commits ::
  "(jsnum \<Rightarrow> jsnum \<Rightarrow> bool) \<Rightarrow> (string \<Rightarrow> string \<Rightarrow> int) \<Rightarrow> (int \<Rightarrow> string) \<Rightarrow> app \<Rightarrow> app_event \<Rightarrow> map_props list"
where
  "page_commits inside localeCompare fmtTime app ev =
     [app_map_props (fst (first_render localeCompare fmtTime app ev)),
      app_map_props (fst (passive_effects inside app ev (first_render localeCompare fmtTime app ev)))]"

section \<open>Which actions the panels can call\<close>

lemma panels_acts [simp]:
  "all_acts (\<lambda>a. a \<noteq> Confirm) (StatusBar robots status osm n sy AllStop (ToggleSa k) ToggleBasemap FitAllRobots)"
  "all_acts (\<lambda>a. a \<noteq> Confirm) (Roster cmp robots sel Select)"
  "all_acts (\<lambda>a. a \<noteq> Confirm) (LayerToggles vis ToggleLayer sav ToggleSa)"
  "all_acts (\<lambda>a. a \<noteq> Confirm) (CommandPanel sel cp EditSpeed EditRadius Apply)"
  "all_acts (\<lambda>a. a \<noteq> Confirm) (AlertFeed fmt alerts acked n Ack AckAll FlyToRobot)"
  "all_acts (\<lambda>a. a \<noteq> Confirm) (AuditStrip fmt entries opened ToggleAudit)"
  "all_acts (\<lambda>a. a \<noteq> Confirm) (CommandStrip commands)"
  by (simp_all add: StatusBar_def Roster_def roster_row_def LayerToggles_def toggle_row_def LAYER_ROWS_def
      SA_ROWS_def CommandPanel_def AlertFeed_def alert_row_def AuditStrip_def audit_row_def audit_chip_def
      CommandStrip_def strip_row_def strip_chip_def Let_def list.pred_map comp_def list.pred_True)

lemma App_panels_acts: "list_all (all_acts (\<lambda>a. a \<noteq> Confirm)) (App_panels cmp fmt app)"
  by (simp add: App_panels_def)

lemma App_panels_length [simp]: "length (App_panels cmp fmt app) = 3"
  by (simp add: App_panels_def)

lemma confirm_only_from_dialog:
  assumes "Confirm \<in> set (fst (dispatch kind e path (App_view cmp fmt app)))"
  shows "kind = ''click'' \<and> path \<in> {[3, 0, 2, 1], [3, 0, 2, 1, 0]} \<and> ap_confirm app \<noteq> None \<and>
    fst (dispatch kind e path (App_view cmp fmt app)) = [Confirm]"
proof (cases "ap_confirm app")
  case None
  then have "all_acts (\<lambda>a. a \<noteq> Confirm) (App_view cmp fmt app)"
    by (simp add: App_view_def App_panels_acts)
  from all_acts_dispatch[OF this, of kind e path] assms show ?thesis by (auto simp: list_all_iff)
next
  case (Some c)
  let ?panels = "App_panels cmp fmt app"
  let ?dialog = "ConfirmDialog (cf_title c) (cf_lines c) (cf_danger c) (cf_confirmLabel c) Confirm Cancel"
  have view: "App_view cmp fmt app = box ''div'' ''app'' (?panels @ [?dialog])"
    by (simp add: App_view_def Some)
  from assms obtain i q where p: "path = i # q" "i < 4"
    by (auto simp: view fst_dispatch_box split: list.splits if_splits)
  have "i = 3"
  proof (rule ccontr)
    assume "i \<noteq> 3"
    with p have "i < 3" by simp
    then have "all_acts (\<lambda>a. a \<noteq> Confirm) (?panels ! i)"
      using App_panels_acts[of cmp fmt app] by (auto simp: list_all_length)
    from all_acts_dispatch[OF this, of kind e q] assms \<open>i < 3\<close> show False
      by (auto simp: view p(1) fst_dispatch_box nth_append list_all_iff)
  qed
  then have "fst (dispatch kind e path (App_view cmp fmt app)) = fst (dispatch kind e q ?dialog)"
    by (simp add: view p(1) fst_dispatch_box nth_append)
  with assms Some \<open>i = 3\<close> p(1) show ?thesis
    by (cases "kind = ''click''") (auto simp: dialog_other_kinds dialog_dispatch split: if_splits)
qed

section \<open>The gate\<close>

definition wide :: "client_message \<Rightarrow> bool" where
  "wide m = (case m of CommandMsg i \<Rightarrow> length (in_targets i) > CONFIRM_ABOVE)"

lemma doSend_msgs:
  "snd (doSend now intent b app) =
     (if ws_current (ap_swarm app) = Some OPEN
      then [CommandMsg (intent\<lparr>in_command_id := Some (snd (issue_web_id now (ap_swarm app) (in_command_id intent)))\<rparr>)]
      else [])"
  by (auto simp: doSend_def swarm_sendCommand_def split_beta Let_def issue_web_id_def ws_current_def
      split: option.splits)

lemma issue_not_wide: "list_all (\<lambda>m. \<not> wide m) (snd (issueCommand now intent b app))"
  by (simp add: issueCommand_def Let_def doSend_msgs wide_def)

lemma act_not_wide: "a \<noteq> Confirm \<Longrightarrow> list_all (\<lambda>m. \<not> wide m) (snd (app_act now app a))"
  by (cases a) (auto simp: onAllStop_def issue_not_wide split: option.split)

lemma run_not_wide: "Confirm \<notin> set as \<Longrightarrow> list_all (\<lambda>m. \<not> wide m) (snd (run (app_act now) app as))"
  by (induction as arbitrary: app) (auto simp: split_beta act_not_wide)

lemma demo_not_wide:
  "dq_fire (ap_demo app) \<noteq> Some ''allstop'' \<Longrightarrow> list_all (\<lambda>m. \<not> wide m) (snd (demo_effect now app))"
  by (simp add: demo_effect_def onAllStop_def issue_not_wide)

lemma app_act_demo [simp]: "ap_demo (fst (app_act now app a)) = ap_demo app"
  by (cases a) (simp_all add: onAllStop_def issueCommand_def onConfirm_def doSend_def split_beta Let_def
      split: option.split)

lemma run_app_demo [simp]: "ap_demo (fst (run (app_act now) app as)) = ap_demo app"
  by (induction as arbitrary: app) (simp_all add: split_beta)

lemma after_event_msgs:
  "dq_fire (ap_demo (fst r)) \<noteq> Some ''allstop'' \<Longrightarrow>
     m \<in> set (snd (after_event now r)) \<Longrightarrow> wide m \<Longrightarrow> m \<in> set (snd r)"
  using demo_not_wide[of "(fst r)\<lparr>ap_panel := prefill_effect (ap_selected (fst r)) (app_robots (fst r)) (ap_panel (fst r))\<rparr>" now]
  by (auto simp: after_event_def split_beta Let_def list_all_iff)

section \<open>The dialog states what it confirms\<close>

definition gate_ok :: "app \<Rightarrow> bool" where
  "gate_ok app \<longleftrightarrow> (\<forall>c. ap_confirm app = Some c \<longrightarrow>
     c = confirm_for (cf_intent c) (cf_allStop c) \<and> in_targets (cf_intent c) \<noteq> [])"

lemma doSend_confirm [simp]: "ap_confirm (fst (doSend now i b app)) = ap_confirm app"
  by (simp add: doSend_def split_beta)

lemma gate_ok_issue: "gate_ok app \<Longrightarrow> gate_ok (fst (issueCommand now i b app))"
  by (auto simp: gate_ok_def issueCommand_def Let_def confirm_for_def)

lemma gate_ok_act: "gate_ok app \<Longrightarrow> gate_ok (fst (app_act now app a))"
  by (cases a) (auto simp: onAllStop_def gate_ok_issue split: option.split,
      auto simp: gate_ok_def onConfirm_def split_beta split: option.split)

lemma gate_ok_run: "gate_ok app \<Longrightarrow> gate_ok (fst (run (app_act now) app as))"
  by (induction as arbitrary: app) (simp_all add: split_beta gate_ok_act)

lemma gate_ok_demo: "gate_ok app \<Longrightarrow> gate_ok (fst (demo_effect now app))"
proof -
  assume ok: "gate_ok app"
  then have "gate_ok (app\<lparr>ap_demoFired := True\<rparr>)" by (simp add: gate_ok_def)
  then have "gate_ok (fst (onAllStop now (app\<lparr>ap_demoFired := True\<rparr>)))"
    "gate_ok (fst (doSend now (all_stop_intent app) True (app\<lparr>ap_demoFired := True\<rparr>)))"
    by (simp_all add: onAllStop_def gate_ok_issue) (simp add: gate_ok_def)
  with ok show ?thesis by (simp add: demo_effect_def)
qed

lemma gate_ok_after: "gate_ok (fst r) \<Longrightarrow> gate_ok (fst (after_event now r))"
proof -
  assume "gate_ok (fst r)"
  then have "gate_ok ((fst r)\<lparr>ap_panel := prefill_effect (ap_selected (fst r)) (app_robots (fst r)) (ap_panel (fst r))\<rparr>)"
    by (simp add: gate_ok_def)
  then show ?thesis by (simp add: after_event_def split_beta Let_def gate_ok_demo)
qed

lemma gate_ok_step: "gate_ok app \<Longrightarrow> gate_ok (fst (app_step inside cmp fmt app ev))"
proof (cases ev)
  case (Socket now e)
  assume "gate_ok app"
  then show ?thesis unfolding Socket app_step.simps Let_def
    by (intro gate_ok_after) (simp add: gate_ok_def frame_effects_def)
next
  case (Dom now kind e path)
  assume "gate_ok app"
  then show ?thesis unfolding Dom app_step.simps by (intro gate_ok_after gate_ok_run)
next
  case (OnMap now a)
  assume "gate_ok app"
  then show ?thesis unfolding OnMap app_step.simps by (intro gate_ok_after gate_ok_act)
qed

interpretation app_machine: io_machine "app_step inside cmp fmt" gate_ok "\<lambda>_. True" for inside cmp fmt
  by unfold_locales (simp_all add: gate_ok_step list_all_iff)

section \<open>Properties\<close>

definition app_session ::
  "(jsnum \<Rightarrow> jsnum \<Rightarrow> bool) \<Rightarrow> (string \<Rightarrow> string \<Rightarrow> int) \<Rightarrow> (int \<Rightarrow> string) \<Rightarrow>
     demo_query \<Rightarrow> app_event list \<Rightarrow> app"
where
  "app_session inside cmp fmt demo evs = fst (run (app_step inside cmp fmt) (mounted_app demo) evs)"

lemma gate_ok_session: "gate_ok (app_session inside cmp fmt demo evs)"
  unfolding app_session_def by (rule app_machine.run_inv) (simp add: gate_ok_def mounted_app_def Let_def)

lemma step_wide:
  assumes "dq_fire (ap_demo app) \<noteq> Some ''allstop''"
    and "m \<in> set (snd (app_step inside cmp fmt app ev))" "wide m"
  shows "\<exists>now e path. ev = Dom now ''click'' e path \<and> path \<in> {[3, 0, 2, 1], [3, 0, 2, 1, 0]} \<and>
    m \<in> set (snd (onConfirm now app)) \<and> ap_confirm app \<noteq> None"
proof (cases ev)
  case (Socket now e)
  have quiet: "m \<notin> set (snd (after_event now (a, [])))" if "ap_demo a = ap_demo app" for a
    using after_event_msgs[of "(a, [])" m now] that assms(1,3) by auto
  from assms(2) show ?thesis
    by (auto simp: Socket app_step.simps Let_def frame_effects_def quiet split: if_splits)
next
  case (OnMap now a)
  have "map_to_action a \<noteq> Confirm" by (cases a) simp_all
  from act_not_wide[OF this, of now app] OnMap assms after_event_msgs[of "app_act now app (map_to_action a)" m now]
  show ?thesis by (auto simp: app_step.simps list_all_iff)
next
  case (Dom now kind e path)
  let ?as = "fst (dispatch kind e path (App_view cmp fmt app))"
  have sent: "m \<in> set (snd (run (app_act now) app ?as))"
    using after_event_msgs[of "run (app_act now) app ?as" m now] assms Dom by (simp add: app_step.simps)
  then have "Confirm \<in> set ?as"
    using run_not_wide[of ?as now app] assms(3) by (auto simp: list_all_iff)
  note dialog = confirm_only_from_dialog[OF this]
  with sent show ?thesis by (auto simp: Dom split_beta)
qed

text \<open>C3: The confirmation gate holds end to end: in every session of the application (unless the
  page was opened with \<open>?fire=allstop\<close>), whatever the operator clicks or types and whatever
  arrives, a command to more than three robots leaves the browser only by a click on the confirm
  button of an open dialog, and that dialog states the scope: its title gives the number of
  robots and its first line lists exactly the targets that are sent.\<close>

theorem wide_commands_are_confirmed:
  assumes "dq_fire (ap_demo (app_session inside cmp fmt demo evs)) \<noteq> Some ''allstop''"
    and "CommandMsg i \<in> set (snd (app_step inside cmp fmt (app_session inside cmp fmt demo evs) ev))"
    and "3 < length (in_targets i)"
  shows "\<exists>now e path c. ev = Dom now ''click'' e path \<and> path \<in> {[3, 0, 2, 1], [3, 0, 2, 1, 0]} \<and>
    ap_confirm (app_session inside cmp fmt demo evs) = Some c \<and>
    cf_title c = (if cf_allStop c then ''Stop ALL '' @ nat_str (length (in_targets i)) @ '' robots?''
                  else ''Apply to '' @ nat_str (length (in_targets i)) @ '' robots?'') \<and>
    hd (cf_lines c) = ''Targets: '' @ join '', '' (in_targets i) \<and>
    in_params i = in_params (cf_intent c)"
proof -
  let ?app = "app_session inside cmp fmt demo evs"
  have "wide (CommandMsg i)" using assms(3) by (simp add: wide_def CONFIRM_ABOVE_def)
  from step_wide[OF assms(1,2) this] obtain now e path c where
    ev: "ev = Dom now ''click'' e path" "path \<in> {[3, 0, 2, 1], [3, 0, 2, 1, 0]}"
    and sent: "CommandMsg i \<in> set (snd (onConfirm now ?app))" and c: "ap_confirm ?app = Some c"
    by blast
  from sent c have i: "in_targets i = in_targets (cf_intent c)" "in_params i = in_params (cf_intent c)"
    by (auto simp: onConfirm_def split_beta doSend_msgs split: if_splits)
  have spec: "c = confirm_for (cf_intent c) (cf_allStop c)"
    using gate_ok_session[of inside cmp fmt demo evs] c by (simp add: gate_ok_def)
  have "cf_title c = (if cf_allStop c then ''Stop ALL '' @ nat_str (length (in_targets i)) @ '' robots?''
        else ''Apply to '' @ nat_str (length (in_targets i)) @ '' robots?'') \<and>
      hd (cf_lines c) = ''Targets: '' @ join '', '' (in_targets i)"
    unfolding i(1) by (subst (1 3) spec) (simp add: confirm_for_def Let_def)
  with ev c i(2) show ?thesis by blast
qed

definition demo_frame :: swarm_state where
  "demo_frame = sample_frame (map (\<lambda>i. sample_robot i LINK_LIVE (Fin 0))
     [''R-01'', ''R-02'', ''R-03'', ''R-04'']) []"

definition demo_session :: "demo_query \<Rightarrow> app" where
  "demo_session q = app_session (\<lambda>x y. True) (\<lambda>a b. 0) (\<lambda>t. '''') q
     [Socket 1 (WsOpen 0), Socket 2 (WsMessage 0 (SwarmMsg demo_frame))]"

definition confirm_query :: demo_query where
  "confirm_query = \<lparr>dq_sel = None, dq_sym = None, dq_confirm = Some ''allstop'', dq_fire = None\<rparr>"

lemma demo_ids: "map rb_id (sw_robots demo_frame) = [''R-01'', ''R-02'', ''R-03'', ''R-04'']"
  by (simp add: demo_frame_def sample_frame_def sample_robot_def)

lemma after_event_fields:
  "ap_swarm (fst (demo_effect now app)) = ap_swarm app" if "dq_fire (ap_demo app) = None"
  using that by (simp add: demo_effect_def onAllStop_def issueCommand_def)

lemma demo_effect_ap_demo [simp]: "ap_demo (fst (demo_effect now app)) = ap_demo app"
  by (simp add: demo_effect_def onAllStop_def issueCommand_def doSend_def split_beta Let_def)

text \<open>A page opened with \<open>?confirm=allstop\<close>: the first frame opens the dialog.\<close>

lemma first_frame:
  assumes "ap_demoFired app = False" "sh_sockets (ap_swarm app) = [OPEN]" "dq_confirm (ap_demo app) = Some ''allstop''"
  shows "let app' = fst (app_step inside cmp fmt app (Socket now (WsMessage 0 (SwarmMsg demo_frame)))) in
    ap_demo app' = ap_demo app \<and> ws_current (ap_swarm app') = Some OPEN \<and>
    ap_confirm app' = Some (confirm_for
      \<lparr>in_command_id = None, in_targets = [''R-01'', ''R-02'', ''R-03'', ''R-04''],
       in_params = no_params\<lparr>pr_speed := Some (Fin 0)\<rparr>\<rparr> True)"
  using assms demo_ids
  by (simp add: app_step.simps frame_effects_def after_event_def Let_def split_beta
      demo_effect_def allIds_def app_robots_def robots_in_def onAllStop_def issueCommand_def
      all_stop_intent_def ws_current_def) auto

lemma demo_opens_dialog:
  "ap_demo (demo_session confirm_query) = confirm_query \<and>
   ws_current (ap_swarm (demo_session confirm_query)) = Some OPEN \<and>
   ap_confirm (demo_session confirm_query) = Some (confirm_for
     \<lparr>in_command_id = None, in_targets = [''R-01'', ''R-02'', ''R-03'', ''R-04''],
      in_params = no_params\<lparr>pr_speed := Some (Fin 0)\<rparr>\<rparr> True)"
proof -
  let ?s1 = "fst (app_step (\<lambda>x y. True) (\<lambda>a b. 0) (\<lambda>t. '''') (mounted_app confirm_query) (Socket 1 (WsOpen 0)))"
  have "ap_demo ?s1 = confirm_query" "ap_demoFired ?s1 = False" "sh_sockets (ap_swarm ?s1) = [OPEN]"
    by (simp_all add: app_step.simps mounted_app_def mounted_swarm_def connect_def after_event_def
        demo_effect_def allIds_def app_robots_def robots_in_def on_open_def set_socket_def Let_def)
  moreover from this(1) have "dq_confirm (ap_demo ?s1) = Some ''allstop''" by (simp add: confirm_query_def)
  ultimately show ?thesis
    using first_frame[of ?s1 "\<lambda>x y. True" "\<lambda>a b. 0" "\<lambda>t. ''''" 2]
    by (simp add: demo_session_def app_session_def split_beta Let_def del: One_nat_def)
qed

theorem wide_commands_are_confirmed_witness:
  "\<exists>c. ap_confirm (demo_session confirm_query) = Some c \<and> cf_title c = ''Stop ALL '' @ nat_str 4 @ '' robots?'' \<and>
     hd (cf_lines c) = ''Targets: '' @ join '', '' [''R-01'', ''R-02'', ''R-03'', ''R-04'']"
proof -
  let ?app = "demo_session confirm_query"
  let ?i = "\<lparr>in_command_id = Some (snd (issue_web_id 3 (ap_swarm ?app) None)),
     in_targets = [''R-01'', ''R-02'', ''R-03'', ''R-04''], in_params = no_params\<lparr>pr_speed := Some (Fin 0)\<rparr>\<rparr>"
  let ?ev = "Dom 3 ''click'' plain_event [3, 0, 2, 1]"
  note opened = demo_opens_dialog
  have acts: "fst (dispatch ''click'' plain_event [3, 0, 2, 1] (App_view (\<lambda>a b. 0) (\<lambda>t. '''') ?app)) = [Confirm]"
    using opened by (simp add: App_view_def fst_dispatch_box nth_append dialog_dispatch)
  have "CommandMsg ?i \<in> set (snd (onConfirm 3 ?app))"
    using opened by (simp add: onConfirm_def split_beta doSend_msgs) (simp add: confirm_for_def Let_def)
  then have sent: "CommandMsg ?i \<in> set (snd (app_step (\<lambda>x y. True) (\<lambda>a b. 0) (\<lambda>t. '''') ?app ?ev))"
    by (simp add: app_step.simps acts after_event_def split_beta Let_def del: One_nat_def)
  have hyps: "dq_fire (ap_demo ?app) \<noteq> Some ''allstop''" "3 < length (in_targets ?i)"
    using opened by (simp_all add: confirm_query_def)
  from wide_commands_are_confirmed[OF hyps(1)[unfolded demo_session_def] sent[unfolded demo_session_def] hyps(2)[unfolded demo_session_def]]
  show ?thesis using opened unfolding demo_session_def[symmetric]
    by (simp add: confirm_for_def Let_def)
qed

text \<open>What accountability asks of one step: at most one message, and it is the newest entry.\<close>

definition audited :: "app \<times> client_message list \<Rightarrow> bool" where
  "audited r = (case snd r of
     [] \<Rightarrow> True
   | m # ms \<Rightarrow> ms = [] \<and> (\<exists>i c e es. m = CommandMsg i \<and> in_command_id i = Some c \<and>
       ap_audit (fst r) = e # es \<and> ae_command_id e = c \<and>
       ae_targets e = in_targets i \<and> ae_params e = in_params i \<and>
       list_all (\<lambda>t. map_of (ae_outcomes e) t = Some CMD_PENDING) (in_targets i)))"

lemma all_pending:
  "list_all (\<lambda>t. map_of (foldl (\<lambda>o' t. AList.update t CMD_PENDING o') m ts) t = Some CMD_PENDING) ts"
  using map_of_foldl_update[of "\<lambda>t. t" "\<lambda>t. CMD_PENDING" m ts]
  by (auto simp: list_all_iff last_of_None split: option.split)

lemma audited_send: "audited (doSend now i b app)"
  unfolding audited_def doSend_msgs
  by (simp add: doSend_def swarm_sendCommand_def split_beta Let_def record_command_def push_entry_def
      MAX_ENTRIES_def new_entry_def all_pending)

lemma audited_close: "audited (app, msgs) \<Longrightarrow> audited (app\<lparr>ap_confirm := None\<rparr>, msgs)"
  by (cases msgs) (simp_all add: audited_def)

lemma audited_none: "audited (app, [])"
  by (simp add: audited_def)

lemma audited_issue: "audited (issueCommand now i b app)"
  by (simp add: issueCommand_def Let_def audited_send audited_none)

lemma audited_confirm: "audited (onConfirm now app)"
proof (cases "ap_confirm app")
  case (Some c)
  with audited_close[of "fst (doSend now (cf_intent c) (cf_allStop c) app)"]
    audited_send[of now "cf_intent c" "cf_allStop c" app] show ?thesis
    by (simp add: onConfirm_def split_beta)
qed (simp add: onConfirm_def audited_none)

lemma audited_act: "audited (app_act now app a)"
  by (cases a) (simp_all add: audited_none audited_issue audited_confirm onAllStop_def split: option.split)

text \<open>Command accountability: whatever the operator does, at most one command leaves the browser
  per action, and when one does, the newest entry of the audit log is that command: same id, same
  targets and parameters, every target PENDING.\<close>

theorem sent_commands_are_audited:
  "case snd (app_act now app a) of
     [] \<Rightarrow> True
   | m # ms \<Rightarrow> ms = [] \<and> (\<exists>i c e es. m = CommandMsg i \<and> in_command_id i = Some c \<and>
       ap_audit (fst (app_act now app a)) = e # es \<and> ae_command_id e = c \<and>
       ae_targets e = in_targets i \<and> ae_params e = in_params i \<and>
       list_all (\<lambda>t. map_of (ae_outcomes e) t = Some CMD_PENDING) (in_targets i))"
  using audited_act[of now app a] by (simp only: audited_def)

text \<open>When the socket is not open, a confirmed command is not sent and not queued, and the
  operator is told nothing: the audit log shows it as PENDING for every target.\<close>

theorem unsent_command_looks_pending:
  assumes "ws_current (ap_swarm app) \<noteq> Some OPEN" "ap_confirm app = Some c"
  shows "snd (app_act now app Confirm) = [] \<and>
    (\<exists>e es. ap_audit (fst (app_act now app Confirm)) = e # es \<and> ae_targets e = in_targets (cf_intent c) \<and>
       map fst (ae_outcomes e) = map fst (foldl (\<lambda>o' t. AList.update t CMD_PENDING o') [] (in_targets (cf_intent c))) \<and>
       list_all (\<lambda>(t, s). s = CMD_PENDING) (ae_outcomes e))"
proof -
  have "list_all (\<lambda>(t, s). s = CMD_PENDING) (foldl (\<lambda>o' t. AList.update t CMD_PENDING o') m ts)"
    if "list_all (\<lambda>(t, s). s = CMD_PENDING) m" for m and ts :: "string list"
    using that
  proof (induction ts arbitrary: m)
    case (Cons t ts)
    have "list_all (\<lambda>(t, s). s = CMD_PENDING) (AList.update t CMD_PENDING m)"
      using Cons.prems set_update[of t CMD_PENDING m] by (auto simp: list_all_iff)
    with Cons.IH show ?case by simp
  qed simp
  with assms show ?thesis
    by (simp add: onConfirm_def split_beta doSend_msgs)
      (simp add: doSend_def swarm_sendCommand_def split_beta Let_def record_command_def push_entry_def
        MAX_ENTRIES_def new_entry_def)
qed

definition demo_app :: "ready_state \<Rightarrow> demo_query \<Rightarrow> app" where
  "demo_app rs q = (mounted_app q)\<lparr>ap_swarm := mounted_swarm\<lparr>sh_sockets := [rs], sh_frame := Some demo_frame\<rparr>\<rparr>"

theorem unsent_command_looks_pending_witness:
  "snd (app_act 5 ((demo_app CLOSED confirm_query)\<lparr>ap_confirm := Some (confirm_for
      \<lparr>in_command_id = None, in_targets = [''R-01''], in_params = no_params\<rparr> True)\<rparr>) Confirm) = [] \<and>
   ae_targets (hd (ap_audit (fst (app_act 5 ((demo_app CLOSED confirm_query)\<lparr>ap_confirm := Some (confirm_for
      \<lparr>in_command_id = None, in_targets = [''R-01''], in_params = no_params\<rparr> True)\<rparr>) Confirm)))) = [''R-01'']"
proof -
  let ?c = "confirm_for \<lparr>in_command_id = None, in_targets = [''R-01''], in_params = no_params\<rparr> True"
  let ?app = "(demo_app CLOSED confirm_query)\<lparr>ap_confirm := Some ?c\<rparr>"
  have "ws_current (ap_swarm ?app) \<noteq> Some OPEN" "ap_confirm ?app = Some ?c"
    by (simp_all add: demo_app_def ws_current_def)
  note facts = unsent_command_looks_pending[OF this, of 5]
  have "in_targets (cf_intent ?c) = [''R-01'']" by (simp add: confirm_for_def Let_def)
  with facts show ?thesis by (metis list.sel(1))
qed

text \<open>The URL helper \<open>?fire=allstop\<close> sends an ALL-STOP to the whole swarm on the first frame,
  with no dialog: the gate does not cover it.\<close>

theorem fire_query_bypasses_the_gate:
  assumes "dq_fire (ap_demo app) = Some ''allstop''" "dq_confirm (ap_demo app) \<noteq> Some ''allstop''"
    and "\<not> ap_demoFired app" "allIds app \<noteq> []" "ws_current (ap_swarm app) = Some OPEN"
  shows "\<exists>i. snd (demo_effect now app) = [CommandMsg i] \<and> in_targets i = allIds app \<and>
    pr_speed (in_params i) = Some (Fin 0) \<and> ap_confirm (fst (demo_effect now app)) = ap_confirm app"
  using assms
  by (simp add: demo_effect_def doSend_msgs) (simp add: all_stop_intent_def)

theorem fire_query_bypasses_the_gate_witness:
  "\<exists>i. snd (demo_effect 9 (demo_app OPEN (confirm_query\<lparr>dq_confirm := None, dq_fire := Some ''allstop''\<rparr>))) =
     [CommandMsg i] \<and> in_targets i = [''R-01'', ''R-02'', ''R-03'', ''R-04'']"
proof -
  let ?app = "demo_app OPEN (confirm_query\<lparr>dq_confirm := None, dq_fire := Some ''allstop''\<rparr>)"
  have ids: "allIds ?app = [''R-01'', ''R-02'', ''R-03'', ''R-04'']"
    using demo_ids by (simp add: allIds_def app_robots_def robots_in_def demo_app_def)
  have "dq_fire (ap_demo ?app) = Some ''allstop''" "dq_confirm (ap_demo ?app) \<noteq> Some ''allstop''"
    "\<not> ap_demoFired ?app" "allIds ?app \<noteq> []" "ws_current (ap_swarm ?app) = Some OPEN"
    using ids by (simp_all add: demo_app_def mounted_app_def confirm_query_def ws_current_def Let_def)
  from fire_query_bypasses_the_gate[OF this, of 9] ids show ?thesis by auto
qed

text \<open>The command panel sends only what the fields say: nothing at all without a selection or
  with no readable field, and otherwise exactly the selected robots, with the speed and the
  radius the texts read as, each present only when its text is not blank and is a finite number,
  and never a centre or a phase.\<close>

theorem panel_sends_filled_fields:
  "case apply_panel selected cp of
     None \<Rightarrow> selected = [] \<or> field_value (cp_speed cp) = None \<and> field_value (cp_radius cp) = None
   | Some i \<Rightarrow> in_targets i = selected \<and> in_command_id i = None \<and>
       pr_speed (in_params i) = field_value (cp_speed cp) \<and>
       pr_radius (in_params i) = field_value (cp_radius cp) \<and>
       pred_option is_finite (pr_speed (in_params i)) \<and> pred_option is_finite (pr_radius (in_params i)) \<and>
       pr_center_x (in_params i) = None \<and> pr_center_y (in_params i) = None \<and> pr_theta (in_params i) = None"
  by (auto simp: apply_panel_def Let_def no_params_def field_value_def)

lemma field_value_toFixed: "n < 10 ^ 21 \<Longrightarrow> field_value (nat_str n) = Some (Fin (real n))"
  by (simp add: field_value_def trim_nat_str js_Number_nat_str)

lemma toFixed_0_round:
  "0 \<le> r \<Longrightarrow> r < 10 ^ 20 \<Longrightarrow> toFixed 0 (Fin r) = nat_str (nat (js_round r)) \<and> nat (js_round r) < 10 ^ 21"
proof -
  assume r: "0 \<le> r" "r < 10 ^ 20"
  have "js_round r < 10 ^ 21" using r by (simp add: js_round_def floor_less_iff)
  then have "nat (js_round r) < 10 ^ 21" using r by (simp add: nat_less_iff js_round_def)
  with r show ?thesis by (simp add: fixed_digits_def zeros_def Let_def Suc_le_eq)
qed

text \<open>The comment says that only the fields the operator fills are sent, but the panel
  prefills both from the first selected robot, rounded: selecting robots and pressing APPLY
  without typing anything commands every one of them to the first one's rounded speed and radius.\<close>

theorem untouched_panel_sends_prefill:
  assumes "selected = i # others" "cp_first cp \<noteq> Some i" "find (\<lambda>r. rb_id r = i) robots = Some r"
    and "tl_speed (rb_telemetry r) = Fin v" "tl_radius (rb_telemetry r) = Fin R"
    and "0 \<le> v" "v < 10 ^ 20" "0 \<le> R" "R < 10 ^ 20"
  shows "apply_panel selected (prefill_effect selected robots cp) =
    Some \<lparr>in_command_id = None, in_targets = selected,
      in_params = no_params\<lparr>pr_speed := Some (Fin (real (nat (js_round v)))),
                             pr_radius := Some (Fin (real (nat (js_round R))))\<rparr>\<rparr>"
  using assms toFixed_0_round[OF assms(6,7)] toFixed_0_round[OF assms(8,9)]
  by (simp add: prefill_effect_def first_target_def primary_def apply_panel_def Let_def field_value_toFixed
      del: toFixed.simps)

theorem untouched_panel_sends_prefill_witness:
  "apply_panel [''R-02'', ''R-03''] (prefill_effect [''R-02'', ''R-03'']
     [(fake_robotState 0 0 (fake_robot_of ''R-02'' 300 250 60 (114 / 10) 1 False))]
     \<lparr>cp_speed = '''', cp_radius = '''', cp_first = None\<rparr>) =
   Some \<lparr>in_command_id = None, in_targets = [''R-02'', ''R-03''],
     in_params = no_params\<lparr>pr_speed := Some (Fin 11), pr_radius := Some (Fin 60)\<rparr>\<rparr>"
proof -
  let ?r = "fake_robotState 0 0 (fake_robot_of ''R-02'' 300 250 60 (114 / 10) 1 False)"
  have state: "tl_speed (rb_telemetry ?r) = Fin (114 / 10)" "tl_radius (rb_telemetry ?r) = Fin 60"
    by (simp_all add: fake_robotState_def fake_robot_of_def Let_def)
  have "find (\<lambda>r. rb_id r = ''R-02'') [?r] = Some ?r"
    by (simp only: find.simps robotState_id) (simp add: fake_robot_of_def)
  from untouched_panel_sends_prefill[OF refl _ this state, of "\<lparr>cp_speed = '''', cp_radius = '''', cp_first = None\<rparr>" "[''R-03'']"]
  show ?thesis by (simp add: js_round_def)
qed

text \<open>From what is wrong to where it is: clicking an alert selects exactly its robot, and on a
  map that has loaded the next commit flies to the robot's position, every time, also when the
  same alert is clicked again.\<close>

theorem alert_click_flies_to_robot:
  assumes "mv_created mv" "mv_ready mv"
    and "find (\<lambda>r. rb_id r = i) (app_robots app) = Some r"
  shows "ap_selected (fst (app_act now app (FlyToRobot i))) = [i] \<and>
    snd (map_commit svg fresh t zoom (Some (app_map_props app)) (app_map_props (fst (app_act now app (FlyToRobot i)))) mv) =
      [FlyTo (robot_pos r) (max zoom (155 / 10))]"
proof -
  let ?p = "app_map_props (fst (app_act now app (FlyToRobot i)))"
  have changed: "when_changed (\<lambda>q. map_option snd (mp_flyTo q)) (Some (app_map_props app)) ?p"
    "\<not> when_changed mp_fitNonce (Some (app_map_props app)) ?p"
    "\<not> when_changed mp_breachNonce (Some (app_map_props app)) ?p"
    "\<not> when_changed mp_layerVis (Some (app_map_props app)) ?p"
    "\<not> when_changed mp_basemap_osm (Some (app_map_props app)) ?p"
    by (simp_all add: when_changed_def app_map_props_def split: option.split)
  show ?thesis
    using assms
    by (simp add: map_commit_def Let_def changed[simplified] run_effect_def fly_effect_def)
      (simp add: app_map_props_def app_robots_def)
qed

theorem alert_click_flies_to_robot_witness:
  "snd (map_commit (\<lambda>_. '''') True 0 14 (Some (app_map_props (demo_app OPEN confirm_query)))
     (app_map_props (fst (app_act 0 (demo_app OPEN confirm_query) (FlyToRobot ''R-03''))))
     (new_map_view\<lparr>mv_created := True, mv_ready := True\<rparr>)) =
   [FlyTo (metersToLonLat (Fin 0) (Fin 0)) (155 / 10)]"
proof -
  let ?mv = "new_map_view\<lparr>mv_created := True, mv_ready := True\<rparr>"
  have "mv_created ?mv" "mv_ready ?mv"
    "find (\<lambda>r. rb_id r = ''R-03'') (app_robots (demo_app OPEN confirm_query)) = Some (sample_robot ''R-03'' LINK_LIVE (Fin 0))"
    by (simp_all add: app_robots_def robots_in_def demo_app_def demo_frame_def sample_frame_def sample_robot_def)
  from alert_click_flies_to_robot[OF this, of 0 "\<lambda>_. ''''" True 0 14] show ?thesis
    by (simp add: robot_pos_def) (simp add: sample_robot_def)
qed

end
