(* ===== verification/CoreTypes.thy ===== *)
theory CoreTypes
  imports WireTypes "HOL-Library.Word" "HOL-Library.Signed_Division"
begin

text \<open>
  \<open>src/core/robot_types.hpp\<close>: the domain types of the C2 core, in C++. A \<open>double\<close> is a \<open>jsnum\<close>
  (both are IEEE doubles, with the idealisations of \<open>JsNum\<close>), a \<open>uint64_t\<close> a word, a time point or
  duration an integer number of nanoseconds (what the clocks count in; the range of \<open>int64\<close> ends in
  2262), \<open>std::variant\<close> of a single type that type. An \<open>unordered_map\<close> is an association list whose
  order is left open: no property depends on it. The domain \<open>CommandState\<close> has the constructors
  of the wire type, which stands for both.
\<close>

section \<open>Telemetry and commands\<close>

record robot_telemetry =
  rt_robot_id :: string
  rt_seq :: "64 word"
  rt_timestamp :: int
  rt_x :: jsnum
  rt_y :: jsnum
  rt_heading :: jsnum
  rt_speed :: jsnum
  rt_radius :: jsnum

record set_parameters =
  sp_speed :: "jsnum option"
  sp_radius :: "jsnum option"
  sp_center_x :: "jsnum option"
  sp_center_y :: "jsnum option"
  sp_theta :: "jsnum option"

record robot_command =
  rc_command_id :: string
  rc_timestamp :: int
  rc_expiry :: int
  rc_robot_id :: string
  rc_payload :: set_parameters

record op_command =
  op_command_id :: string
  op_timestamp :: int
  op_expiry :: int
  op_targets :: "string list"
  op_payload :: set_parameters

datatype result_code = RESULT_UNSPECIFIED | RESULT_APPLIED | RESULT_REJECTED

record command_result =
  cr_command_id :: string
  cr_robot_id :: string
  cr_result :: result_code
  cr_detail :: string

section \<open>Time\<close>

abbreviation ns_per_ms :: int where "ns_per_ms \<equiv> 1000000"
abbreviation ns_per_s :: int where "ns_per_s \<equiv> 1000000000"

text \<open>\<open>duration_cast\<close> to a coarser unit: integer division, which truncates towards zero.\<close>

definition duration_cast :: "int \<Rightarrow> int \<Rightarrow> int" where
  "duration_cast unit d = d sdiv unit"

lemma duration_cast_nonneg: "0 \<le> d \<Longrightarrow> 0 < u \<Longrightarrow> duration_cast u d = d div u"
  by (cases "d = 0") (auto simp: duration_cast_def signed_divide_int_def sgn_if)

lemma le_div_iff: "k \<le> d div u \<longleftrightarrow> k * u \<le> d" if "0 < u" for k d u :: int
proof
  assume "k \<le> d div u"
  then have "k * u \<le> d div u * u" using that by simp
  also have "\<dots> \<le> d" using div_mult_mod_eq[of d u] pos_mod_sign[OF that, of d] by linarith
  finally show "k * u \<le> d" .
next
  assume "k * u \<le> d"
  then have "k * u div u \<le> d div u" using that by (rule zdiv_mono1)
  then show "k \<le> d div u" using that by simp
qed

lemma duration_cast_ge:
  assumes "0 < u" "0 < k"
  shows "k \<le> duration_cast u d \<longleftrightarrow> k * u \<le> d"
proof (cases "0 \<le> d")
  case True
  with assms show ?thesis by (simp add: duration_cast_nonneg le_div_iff)
next
  case False
  have "0 \<le> \<bar>d\<bar> div u" using assms by (simp add: pos_imp_zdiv_nonneg_iff)
  with False assms have "duration_cast u d \<le> 0"
    by (simp add: duration_cast_def signed_divide_int_def sgn_if)
  moreover have "0 < k * u" using assms by simp
  ultimately show ?thesis using False assms by linarith
qed

section \<open>Hash maps\<close>

text \<open>\<open>emplace\<close> inserts only under a new key.\<close>

definition emplace :: "'k \<Rightarrow> 'v \<Rightarrow> ('k \<times> 'v) list \<Rightarrow> ('k \<times> 'v) list" where
  "emplace k v m = (if map_of m k = None then m @ [(k, v)] else m)"

lemma map_of_emplace: "map_of (emplace k v m) = (if map_of m k = None then (map_of m)(k \<mapsto> v) else map_of m)"
  by (auto simp: emplace_def map_add_def fun_eq_iff split: option.split)

lemma emplace_keys: "fst ` set (emplace k v m) = insert k (fst ` set m)"
  by (auto simp: emplace_def map_of_eq_None_iff image_iff)

lemma distinct_emplace: "distinct (map fst m) \<Longrightarrow> distinct (map fst (emplace k v m))"
  by (auto simp: emplace_def map_of_eq_None_iff)

lemma in_set_update: "e \<in> set (AList.update k v m) \<Longrightarrow> e = (k, v) \<or> e \<in> set m"
  by (induction m) (auto split: if_splits)

text \<open>A pass over the values, as a range-based loop makes that assigns to them.\<close>

definition map_vals :: "('v \<Rightarrow> 'w) \<Rightarrow> ('k \<times> 'v) list \<Rightarrow> ('k \<times> 'w) list" where
  "map_vals f = map (\<lambda>(k, v). (k, f v))"

lemma map_of_map_vals [simp]: "map_of (map_vals f m) k = map_option f (map_of m k)"
  by (induction m) (auto simp: map_vals_def)

lemma keys_map_vals [simp]: "map fst (map_vals f m) = map fst m"
  by (induction m) (auto simp: map_vals_def)

lemma map_of_filter_val:
  "distinct (map fst m) \<Longrightarrow>
     map_of (filter (\<lambda>kv. P (snd kv)) m) k = (case map_of m k of Some v \<Rightarrow> if P v then Some v else None | None \<Rightarrow> None)"
  by (induction m) (auto split: option.split simp: map_of_eq_None_iff image_iff dest: map_of_SomeD)

end
