(* ===== verification/TrackStore.thy ===== *)
theory TrackStore
  imports CoreTypes
begin

text \<open>
  \<open>src/core/track_store.cpp\<close>: the latest telemetry of every robot, ordered by the robot's own
  sequence numbers. First the operations as if each ran alone, then the threads: the store has
  one lock for the map and one per robot, so an \<open>upsert\<close> of a known robot and a \<open>snapshot\<close> are
  several atomic steps, which the steps of other threads come between.
\<close>

section \<open>The operations\<close>

type_synonym track_store = "(string \<times> robot_telemetry) list"

text \<open>The part under the lock of the track: stored if strictly newer.\<close>

definition store_latest :: "robot_telemetry \<Rightarrow> robot_telemetry \<Rightarrow> robot_telemetry \<times> bool" where
  "store_latest cell t = (if rt_seq t > rt_seq cell then (t, True) else (cell, False))"

definition upsert :: "robot_telemetry \<Rightarrow> track_store \<Rightarrow> track_store \<times> bool" where
  "upsert t tracks =
     (case map_of tracks (rt_robot_id t) of
        None \<Rightarrow> (emplace (rt_robot_id t) t tracks, True)
      | Some cell \<Rightarrow>
          (let (latest', stored) = store_latest cell t
           in (AList.update (rt_robot_id t) latest' tracks, stored)))"

definition store_snapshot :: "track_store \<Rightarrow> robot_telemetry list" where
  "store_snapshot tracks = map snd tracks"

definition store_size :: "track_store \<Rightarrow> nat" where
  "store_size tracks = length tracks"

text \<open>What the store promises: of all samples of a robot, the first with the greatest sequence
  number.\<close>

fun newest :: "robot_telemetry list \<Rightarrow> robot_telemetry option" where
  "newest [] = None"
| "newest (t # ts) = (case newest ts of
     Some u \<Rightarrow> Some (if rt_seq u > rt_seq t then u else t) | None \<Rightarrow> Some t)"

definition samples_of :: "string \<Rightarrow> robot_telemetry list \<Rightarrow> robot_telemetry list" where
  "samples_of i ts = filter (\<lambda>t. rt_robot_id t = i) ts"

definition upsert_all :: "robot_telemetry list \<Rightarrow> track_store \<Rightarrow> track_store" where
  "upsert_all ts tracks = foldl (\<lambda>s t. fst (upsert t s)) tracks ts"

lemma newest_None [simp]: "newest ts = None \<longleftrightarrow> ts = []"
  by (cases ts) (auto split: option.split)

lemma newest_snoc:
  "newest (ts @ [t]) = Some (case newest ts of Some u \<Rightarrow> if rt_seq t > rt_seq u then t else u | None \<Rightarrow> t)"
  by (induction ts) (auto split: option.split)

lemma newest_max: "newest ts = Some u \<Longrightarrow> u \<in> set ts \<and> (\<forall>t \<in> set ts. rt_seq t \<le> rt_seq u)"
  by (induction ts arbitrary: u) (fastforce split: option.splits if_splits)+

lemma samples_of_simps [simp]:
  "samples_of i [] = []"
  "samples_of i (ts @ us) = samples_of i ts @ samples_of i us"
  "samples_of i (t # ts) = (if rt_robot_id t = i then t # samples_of i ts else samples_of i ts)"
  by (simp_all add: samples_of_def)

lemma map_of_upsert:
  "map_of (fst (upsert t tracks)) =
     (map_of tracks)(rt_robot_id t \<mapsto> (case map_of tracks (rt_robot_id t) of
        Some u \<Rightarrow> if rt_seq t > rt_seq u then t else u | None \<Rightarrow> t))"
  by (auto simp: upsert_def store_latest_def map_of_emplace split: option.split)

lemma upsert_accepts:
  "snd (upsert t tracks) \<longleftrightarrow> (case map_of tracks (rt_robot_id t) of Some u \<Rightarrow> rt_seq t > rt_seq u | None \<Rightarrow> True)"
  by (auto simp: upsert_def store_latest_def split: option.split)

lemma upsert_all_snoc: "upsert_all (ts @ [t]) s = fst (upsert t (upsert_all ts s))"
  by (simp add: upsert_all_def)

lemma upsert_all_newest: "map_of (upsert_all ts []) i = newest (samples_of i ts)"
proof (induction ts rule: rev_induct)
  case Nil
  then show ?case by (simp add: upsert_all_def)
next
  case (snoc t ts)
  then show ?case by (auto simp: upsert_all_snoc map_of_upsert newest_snoc split: option.split)
qed

lemma distinct_upsert: "distinct (map fst s) \<Longrightarrow> distinct (map fst (fst (upsert t s)))"
  by (auto simp: upsert_def store_latest_def distinct_emplace distinct_update split: option.split)

lemma distinct_upsert_all: "distinct (map fst s) \<Longrightarrow> distinct (map fst (upsert_all ts s))"
  by (induction ts rule: rev_induct) (simp_all add: upsert_all_snoc distinct_upsert upsert_all_def)

section \<open>The threads\<close>

text \<open>A thread that has found the cell of its robot holds a reference to it and waits for the
  track's lock (\<open>st_upserting\<close>, its sample); a snapshot in the thread \<open>n\<close> holds the cells it has yet to read
  and the samples it has read (\<open>st_snapshots\<close>). A cell is never replaced or removed, so the robot id
  stands for the reference.\<close>

record snapshot_thread =
  sn_cells :: "string list"
  sn_out :: "robot_telemetry list"

record store_threads =
  st_tracks :: track_store
  st_upserting :: "robot_telemetry list"
  st_snapshots :: "(nat \<times> snapshot_thread) list"

datatype store_event =
    UpsertBegin robot_telemetry
  | UpsertFinish nat
  | SnapBegin nat
  | SnapRead nat

datatype store_out =
    UpsertReturns robot_telemetry bool
  | SnapReturns nat "robot_telemetry list"

definition new_store_threads :: store_threads where
  "new_store_threads = \<lparr>st_tracks = [], st_upserting = [], st_snapshots = []\<rparr>"

definition remove_nth :: "nat \<Rightarrow> 'a list \<Rightarrow> 'a list" where
  "remove_nth k xs = take k xs @ drop (Suc k) xs"

fun store_step :: "store_threads \<Rightarrow> store_event \<Rightarrow> store_threads \<times> store_out list" where
  "store_step s (UpsertBegin t) =
     (case map_of (st_tracks s) (rt_robot_id t) of
        None \<Rightarrow> (s\<lparr>st_tracks := emplace (rt_robot_id t) t (st_tracks s)\<rparr>, [UpsertReturns t True])
      | Some _ \<Rightarrow> (s\<lparr>st_upserting := st_upserting s @ [t]\<rparr>, []))"
| "store_step s (UpsertFinish k) =
     (if k < length (st_upserting s) then
        (let t = st_upserting s ! k;
             (latest', stored) = store_latest (the (map_of (st_tracks s) (rt_robot_id t))) t
         in (s\<lparr>st_tracks := AList.update (rt_robot_id t) latest' (st_tracks s),
                st_upserting := remove_nth k (st_upserting s)\<rparr>, [UpsertReturns t stored]))
      else (s, []))"
| "store_step s (SnapBegin n) =
     (if map_of (st_snapshots s) n = None
      then (s\<lparr>st_snapshots := AList.update n \<lparr>sn_cells = map fst (st_tracks s), sn_out = []\<rparr> (st_snapshots s)\<rparr>, [])
      else (s, []))"
| "store_step s (SnapRead n) =
     (case map_of (st_snapshots s) n of
        None \<Rightarrow> (s, [])
      | Some sn \<Rightarrow>
          (case sn_cells sn of
             [] \<Rightarrow> (s\<lparr>st_snapshots := AList.delete n (st_snapshots s)\<rparr>, [SnapReturns n (sn_out sn)])
           | c # cs \<Rightarrow> (s\<lparr>st_snapshots := AList.update n
                 \<lparr>sn_cells = cs, sn_out = sn_out sn @ [the (map_of (st_tracks s) c)]\<rparr> (st_snapshots s)\<rparr>, [])))"

text \<open>The upserts that have returned, in the order they took effect, with what they returned.\<close>

fun upserted :: "store_out \<Rightarrow> (robot_telemetry \<times> bool) list" where
  "upserted (UpsertReturns t b) = [(t, b)]"
| "upserted (SnapReturns _ _) = []"

definition upserts :: "store_out list \<Rightarrow> (robot_telemetry \<times> bool) list" where
  "upserts os = concat (map upserted os)"

lemma upserts_simps [simp]:
  "upserts [] = []" "upserts (os @ ps) = upserts os @ upserts ps"
  "upserts [UpsertReturns t b] = [(t, b)]" "upserts [SnapReturns n ts] = []"
  by (simp_all add: upserts_def)

text \<open>What each upsert returns when they run one after the other.\<close>

fun serial :: "track_store \<Rightarrow> robot_telemetry list \<Rightarrow> (robot_telemetry \<times> bool) list" where
  "serial s [] = []"
| "serial s (t # ts) = (t, snd (upsert t s)) # serial (fst (upsert t s)) ts"

lemma serial_snoc: "serial s (ts @ [t]) = serial s ts @ [(t, snd (upsert t (upsert_all ts s)))]"
  by (induction ts arbitrary: s) (simp_all add: upsert_all_def)

lemma map_fst_serial [simp]: "map fst (serial s ts) = ts"
  by (induction ts arbitrary: s) simp_all

text \<open>The history invariant: the map is what the returned upserts make it one after the other,
  they returned what they would have, and every thread that waits for a cell waits for one
  that exists.\<close>

definition store_hist :: "store_threads \<Rightarrow> store_out list \<Rightarrow> bool" where
  "store_hist s os \<longleftrightarrow>
     st_tracks s = upsert_all (map fst (upserts os)) [] \<and>
     upserts os = serial [] (map fst (upserts os)) \<and>
     (\<forall>t \<in> set (st_upserting s). map_of (st_tracks s) (rt_robot_id t) \<noteq> None)"

lemma store_hist_extend:
  assumes "store_hist s os" "st_tracks s' = fst (upsert t (st_tracks s))"
    "set (st_upserting s') \<subseteq> set (st_upserting s)"
  shows "store_hist s' (os @ [UpsertReturns t (snd (upsert t (st_tracks s)))])"
  using assms by (auto simp: store_hist_def upsert_all_snoc serial_snoc map_of_upsert dest!: subsetD)

lemma set_remove_nth: "set (remove_nth k xs) \<subseteq> set xs"
  by (auto simp: remove_nth_def dest: in_set_takeD in_set_dropD)

lemma store_hist_step: "store_hist s os \<Longrightarrow> store_hist (fst (store_step s e)) (os @ snd (store_step s e))"
proof (cases e)
  case (UpsertBegin t)
  assume h: "store_hist s os"
  show ?thesis
  proof (cases "map_of (st_tracks s) (rt_robot_id t)")
    case None
    then show ?thesis
      using store_hist_extend[OF h, of "fst (store_step s e)" t]
      by (simp add: UpsertBegin upsert_def)
  next
    case (Some u)
    with h show ?thesis by (auto simp: UpsertBegin store_hist_def)
  qed
next
  case (UpsertFinish k)
  assume h: "store_hist s os"
  show ?thesis
  proof (cases "k < length (st_upserting s)")
    case True
    let ?t = "st_upserting s ! k"
    from True have "?t \<in> set (st_upserting s)" by simp
    with h obtain u where u: "map_of (st_tracks s) (rt_robot_id ?t) = Some u"
      unfolding store_hist_def by blast
    with True store_hist_extend[OF h, of "fst (store_step s e)" ?t] set_remove_nth[of k "st_upserting s"]
    show ?thesis by (simp add: UpsertFinish upsert_def split_beta Let_def)
  qed (use h in \<open>simp add: UpsertFinish\<close>)
next
  case (SnapBegin n)
  assume "store_hist s os"
  then show ?thesis by (auto simp: SnapBegin store_hist_def)
next
  case (SnapRead k)
  assume "store_hist s os"
  then show ?thesis by (auto simp: SnapRead store_hist_def split: list.split option.split)
qed

interpretation store_history: history_machine store_step store_hist
  by unfold_locales (rule store_hist_step)

lemma store_hist_new: "store_hist new_store_threads []"
  by (simp add: store_hist_def new_store_threads_def upsert_all_def)

section \<open>Snapshots\<close>

text \<open>A robot's sample only ever gets newer, and is under its own id.\<close>

definition grown :: "track_store \<Rightarrow> track_store \<Rightarrow> bool" where
  "grown s s' \<longleftrightarrow> (\<forall>i a. map_of s i = Some a \<longrightarrow> (\<exists>b. map_of s' i = Some b \<and> rt_seq a \<le> rt_seq b))"

definition own_ids :: "track_store \<Rightarrow> bool" where
  "own_ids s \<longleftrightarrow> (\<forall>i a. map_of s i = Some a \<longrightarrow> rt_robot_id a = i)"

lemma grown_refl [simp]: "grown s s"
  by (simp add: grown_def)

lemma grown_trans: "grown a b \<Longrightarrow> grown b c \<Longrightarrow> grown a c"
  unfolding grown_def by (meson order_trans)

lemma grown_upsert: "grown s (fst (upsert t s))"
  by (auto simp: grown_def map_of_upsert split: option.split)

lemma own_ids_upsert: "own_ids s \<Longrightarrow> own_ids (fst (upsert t s))"
  by (auto simp: own_ids_def map_of_upsert split: option.splits if_splits)

text \<open>Every step of the threads leaves the map or upserts one sample.\<close>

lemma store_step_tracks:
  assumes "\<forall>t \<in> set (st_upserting s). map_of (st_tracks s) (rt_robot_id t) \<noteq> None"
  shows "st_tracks (fst (store_step s e)) = st_tracks s \<or>
    (\<exists>t. st_tracks (fst (store_step s e)) = fst (upsert t (st_tracks s)))"
proof (cases e)
  case (UpsertBegin t)
  then show ?thesis by (auto simp: upsert_def split: option.split intro!: exI[of _ t])
next
  case (UpsertFinish k)
  show ?thesis
  proof (cases "k < length (st_upserting s)")
    case True
    then have "st_upserting s ! k \<in> set (st_upserting s)" by simp
    with assms obtain u where "map_of (st_tracks s) (rt_robot_id (st_upserting s ! k)) = Some u" by blast
    with True show ?thesis by (auto simp: UpsertFinish upsert_def split_beta Let_def intro!: exI[of _ "st_upserting s ! k"])
  qed (simp add: UpsertFinish)
qed (simp_all split: list.split option.split)

lemma store_tracks_kept:
  assumes "store_hist s os"
  shows "grown (st_tracks s) (st_tracks (fst (store_step s e)))"
    "own_ids (st_tracks s) \<Longrightarrow> own_ids (st_tracks (fst (store_step s e)))"
  using store_step_tracks[of s e] assms by (auto simp: store_hist_def grown_upsert own_ids_upsert)

text \<open>A sample that lies between two moments of the store, and a snapshot that has been running
  since the store was \<open>s0\<close>.\<close>

definition between :: "track_store \<Rightarrow> track_store \<Rightarrow> robot_telemetry \<Rightarrow> bool" where
  "between s0 s u \<longleftrightarrow> (\<exists>a b. map_of s0 (rt_robot_id u) = Some a \<and> map_of s (rt_robot_id u) = Some b \<and>
     rt_seq a \<le> rt_seq u \<and> rt_seq u \<le> rt_seq b)"

lemma between_grown: "between s0 s u \<Longrightarrow> grown s s' \<Longrightarrow> between s0 s' u"
  unfolding between_def grown_def by (meson order_trans)

lemma between_now: "own_ids s \<Longrightarrow> grown s0 s \<Longrightarrow> map_of s0 i = Some a \<Longrightarrow> between s0 s (the (map_of s i))"
  by (force simp: between_def grown_def own_ids_def)

definition snap_ok :: "nat \<Rightarrow> track_store \<Rightarrow> store_threads \<Rightarrow> store_out list \<Rightarrow> bool" where
  "snap_ok n s0 s os \<longleftrightarrow>
     grown s0 (st_tracks s) \<and> own_ids (st_tracks s) \<and>
     (\<forall>sn. map_of (st_snapshots s) n = Some sn \<longrightarrow>
        map rt_robot_id (sn_out sn) @ sn_cells sn = map fst s0 \<and> list_all (between s0 (st_tracks s)) (sn_out sn)) \<and>
     (\<forall>ts. SnapReturns n ts \<in> set os \<longrightarrow>
        map rt_robot_id ts = map fst s0 \<and> list_all (between s0 (st_tracks s)) ts)"

lemma list_all_between: "list_all (between s0 s) ts \<Longrightarrow> grown s s' \<Longrightarrow> list_all (between s0 s') ts"
  by (auto simp: list_all_iff intro: between_grown)

lemma snap_ok_same:
  assumes "snap_ok n s0 s os" "store_hist s hs" "map_of (st_snapshots (fst (store_step s e))) n = map_of (st_snapshots s) n"
    "\<And>ts. SnapReturns n ts \<notin> set (snd (store_step s e))"
  shows "snap_ok n s0 (fst (store_step s e)) (os @ snd (store_step s e))"
  using assms(1,3,4) store_tracks_kept[OF assms(2), of e] list_all_between
  unfolding snap_ok_def by (auto intro: grown_trans)

lemma snap_ok_step:
  assumes ok: "snap_ok n s0 s os" and hist: "store_hist s hs" and e: "e \<noteq> SnapBegin n"
  shows "snap_ok n s0 (fst (store_step s e)) (os @ snd (store_step s e))"
proof (cases "\<exists>sn. e = SnapRead n \<and> map_of (st_snapshots s) n = Some sn")
  case False
  with e show ?thesis
    by (intro snap_ok_same[OF ok hist]; cases e)
      (auto simp: split_beta Let_def delete_conv' split: option.splits list.splits)
next
  case True
  then obtain sn where sn: "map_of (st_snapshots s) n = Some sn" and [simp]: "e = SnapRead n" by blast
  show ?thesis
  proof (cases "sn_cells sn")
    case Nil
    with ok sn show ?thesis by (auto simp: snap_ok_def delete_conv')
  next
    case (Cons c cs)
    from ok sn Cons have "c \<in> fst ` set s0"
      by (auto simp: snap_ok_def dest!: arg_cong[where f = set])
    then obtain a where a: "map_of s0 c = Some a" by (metis map_of_eq_None_iff not_Some_eq)
    have g: "grown s0 (st_tracks s)" "own_ids (st_tracks s)" using ok by (simp_all add: snap_ok_def)
    with a have "rt_robot_id (the (map_of (st_tracks s) c)) = c" by (force simp: grown_def own_ids_def)
    moreover from between_now[OF g(2,1) a] have "between s0 (st_tracks s) (the (map_of (st_tracks s) c))" .
    ultimately show ?thesis using ok sn Cons by (auto simp: snap_ok_def)
  qed
qed

lemma snap_ok_run:
  "snap_ok n s0 s os \<Longrightarrow> store_hist s hs \<Longrightarrow> SnapBegin n \<notin> set es \<Longrightarrow>
     snap_ok n s0 (fst (run store_step s es)) (os @ snd (run store_step s es))"
proof (induction es arbitrary: s os hs)
  case (Cons e es)
  from Cons.prems have "snap_ok n s0 (fst (store_step s e)) (os @ snd (store_step s e))"
    by (intro snap_ok_step) auto
  from Cons.IH[OF this store_hist_step[OF Cons.prems(2)]] Cons.prems(3) show ?case
    by (simp add: split_beta)
qed simp

lemma own_ids_hist: "store_hist s os \<Longrightarrow> own_ids (st_tracks s)"
proof -
  have "own_ids (upsert_all ts [])" for ts
    by (induction ts rule: rev_induct) (simp_all add: upsert_all_snoc own_ids_upsert, simp add: own_ids_def upsert_all_def)
  then show "store_hist s os \<Longrightarrow> own_ids (st_tracks s)" by (simp add: store_hist_def)
qed

section \<open>Properties\<close>

text \<open>C18: The locking is linearizable: however the steps of any number of upserting and reading
  threads interleave, the upserts have returned what they would have returned one after the other
  in the order they took effect, and the store holds, of the samples they brought for a robot,
  the first with the greatest sequence number.\<close>

theorem concurrent_upserts_are_serial:
  "upserts (snd (run store_step new_store_threads es)) =
     serial [] (map fst (upserts (snd (run store_step new_store_threads es)))) \<and>
   map_of (st_tracks (fst (run store_step new_store_threads es))) i =
     newest (samples_of i (map fst (upserts (snd (run store_step new_store_threads es)))))"
  using store_history.run_hist[OF store_hist_new, of es]
  by (simp add: store_hist_def upsert_all_newest)

text \<open>C27: A snapshot that other threads interleave with misses no robot that was known when it
  began, lists none twice, and gives for each a sample at least as new as the one stored when it
  began and no newer than the one stored when all is done.\<close>

theorem snapshot_is_recent:
  assumes "run store_step new_store_threads es0 = (s0, os0)" "map_of (st_snapshots s0) n = None"
    "SnapBegin n \<notin> set es" "run store_step s0 (SnapBegin n # es) = (s, os)" "SnapReturns n ts \<in> set os"
  shows "map rt_robot_id ts = map fst (st_tracks s0) \<and> distinct (map rt_robot_id ts) \<and>
    list_all (between (st_tracks s0) (st_tracks s)) ts"
proof -
  have hist: "store_hist s0 os0"
    using store_history.run_hist[OF store_hist_new, of es0] assms(1) by simp
  let ?s1 = "fst (store_step s0 (SnapBegin n))"
  have "snap_ok n (st_tracks s0) ?s1 []"
    using assms(2) own_ids_hist[OF hist] by (simp add: snap_ok_def)
  from snap_ok_run[OF this store_hist_step[OF hist] assms(3)] assms(2,4,5)
  have "map rt_robot_id ts = map fst (st_tracks s0) \<and> list_all (between (st_tracks s0) (st_tracks s)) ts"
    by (simp add: snap_ok_def split_beta)
  moreover have "distinct (map fst (st_tracks s0))"
    using hist distinct_upsert_all[of "[]"] by (simp add: store_hist_def)
  ultimately show ?thesis by simp
qed

definition demo_sample :: "string \<Rightarrow> 64 word \<Rightarrow> robot_telemetry" where
  "demo_sample i k = \<lparr>rt_robot_id = i, rt_seq = k, rt_timestamp = 0, rt_x = Fin 0, rt_y = Fin 0,
     rt_heading = Fin 0, rt_speed = Fin 0, rt_radius = Fin 1\<rparr>"

lemma demo_sample_simps [simp]: "rt_robot_id (demo_sample i k) = i" "rt_seq (demo_sample i k) = k"
  by (simp_all add: demo_sample_def)

theorem snapshot_is_recent_witness:
  "list_all (between [(''R'', demo_sample ''R'' 5)] [(''R'', demo_sample ''R'' 7)]) [demo_sample ''R'' 7]"
proof -
  let ?before = "new_store_threads\<lparr>st_tracks := [(''R'', demo_sample ''R'' 5)]\<rparr>"
  let ?s = "new_store_threads\<lparr>st_tracks := [(''R'', demo_sample ''R'' 7)]\<rparr>"
  have begun: "run store_step new_store_threads [UpsertBegin (demo_sample ''R'' 5)] =
      (?before, [UpsertReturns (demo_sample ''R'' 5) True])"
    by (simp add: new_store_threads_def emplace_def)
  have "run store_step ?before (SnapBegin 0 # [UpsertBegin (demo_sample ''R'' 7), UpsertFinish 0, SnapRead 0, SnapRead 0]) =
      (?s, [UpsertReturns (demo_sample ''R'' 7) True, SnapReturns 0 [demo_sample ''R'' 7]])"
    by (simp add: new_store_threads_def store_latest_def remove_nth_def Let_def)
  from snapshot_is_recent[OF begun _ _ this] show ?thesis by (simp add: new_store_threads_def)
qed

end
