(* ===== verification/LinkWatchdog.thy ===== *)
theory LinkWatchdog
  imports CoreTypes
begin

text \<open>
  \<open>src/core/link_watchdog.cpp\<close>: the health of a robot's link as a function of the time since its
  telemetry was last received, on the server's monotonic clock, which is an argument. The
  thresholds are in milliseconds, the clock counts nanoseconds.
\<close>

section \<open>State and operations\<close>

datatype link_band = LIVE | STALE | LOST

record link_health =
  lh_status :: link_band
  lh_age_ms :: int

record link_watchdog =
  wd_stale_after :: int
  wd_lost_after :: int
  wd_last_rx :: "(string \<times> int) list"

definition new_watchdog :: "int \<Rightarrow> int \<Rightarrow> link_watchdog" where
  "new_watchdog stale_after lost_after =
     \<lparr>wd_stale_after = stale_after, wd_lost_after = lost_after, wd_last_rx = []\<rparr>"

definition STALE_AFTER :: int where "STALE_AFTER = 1500"
definition LOST_AFTER :: int where "LOST_AFTER = 10000"

definition wd_record :: "string \<Rightarrow> int \<Rightarrow> link_watchdog \<Rightarrow> link_watchdog" where
  "wd_record i now w = w\<lparr>wd_last_rx := AList.update i now (wd_last_rx w)\<rparr>"

definition wd_classify :: "link_watchdog \<Rightarrow> string \<Rightarrow> int \<Rightarrow> link_health" where
  "wd_classify w i now =
     (case map_of (wd_last_rx w) i of
        None \<Rightarrow> \<lparr>lh_status = LOST, lh_age_ms = -1\<rparr>
      | Some rx \<Rightarrow>
          (let age = duration_cast ns_per_ms (now - rx)
           in \<lparr>lh_status = (if age \<ge> wd_lost_after w then LOST
                           else if age \<ge> wd_stale_after w then STALE
                           else LIVE),
               lh_age_ms = age\<rparr>))"

text \<open>The bands in the order in which a silent link passes through them.\<close>

fun band_num :: "link_band \<Rightarrow> nat" where
  "band_num LIVE = 0"
| "band_num STALE = 1"
| "band_num LOST = 2"

lemma band_num_inj [simp]: "band_num a = band_num b \<longleftrightarrow> a = b"
  by (cases a; cases b) auto

instantiation link_band :: linorder
begin

definition less_eq_link_band :: "link_band \<Rightarrow> link_band \<Rightarrow> bool" where
  "less_eq_link_band a b \<longleftrightarrow> band_num a \<le> band_num b"

definition less_link_band :: "link_band \<Rightarrow> link_band \<Rightarrow> bool" where
  "less_link_band a b \<longleftrightarrow> band_num a < band_num b"

instance
  by standard (auto simp: less_eq_link_band_def less_link_band_def)

end

section \<open>Telemetry as it arrives\<close>

definition wd_records :: "(string \<times> int) list \<Rightarrow> link_watchdog \<Rightarrow> link_watchdog" where
  "wd_records rs w = foldl (\<lambda>w (i, now). wd_record i now w) w rs"

definition last_heard :: "string \<Rightarrow> (string \<times> int) list \<Rightarrow> int option" where
  "last_heard i rs = map_option snd (last_of (\<lambda>r. fst r = i) rs)"

lemma wd_record_fields [simp]:
  "wd_stale_after (wd_record i now w) = wd_stale_after w"
  "wd_lost_after (wd_record i now w) = wd_lost_after w"
  "wd_last_rx (wd_record i now w) = AList.update i now (wd_last_rx w)"
  by (simp_all add: wd_record_def)

lemma wd_records_snoc: "wd_records (rs @ [(i, now)]) w = wd_record i now (wd_records rs w)"
  by (simp add: wd_records_def)

lemma wd_records_fields [simp]:
  "wd_stale_after (wd_records rs w) = wd_stale_after w"
  "wd_lost_after (wd_records rs w) = wd_lost_after w"
  by (induction rs rule: rev_induct) (auto simp: wd_records_def)

lemma wd_records_last:
  "map_of (wd_last_rx (wd_records rs w)) i =
     (case last_heard i rs of Some rx \<Rightarrow> Some rx | None \<Rightarrow> map_of (wd_last_rx w) i)"
proof (induction rs rule: rev_induct)
  case Nil
  then show ?case by (simp add: wd_records_def last_heard_def)
next
  case (snoc r rs)
  then show ?case
    by (cases r) (auto simp: wd_records_snoc last_heard_def last_of_append split: option.split)
qed

text \<open>The thresholds in the unit of the clock: the truncation to milliseconds does not move
  them.\<close>

lemma classify_exact:
  assumes "map_of (wd_last_rx w) i = Some rx" "0 < wd_stale_after w" "0 < wd_lost_after w"
  shows "lh_status (wd_classify w i now) =
    (if wd_lost_after w * ns_per_ms \<le> now - rx then LOST
     else if wd_stale_after w * ns_per_ms \<le> now - rx then STALE else LIVE)"
  using assms by (simp add: wd_classify_def duration_cast_ge Let_def)

section \<open>Properties\<close>

text \<open>C28: The health the watchdog reports is a function of the history of arrivals alone: a robot
  that was never heard is LOST, otherwise it is LIVE, STALE or LOST as less than 1.5 s, less than
  10 s or at least 10 s have passed since its last telemetry, to the nanosecond; whatever was
  recorded for others, and however often it has been asked.\<close>

theorem health_is_silence:
  "lh_status (wd_classify (wd_records rs (new_watchdog STALE_AFTER LOST_AFTER)) i now) =
     (case last_heard i rs of
        None \<Rightarrow> LOST
      | Some rx \<Rightarrow> if now - rx < 1500000000 then LIVE else if now - rx < 10000000000 then STALE else LOST)"
proof (cases "last_heard i rs")
  case None
  then show ?thesis by (simp add: wd_classify_def wd_records_last new_watchdog_def)
next
  case (Some rx)
  let ?w = "wd_records rs (new_watchdog STALE_AFTER LOST_AFTER)"
  have "map_of (wd_last_rx ?w) i = Some rx" "wd_stale_after ?w = 1500" "wd_lost_after ?w = 10000"
    by (simp_all add: wd_records_last Some new_watchdog_def STALE_AFTER_def LOST_AFTER_def)
  from classify_exact[OF this(1)] this(2,3) show ?thesis by (simp add: Some)
qed

text \<open>A silent link only degrades; one telemetry and it is LIVE again.\<close>

lemma silence_degrades:
  assumes "0 < wd_stale_after w" "0 < wd_lost_after w" "wd_stale_after w \<le> wd_lost_after w" "now \<le> later"
  shows "lh_status (wd_classify w i now) \<le> lh_status (wd_classify w i later)"
proof (cases "map_of (wd_last_rx w) i")
  case None
  then show ?thesis by (simp add: wd_classify_def)
next
  case (Some rx)
  from assms(3) have "wd_stale_after w * ns_per_ms \<le> wd_lost_after w * ns_per_ms" by simp
  with assms show ?thesis by (simp add: classify_exact[OF Some] less_eq_link_band_def)
qed

lemma fresh_telemetry_is_live:
  assumes "0 < wd_stale_after w" "wd_stale_after w \<le> wd_lost_after w" "later - now < wd_stale_after w * ns_per_ms"
  shows "lh_status (wd_classify (wd_record i now w) i later) = LIVE"
proof -
  have "map_of (wd_last_rx (wd_record i now w)) i = Some now" by simp
  from classify_exact[OF this] assms show ?thesis by simp
qed

lemma health_of_others: "i \<noteq> j \<Longrightarrow> wd_classify (wd_record i t w) j now = wd_classify w j now"
  by (simp add: wd_classify_def Let_def split: option.split)

text \<open>The age is what the operator reads: never negative for an arrival in the past, and -1 for a
  robot never heard.\<close>

lemma age_of:
  "lh_age_ms (wd_classify w i now) =
     (case map_of (wd_last_rx w) i of None \<Rightarrow> -1 | Some rx \<Rightarrow> duration_cast ns_per_ms (now - rx))"
  by (simp add: wd_classify_def Let_def split: option.split)

end
