(* ===== verification/CommandTracker.thy ===== *)
theory CommandTracker
  imports CoreTypes
begin

text \<open>
  \<open>src/core/command_tracker.cpp\<close>: the lifecycle of every command at every target, and the fan-out of
  an operator command into one command per robot. Every operation runs under one lock, so it is
  one step; the clock is an argument.
\<close>

section \<open>State\<close>

record target_state =
  ts_state :: command_state
  ts_detail :: string

record tracked_command =
  tk_command_id :: string
  tk_expiry :: int
  tk_payload :: set_parameters
  tk_targets :: "(string \<times> target_state) list"
  tk_completed_at :: "int option"

record command_tracker =
  ct_retention :: int
  ct_commands :: "(string \<times> tracked_command) list"

definition new_tracker :: "int \<Rightarrow> command_tracker" where
  "new_tracker retention = \<lparr>ct_retention = retention, ct_commands = []\<rparr>"

definition RETENTION :: int where "RETENTION = 10000"

section \<open>Operations\<close>

fun isTerminal :: "command_state \<Rightarrow> bool" where
  "isTerminal s = (s = CMD_APPLIED \<or> s = CMD_REJECTED \<or> s = CMD_EXPIRED \<or> s = CMD_ROBOT_OFFLINE)"

definition refreshCompletion :: "int \<Rightarrow> tracked_command \<Rightarrow> tracked_command" where
  "refreshCompletion now tc =
     (if tk_completed_at tc \<noteq> None then tc
      else if \<exists>e \<in> set (tk_targets tc). \<not> isTerminal (ts_state (snd e)) then tc
      else tc\<lparr>tk_completed_at := Some now\<rparr>)"

definition robot_command_for :: "op_command \<Rightarrow> string \<Rightarrow> robot_command" where
  "robot_command_for cmd i =
     \<lparr>rc_command_id = op_command_id cmd, rc_timestamp = op_timestamp cmd, rc_expiry = op_expiry cmd,
      rc_robot_id = i, rc_payload = op_payload cmd\<rparr>"

fun fan_out ::
  "op_command \<Rightarrow> (string \<Rightarrow> bool) \<Rightarrow> string list \<Rightarrow> (string \<times> target_state) list \<times> robot_command list
     \<Rightarrow> (string \<times> target_state) list \<times> robot_command list"
where
  "fan_out cmd is_offline [] acc = acc"
| "fan_out cmd is_offline (i # is) (targets, to_dispatch) =
     (if is_offline i
      then fan_out cmd is_offline is
             (emplace i \<lparr>ts_state = CMD_ROBOT_OFFLINE, ts_detail = ''offline at dispatch''\<rparr> targets, to_dispatch)
      else fan_out cmd is_offline is
             (emplace i \<lparr>ts_state = CMD_PENDING, ts_detail = ''''\<rparr> targets,
              to_dispatch @ [robot_command_for cmd i]))"

definition onCommandSubmitted ::
  "op_command \<Rightarrow> (string \<Rightarrow> bool) \<Rightarrow> int \<Rightarrow> command_tracker \<Rightarrow> command_tracker \<times> robot_command list"
where
  "onCommandSubmitted cmd is_offline now t =
     (let (targets, to_dispatch) = fan_out cmd is_offline (op_targets cmd) ([], []);
          tracked = refreshCompletion now
            \<lparr>tk_command_id = op_command_id cmd, tk_expiry = op_expiry cmd, tk_payload = op_payload cmd,
             tk_targets = targets, tk_completed_at = None\<rparr>
      in (t\<lparr>ct_commands := emplace (op_command_id cmd) tracked (ct_commands t)\<rparr>, to_dispatch))"

definition onCommandSent :: "string \<Rightarrow> string \<Rightarrow> command_tracker \<Rightarrow> command_tracker" where
  "onCommandSent c i t =
     (case map_of (ct_commands t) c of
        None \<Rightarrow> t
      | Some tc \<Rightarrow>
          (case map_of (tk_targets tc) i of
             None \<Rightarrow> t
           | Some ts \<Rightarrow>
               if ts_state ts = CMD_PENDING
               then t\<lparr>ct_commands := AList.update c
                       (tc\<lparr>tk_targets := AList.update i (ts\<lparr>ts_state := CMD_SENT\<rparr>) (tk_targets tc)\<rparr>)
                       (ct_commands t)\<rparr>
               else t))"

definition take_result :: "command_result \<Rightarrow> target_state \<Rightarrow> target_state" where
  "take_result r ts =
     (if cr_result r = RESULT_APPLIED then ts\<lparr>ts_state := CMD_APPLIED\<rparr>
      else if cr_result r = RESULT_REJECTED then ts\<lparr>ts_state := CMD_REJECTED, ts_detail := cr_detail r\<rparr>
      else ts)"

definition onCommandResult :: "command_result \<Rightarrow> int \<Rightarrow> command_tracker \<Rightarrow> command_tracker" where
  "onCommandResult r now t =
     (case map_of (ct_commands t) (cr_command_id r) of
        None \<Rightarrow> t
      | Some tc \<Rightarrow>
          (case map_of (tk_targets tc) (cr_robot_id r) of
             None \<Rightarrow> t
           | Some ts \<Rightarrow>
               if isTerminal (ts_state ts) then t
               else t\<lparr>ct_commands := AList.update (cr_command_id r)
                       (refreshCompletion now
                         (tc\<lparr>tk_targets := AList.update (cr_robot_id r) (take_result r ts) (tk_targets tc)\<rparr>))
                       (ct_commands t)\<rparr>))"

definition expire_target :: "target_state \<Rightarrow> target_state" where
  "expire_target ts =
     (if ts_state ts = CMD_PENDING \<or> ts_state ts = CMD_SENT
      then ts\<lparr>ts_state := CMD_EXPIRED, ts_detail := ''expired''\<rparr> else ts)"

definition expire_command :: "int \<Rightarrow> tracked_command \<Rightarrow> tracked_command" where
  "expire_command now tc =
     (if now < tk_expiry tc then tc
      else refreshCompletion now (tc\<lparr>tk_targets := map_vals expire_target (tk_targets tc)\<rparr>))"

definition retained :: "int \<Rightarrow> int \<Rightarrow> tracked_command \<Rightarrow> bool" where
  "retained retention now tc =
     (case tk_completed_at tc of Some c \<Rightarrow> \<not> (now - c \<ge> retention * ns_per_ms) | None \<Rightarrow> True)"

definition sweepExpired :: "int \<Rightarrow> command_tracker \<Rightarrow> command_tracker" where
  "sweepExpired now t =
     (let aged = map_vals (expire_command now) (ct_commands t)
      in t\<lparr>ct_commands := filter (\<lambda>e. retained (ct_retention t) now (snd e)) aged\<rparr>)"

definition tracker_snapshot :: "command_tracker \<Rightarrow> tracked_command list" where
  "tracker_snapshot t = map snd (ct_commands t)"

section \<open>The tracker as a machine\<close>

datatype tracker_event =
    Submitted op_command "string \<Rightarrow> bool" int
  | Sent string string
  | Resulted command_result int
  | Swept int

fun tracker_step :: "command_tracker \<Rightarrow> tracker_event \<Rightarrow> command_tracker \<times> robot_command list" where
  "tracker_step t (Submitted cmd off now) = onCommandSubmitted cmd off now t"
| "tracker_step t (Sent c i) = (onCommandSent c i t, [])"
| "tracker_step t (Resulted r now) = (onCommandResult r now t, [])"
| "tracker_step t (Swept now) = (sweepExpired now t, [])"

definition outcome :: "command_tracker \<Rightarrow> string \<Rightarrow> string \<Rightarrow> command_state option" where
  "outcome t c i = Option.bind (map_of (ct_commands t) c) (\<lambda>tc. map_option ts_state (map_of (tk_targets tc) i))"

text \<open>The lifecycle of the specification: a target is born PENDING or ROBOT_OFFLINE and moves along
  this relation. A result can overtake the note that the command was sent.\<close>

inductive lifecycle :: "command_state \<Rightarrow> command_state \<Rightarrow> bool" where
  pending_sent: "lifecycle CMD_PENDING CMD_SENT"
| pending_applied: "lifecycle CMD_PENDING CMD_APPLIED"
| pending_rejected: "lifecycle CMD_PENDING CMD_REJECTED"
| pending_expired: "lifecycle CMD_PENDING CMD_EXPIRED"
| sent_applied: "lifecycle CMD_SENT CMD_APPLIED"
| sent_rejected: "lifecycle CMD_SENT CMD_REJECTED"
| sent_expired: "lifecycle CMD_SENT CMD_EXPIRED"

inductive_simps from_pending: "lifecycle CMD_PENDING s"
inductive_simps from_sent: "lifecycle CMD_SENT s"
inductive_cases lifecycleE: "lifecycle s s'"

lemma terminal_is_final: "isTerminal s \<Longrightarrow> \<not> lifecycle s s'"
  by (auto elim: lifecycleE)

section \<open>Fan-out\<close>

definition born :: "(string \<Rightarrow> bool) \<Rightarrow> string \<Rightarrow> target_state" where
  "born is_offline i =
     (if is_offline i then \<lparr>ts_state = CMD_ROBOT_OFFLINE, ts_detail = ''offline at dispatch''\<rparr>
      else \<lparr>ts_state = CMD_PENDING, ts_detail = ''''\<rparr>)"

lemma fan_out_eq:
  "fan_out cmd off is (ts, ds) =
     (foldl (\<lambda>m i. emplace i (born off i) m) ts is,
      ds @ map (robot_command_for cmd) (filter (\<lambda>i. \<not> off i) is))"
  by (induction "is" arbitrary: ts ds) (auto simp: born_def)

lemma map_of_births:
  "map_of (foldl (\<lambda>m i. emplace i (born off i) m) ts is) i =
     (case map_of ts i of Some s \<Rightarrow> Some s | None \<Rightarrow> if i \<in> set is then Some (born off i) else None)"
  by (induction "is" arbitrary: ts) (auto simp: map_of_emplace split: option.split)

lemma distinct_births:
  "distinct (map fst ts) \<Longrightarrow> distinct (map fst (foldl (\<lambda>m i. emplace i (born off i) m) ts is))"
  by (induction "is" arbitrary: ts) (auto simp: distinct_emplace)

lemma refresh_fields [simp]:
  "tk_command_id (refreshCompletion now tc) = tk_command_id tc"
  "tk_expiry (refreshCompletion now tc) = tk_expiry tc"
  "tk_payload (refreshCompletion now tc) = tk_payload tc"
  "tk_targets (refreshCompletion now tc) = tk_targets tc"
  by (simp_all add: refreshCompletion_def)

lemma expire_fields [simp]:
  "tk_command_id (expire_command now tc) = tk_command_id tc"
  "tk_expiry (expire_command now tc) = tk_expiry tc"
  "tk_payload (expire_command now tc) = tk_payload tc"
  "tk_targets (expire_command now tc) =
     (if now < tk_expiry tc then tk_targets tc else map_vals expire_target (tk_targets tc))"
  by (simp_all add: expire_command_def)

definition submitted_command :: "op_command \<Rightarrow> (string \<Rightarrow> bool) \<Rightarrow> int \<Rightarrow> tracked_command" where
  "submitted_command cmd off now = refreshCompletion now
     \<lparr>tk_command_id = op_command_id cmd, tk_expiry = op_expiry cmd, tk_payload = op_payload cmd,
      tk_targets = foldl (\<lambda>m i. emplace i (born off i) m) [] (op_targets cmd), tk_completed_at = None\<rparr>"

lemma submitted_eq:
  "onCommandSubmitted cmd off now t =
     (t\<lparr>ct_commands := emplace (op_command_id cmd) (submitted_command cmd off now) (ct_commands t)\<rparr>,
      map (robot_command_for cmd) (filter (\<lambda>i. \<not> off i) (op_targets cmd)))"
  by (simp add: onCommandSubmitted_def fan_out_eq submitted_command_def)

section \<open>The invariant\<close>

text \<open>A command is stored under its id, its targets are distinct, and it has a completion time
  exactly when all its targets are terminal; no target is ever in the unspecified state.\<close>

definition all_terminal :: "tracked_command \<Rightarrow> bool" where
  "all_terminal tc \<longleftrightarrow> (\<forall>e \<in> set (tk_targets tc). isTerminal (ts_state (snd e)))"

definition tracked_ok :: "tracked_command \<Rightarrow> bool" where
  "tracked_ok tc \<longleftrightarrow>
     distinct (map fst (tk_targets tc)) \<and> (tk_completed_at tc \<noteq> None \<longleftrightarrow> all_terminal tc) \<and>
     (\<forall>e \<in> set (tk_targets tc). ts_state (snd e) \<noteq> CMD_STATE_UNSPECIFIED)"

definition tracker_inv :: "command_tracker \<Rightarrow> bool" where
  "tracker_inv t \<longleftrightarrow> distinct (map fst (ct_commands t)) \<and>
     (\<forall>(c, tc) \<in> set (ct_commands t). tk_command_id tc = c \<and> tracked_ok tc)"

lemma refresh_ok:
  assumes "tk_completed_at tc = None \<or> all_terminal tc" "distinct (map fst (tk_targets tc))"
    "\<forall>e \<in> set (tk_targets tc). ts_state (snd e) \<noteq> CMD_STATE_UNSPECIFIED"
  shows "tracked_ok (refreshCompletion now tc)"
  using assms by (auto simp: tracked_ok_def refreshCompletion_def all_terminal_def)

lemma born_specified: "ts_state (born off i) \<noteq> CMD_STATE_UNSPECIFIED"
  by (simp add: born_def)

lemma expire_target_states [simp]:
  "ts_state (expire_target ts) = CMD_STATE_UNSPECIFIED \<longleftrightarrow> ts_state ts = CMD_STATE_UNSPECIFIED"
  "ts_state (expire_target ts) \<noteq> CMD_PENDING" "ts_state (expire_target ts) \<noteq> CMD_SENT"
  by (auto simp: expire_target_def)

lemma submitted_ok: "tracked_ok (submitted_command cmd off now)"
proof -
  let ?ts = "foldl (\<lambda>m i. emplace i (born off i) m) [] (op_targets cmd)"
  have "distinct (map fst ?ts)" by (rule distinct_births) simp
  moreover have "ts_state (snd e) \<noteq> CMD_STATE_UNSPECIFIED" if "e \<in> set ?ts" for e
  proof -
    from that \<open>distinct (map fst ?ts)\<close> have "map_of ?ts (fst e) = Some (snd e)" by simp
    then have "born off (fst e) = snd e" by (simp add: map_of_births split: if_splits)
    then show ?thesis using born_specified by metis
  qed
  ultimately show ?thesis unfolding submitted_command_def by (intro refresh_ok) simp_all
qed

lemma expire_ok: "tracked_ok tc \<Longrightarrow> tracked_ok (expire_command now tc)"
proof (cases "now < tk_expiry tc")
  case False
  assume ok: "tracked_ok tc"
  let ?tc = "tc\<lparr>tk_targets := map_vals expire_target (tk_targets tc)\<rparr>"
  have "tk_completed_at ?tc = None \<or> all_terminal ?tc"
    using ok by (auto simp: tracked_ok_def all_terminal_def map_vals_def expire_target_def)
  moreover have "\<forall>e \<in> set (tk_targets ?tc). ts_state (snd e) \<noteq> CMD_STATE_UNSPECIFIED"
    using ok by (auto simp: tracked_ok_def map_vals_def)
  ultimately have "tracked_ok (refreshCompletion now ?tc)"
    using ok by (intro refresh_ok) (simp_all add: tracked_ok_def)
  with False show ?thesis by (simp add: expire_command_def)
qed (simp add: expire_command_def)

lemma tracker_invI:
  assumes "tracker_inv t" "map_of (ct_commands t) c = Some tc" "tk_command_id tc' = c" "tracked_ok tc'"
  shows "tracker_inv (t\<lparr>ct_commands := AList.update c tc' (ct_commands t)\<rparr>)"
  using assms by (auto simp: tracker_inv_def distinct_update dest!: in_set_update)

lemma tracker_inv_command:
  "tracker_inv t \<Longrightarrow> map_of (ct_commands t) c = Some tc \<Longrightarrow> tk_command_id tc = c \<and> tracked_ok tc"
  by (auto simp: tracker_inv_def dest: map_of_SomeD)

lemma target_present:
  assumes "tracked_ok tc" "map_of (tk_targets tc) i = Some ts" "\<not> isTerminal (ts_state ts)"
  shows "tk_completed_at tc = None"
  using assms map_of_SomeD[OF assms(2)] unfolding tracked_ok_def all_terminal_def by fastforce

lemma sent_inv: "tracker_inv t \<Longrightarrow> tracker_inv (onCommandSent c i t)"
proof -
  assume inv: "tracker_inv t"
  have "tracker_inv (t\<lparr>ct_commands := AList.update c
      (tc\<lparr>tk_targets := AList.update i (ts\<lparr>ts_state := CMD_SENT\<rparr>) (tk_targets tc)\<rparr>) (ct_commands t)\<rparr>)"
    if tc: "map_of (ct_commands t) c = Some tc" and ts: "map_of (tk_targets tc) i = Some ts"
      and "ts_state ts = CMD_PENDING" for tc ts
  proof (rule tracker_invI[OF inv tc])
    from tracker_inv_command[OF inv tc] have ok: "tk_command_id tc = c" "tracked_ok tc" by simp_all
    let ?tc = "tc\<lparr>tk_targets := AList.update i (ts\<lparr>ts_state := CMD_SENT\<rparr>) (tk_targets tc)\<rparr>"
    show "tk_command_id ?tc = c" using ok by simp
    have "tk_completed_at tc = None" using target_present[OF ok(2) ts] that(3) by simp
    moreover have "(i, ts\<lparr>ts_state := CMD_SENT\<rparr>) \<in> set (tk_targets ?tc)"
      by (simp add: map_of_SomeD)
    then have "\<not> all_terminal ?tc" unfolding all_terminal_def by force
    ultimately show "tracked_ok ?tc"
      using ok(2) by (auto simp: tracked_ok_def distinct_update dest: in_set_update)
  qed
  with inv show ?thesis by (auto simp: onCommandSent_def split: option.split)
qed

lemma result_inv: "tracker_inv t \<Longrightarrow> tracker_inv (onCommandResult r now t)"
proof -
  assume inv: "tracker_inv t"
  have "tracker_inv (t\<lparr>ct_commands := AList.update (cr_command_id r) (refreshCompletion now
      (tc\<lparr>tk_targets := AList.update (cr_robot_id r) (take_result r ts) (tk_targets tc)\<rparr>)) (ct_commands t)\<rparr>)"
    if tc: "map_of (ct_commands t) (cr_command_id r) = Some tc"
      and ts: "map_of (tk_targets tc) (cr_robot_id r) = Some ts"
      and "\<not> isTerminal (ts_state ts)" for tc ts
  proof (rule tracker_invI[OF inv tc])
    from tracker_inv_command[OF inv tc] have ok: "tk_command_id tc = cr_command_id r" "tracked_ok tc" by simp_all
    show "tk_command_id (refreshCompletion now
        (tc\<lparr>tk_targets := AList.update (cr_robot_id r) (take_result r ts) (tk_targets tc)\<rparr>)) = cr_command_id r"
      using ok by simp
    have "ts_state ts \<noteq> CMD_STATE_UNSPECIFIED" using ok(2) map_of_SomeD[OF ts] by (force simp: tracked_ok_def)
    then have "ts_state (take_result r ts) \<noteq> CMD_STATE_UNSPECIFIED" by (simp add: take_result_def)
    with ok(2) target_present[OF ok(2) ts that(3)] show "tracked_ok (refreshCompletion now
        (tc\<lparr>tk_targets := AList.update (cr_robot_id r) (take_result r ts) (tk_targets tc)\<rparr>))"
      by (intro refresh_ok) (auto simp: tracked_ok_def distinct_update dest: in_set_update)
  qed
  with inv show ?thesis by (auto simp: onCommandResult_def split: option.split)
qed

lemma sweep_inv: "tracker_inv t \<Longrightarrow> tracker_inv (sweepExpired now t)"
proof -
  assume inv: "tracker_inv t"
  let ?aged = "map_vals (expire_command now) (ct_commands t)"
  have "distinct (map fst (filter P ?aged))" for P
    using inv by (simp add: tracker_inv_def distinct_map_filter)
  moreover have "tk_command_id tc = c \<and> tracked_ok tc" if "(c, tc) \<in> set ?aged" for c tc
    using inv that by (auto simp: tracker_inv_def map_vals_def expire_ok)
  ultimately show ?thesis by (auto simp: sweepExpired_def tracker_inv_def)
qed

lemma submitted_id: "tk_command_id (submitted_command cmd off now) = op_command_id cmd"
  by (simp add: submitted_command_def)

lemma submit_inv: "tracker_inv t \<Longrightarrow> tracker_inv (fst (onCommandSubmitted cmd off now t))"
  by (auto simp: submitted_eq tracker_inv_def emplace_def submitted_ok submitted_id map_of_eq_None_iff)

lemma tracker_inv_step: "tracker_inv t \<Longrightarrow> tracker_inv (fst (tracker_step t e))"
  by (cases e) (simp_all add: sent_inv result_inv sweep_inv submit_inv)

interpretation tracker_machine: io_machine tracker_step tracker_inv "\<lambda>_. True"
  by unfold_locales (auto simp: tracker_inv_step list_all_iff)

lemma tracker_inv_new: "tracker_inv (new_tracker retention)"
  by (simp add: tracker_inv_def new_tracker_def)

section \<open>How each operation moves a target\<close>

lemma outcome_submitted:
  "outcome (fst (onCommandSubmitted cmd off now t)) c i =
     (if c = op_command_id cmd \<and> map_of (ct_commands t) c = None
      then if i \<in> set (op_targets cmd) then Some (ts_state (born off i)) else None
      else outcome t c i)"
  by (auto simp: outcome_def submitted_eq map_of_emplace submitted_command_def map_of_births)

lemma outcome_untracked: "map_of (ct_commands t) c = None \<Longrightarrow> outcome t c i = None"
  by (simp add: outcome_def)

lemma ts_state_born: "ts_state (born off i) = (if off i then CMD_ROBOT_OFFLINE else CMD_PENDING)"
  by (simp add: born_def)

lemma outcome_sent:
  "outcome (onCommandSent c i t) c' i' =
     (if c' = c \<and> i' = i \<and> outcome t c i = Some CMD_PENDING then Some CMD_SENT else outcome t c' i')"
  by (auto simp: outcome_def onCommandSent_def split: option.split)

definition result_state :: "command_result \<Rightarrow> command_state \<Rightarrow> command_state" where
  "result_state r s = (case cr_result r of
     RESULT_APPLIED \<Rightarrow> CMD_APPLIED | RESULT_REJECTED \<Rightarrow> CMD_REJECTED | RESULT_UNSPECIFIED \<Rightarrow> s)"

lemma ts_state_take_result: "ts_state (take_result r ts) = result_state r (ts_state ts)"
  by (cases "cr_result r") (simp_all add: take_result_def result_state_def)

lemma outcome_result:
  "outcome (onCommandResult r now t) c i =
     (if c = cr_command_id r \<and> i = cr_robot_id r
      then map_option (\<lambda>s. if isTerminal s then s else result_state r s) (outcome t c i)
      else outcome t c i)"
  by (auto simp: outcome_def onCommandResult_def ts_state_take_result split: option.split)

lemma map_of_swept:
  "tracker_inv t \<Longrightarrow> map_of (ct_commands (sweepExpired now t)) c =
     (case map_of (ct_commands t) c of None \<Rightarrow> None
      | Some tc \<Rightarrow> if retained (ct_retention t) now (expire_command now tc) then Some (expire_command now tc) else None)"
  by (simp add: sweepExpired_def map_of_filter_val tracker_inv_def split: option.split)

section \<open>Time\<close>

fun event_time :: "tracker_event \<Rightarrow> int option" where
  "event_time (Submitted _ _ now) = Some now"
| "event_time (Sent _ _) = None"
| "event_time (Resulted _ now) = Some now"
| "event_time (Swept now) = Some now"

definition up_to :: "int \<Rightarrow> tracker_event \<Rightarrow> bool" where
  "up_to T e \<longleftrightarrow> pred_option (\<lambda>now. now \<le> T) (event_time e)"

text \<open>No completion lies in the future.\<close>

definition completed_by :: "int \<Rightarrow> command_tracker \<Rightarrow> bool" where
  "completed_by T t \<longleftrightarrow> (\<forall>e \<in> set (ct_commands t). pred_option (\<lambda>k. k \<le> T) (tk_completed_at (snd e)))"

lemma refresh_completed:
  "tk_completed_at (refreshCompletion now tc) \<in> {tk_completed_at tc, Some now}"
  by (simp add: refreshCompletion_def)

lemma refresh_keeps: "tk_completed_at tc = Some k \<Longrightarrow> tk_completed_at (refreshCompletion now tc) = Some k"
  by (simp add: refreshCompletion_def)

lemma completed_by_refresh:
  "pred_option (\<lambda>k. k \<le> T) (tk_completed_at tc) \<Longrightarrow> now \<le> T \<Longrightarrow>
     pred_option (\<lambda>k. k \<le> T) (tk_completed_at (refreshCompletion now tc))"
  by (simp add: refreshCompletion_def)

lemma completed_by_step: "completed_by T t \<Longrightarrow> up_to T e \<Longrightarrow> completed_by T (fst (tracker_step t e))"
proof (cases e)
  case (Submitted cmd off now)
  assume "completed_by T t" "up_to T e"
  moreover from this have "pred_option (\<lambda>k. k \<le> T) (tk_completed_at (submitted_command cmd off now))"
    unfolding submitted_command_def Submitted up_to_def by (intro completed_by_refresh) simp_all
  ultimately show ?thesis by (auto simp: Submitted submitted_eq completed_by_def emplace_def)
next
  case (Sent c i)
  assume "completed_by T t" "up_to T e"
  then show ?thesis
    by (fastforce simp: Sent onCommandSent_def completed_by_def split: option.split dest!: in_set_update map_of_SomeD)
next
  case (Resulted r now)
  assume "completed_by T t" "up_to T e"
  then show ?thesis
    by (fastforce simp: Resulted up_to_def onCommandResult_def completed_by_def split: option.split
        dest!: in_set_update map_of_SomeD intro!: completed_by_refresh)
next
  case (Swept now)
  assume "completed_by T t" "up_to T e"
  then show ?thesis
    by (fastforce simp: Swept up_to_def sweepExpired_def completed_by_def map_vals_def expire_command_def
        intro!: completed_by_refresh)
qed

interpretation completion_times: guarded_machine tracker_step "completed_by T" "up_to T" "\<lambda>_. True" for T
  by unfold_locales (auto simp: completed_by_step list_all_iff)

text \<open>A completed command is never touched again until it is dropped.\<close>

definition done_or_gone :: "string \<Rightarrow> int \<Rightarrow> command_tracker \<Rightarrow> bool" where
  "done_or_gone c T t \<longleftrightarrow>
     (case map_of (ct_commands t) c of None \<Rightarrow> True
      | Some tc \<Rightarrow> (\<exists>k. tk_completed_at tc = Some k \<and> k \<le> T))"

fun not_resubmitted :: "string \<Rightarrow> tracker_event \<Rightarrow> bool" where
  "not_resubmitted c (Submitted cmd _ _) = (op_command_id cmd \<noteq> c)"
| "not_resubmitted c _ = True"

lemma done_or_gone_step:
  assumes "tracker_inv t \<and> done_or_gone c T t" "not_resubmitted c e"
  shows "tracker_inv (fst (tracker_step t e)) \<and> done_or_gone c T (fst (tracker_step t e))"
proof -
  have "done_or_gone c T (fst (tracker_step t e))"
  proof (cases e)
    case (Submitted cmd off now)
    with assms show ?thesis by (auto simp: submitted_eq done_or_gone_def map_of_emplace)
  next
    case (Sent d i)
    with assms show ?thesis
      by (auto simp: onCommandSent_def done_or_gone_def split: option.split)
  next
    case (Resulted r now)
    with assms show ?thesis
      by (auto simp: onCommandResult_def done_or_gone_def refresh_keeps split: option.splits)
  next
    case (Swept now)
    with assms show ?thesis
      by (auto simp: done_or_gone_def map_of_swept expire_command_def refresh_keeps split: option.splits)
  qed
  then show ?thesis using assms tracker_inv_step by blast
qed

interpretation done_machine:
  guarded_machine tracker_step "\<lambda>t. tracker_inv t \<and> done_or_gone c T t" "not_resubmitted c" "\<lambda>_. True" for c T
  by unfold_locales (auto simp: done_or_gone_step list_all_iff)

lemma retention_step: "ct_retention (fst (tracker_step t e)) = ct_retention t"
  by (cases e) (auto simp: submitted_eq onCommandSent_def onCommandResult_def sweepExpired_def split: option.split)

lemma retention_run [simp]: "ct_retention (fst (run tracker_step t es)) = ct_retention t"
  by (induction es arbitrary: t) (simp_all add: split_beta retention_step)

lemma expire_target_terminal: "ts_state ts \<noteq> CMD_STATE_UNSPECIFIED \<Longrightarrow> isTerminal (ts_state (expire_target ts))"
  by (cases "ts_state ts") (simp_all add: expire_target_def)

lemma expired_terminal: "tk_expiry tc \<le> now \<Longrightarrow> tracked_ok tc \<Longrightarrow> all_terminal (expire_command now tc)"
  unfolding all_terminal_def
proof
  fix e
  assume ok: "tk_expiry tc \<le> now" "tracked_ok tc" and e: "e \<in> set (tk_targets (expire_command now tc))"
  then obtain d where "d \<in> set (tk_targets tc)" "snd e = expire_target (snd d)"
    by (force simp: map_vals_def)
  with ok(2) show "isTerminal (ts_state (snd e))"
    by (metis tracked_ok_def expire_target_terminal)
qed

lemma outcome_specified: "tracker_inv t \<Longrightarrow> outcome t c i = Some s \<Longrightarrow> s \<noteq> CMD_STATE_UNSPECIFIED"
proof -
  assume inv: "tracker_inv t" and "outcome t c i = Some s"
  then obtain tc ts where tc: "map_of (ct_commands t) c = Some tc" and ts: "map_of (tk_targets tc) i = Some ts"
    and s: "s = ts_state ts" by (auto simp: outcome_def bind_eq_Some_conv)
  from tracker_inv_command[OF inv tc] map_of_SomeD[OF ts] show ?thesis
    by (auto simp: tracked_ok_def s)
qed

text \<open>One step of one target, from any well-formed tracker.\<close>

lemma target_step:
  assumes inv: "tracker_inv t" and after: "outcome (fst (tracker_step t e)) c i = Some s'"
  shows "(\<exists>cmd off now. e = Submitted cmd off now \<and> op_command_id cmd = c \<and> map_of (ct_commands t) c = None \<and>
      i \<in> set (op_targets cmd) \<and> s' = ts_state (born off i)) \<or>
    (\<exists>s. outcome t c i = Some s \<and> (s' = s \<or> lifecycle s s'))"
proof (cases e)
  case (Submitted cmd off now)
  with after show ?thesis by (simp add: outcome_submitted split: if_split_asm)
next
  case (Sent d j)
  with after show ?thesis by (auto simp: outcome_sent lifecycle.simps split: if_split_asm)
next
  case (Resulted r now)
  with after obtain s where s: "outcome t c i = Some s"
    "s' = s \<or> (\<not> isTerminal s \<and> s' = result_state r s)"
    by (auto simp: outcome_result split: if_split_asm)
  from outcome_specified[OF inv s(1)] s show ?thesis
    by (cases s; cases "cr_result r") (auto simp: result_state_def lifecycle.simps)
next
  case (Swept now)
  with after inv obtain tc ts where "map_of (ct_commands t) c = Some tc" "map_of (tk_targets tc) i = Some ts"
    "s' = ts_state ts \<or> s' = ts_state (expire_target ts)"
    by (auto simp: outcome_def map_of_swept bind_eq_Some_conv split: option.splits if_split_asm)
  then show ?thesis by (auto simp: outcome_def expire_target_def lifecycle.simps split: if_split_asm)
qed

definition tracker_after :: "tracker_event list \<Rightarrow> command_tracker" where
  "tracker_after es = fst (run tracker_step (new_tracker RETENTION) es)"

lemma tracker_after_inv: "tracker_inv (tracker_after es)"
  by (simp add: tracker_after_def tracker_machine.run_inv tracker_inv_new)

lemma tracker_after_snoc: "tracker_after (es @ [e]) = fst (tracker_step (tracker_after es) e)"
  by (simp add: tracker_after_def run_append split_beta)

lemma tracker_after_retention [simp]: "ct_retention (tracker_after es) = RETENTION"
  by (simp add: tracker_after_def new_tracker_def)

lemma target_dropped:
  assumes inv: "tracker_inv t" and s: "outcome t c i = Some s" and gone: "outcome (fst (tracker_step t e)) c i = None"
    and "0 < ct_retention t"
  shows "isTerminal s \<and> (\<exists>now k. e = Swept now \<and> map_option tk_completed_at (map_of (ct_commands t) c) = Some (Some k) \<and>
    ct_retention t * ns_per_ms \<le> now - k)"
proof (cases e)
  case (Submitted cmd off now)
  with s gone show ?thesis by (auto simp: outcome_submitted outcome_untracked split: if_split_asm)
next
  case (Swept now)
  from s obtain tc ts where tc: "map_of (ct_commands t) c = Some tc" and ts: "map_of (tk_targets tc) i = Some ts"
    and "s = ts_state ts" by (auto simp: outcome_def bind_eq_Some_conv)
  have "\<not> retained (ct_retention t) now (expire_command now tc)"
    using gone ts by (auto simp: Swept outcome_def map_of_swept[OF inv] tc split: if_split_asm)
  with assms(4) obtain k where k: "tk_completed_at tc = Some k" "ct_retention t * ns_per_ms \<le> now - k"
    by (auto simp: retained_def expire_command_def refreshCompletion_def split: option.splits if_split_asm)
  with tracker_inv_command[OF inv tc] have "all_terminal tc" by (simp add: tracked_ok_def)
  with map_of_SomeD[OF ts] have "isTerminal (ts_state ts)" by (force simp: all_terminal_def)
  with k tc \<open>s = ts_state ts\<close> show ?thesis by (auto simp: Swept)
qed (use s gone in \<open>auto simp: outcome_sent outcome_result split: if_split_asm\<close>)

section \<open>Properties\<close>

text \<open>C10: Every step of every run moves every target along the lifecycle of the specification or
  leaves it: a target appears only by the submission of its command, ROBOT_OFFLINE if its robot was
  offline and PENDING otherwise; a terminal state is never left, so a late result changes nothing;
  and a target disappears only in a terminal state, when the sweep drops a command that has been
  complete for the retention time.\<close>

theorem targets_follow_lifecycle:
  "case (outcome (tracker_after es) c i, outcome (tracker_after (es @ [e])) c i) of
     (None, None) \<Rightarrow> True
   | (None, Some s) \<Rightarrow> (\<exists>cmd off now. e = Submitted cmd off now \<and> op_command_id cmd = c \<and> i \<in> set (op_targets cmd) \<and>
        s = (if off i then CMD_ROBOT_OFFLINE else CMD_PENDING))
   | (Some s, Some s') \<Rightarrow> s' = s \<or> lifecycle s s'
   | (Some s, None) \<Rightarrow> isTerminal s \<and> (\<exists>now k. e = Swept now \<and>
        map_option tk_completed_at (map_of (ct_commands (tracker_after es)) c) = Some (Some k) \<and>
        10000000000 \<le> now - k)"
  using target_step[OF tracker_after_inv, of es e c i] target_dropped[OF tracker_after_inv, of es c i _ e]
  by (auto simp: tracker_after_snoc ts_state_born[symmetric] outcome_untracked RETENTION_def split: option.split
      split del: if_split)

text \<open>The fan-out: a new command is tracked at exactly its targets, and exactly the targets whose
  robots are not offline are to be sent it, each a command of its own with the id, times and
  parameters of the operator's. A command all of whose robots are offline is complete at once.\<close>

theorem submission_fans_out:
  assumes "map_of (ct_commands t) (op_command_id cmd) = None"
  shows "map rc_robot_id (snd (onCommandSubmitted cmd off now t)) = filter (\<lambda>i. \<not> off i) (op_targets cmd) \<and>
    list_all (\<lambda>rc. rc_command_id rc = op_command_id cmd \<and> rc_timestamp rc = op_timestamp cmd \<and>
        rc_expiry rc = op_expiry cmd \<and> rc_payload rc = op_payload cmd) (snd (onCommandSubmitted cmd off now t)) \<and>
    outcome (fst (onCommandSubmitted cmd off now t)) (op_command_id cmd) i =
      (if i \<in> set (op_targets cmd) then Some (if off i then CMD_ROBOT_OFFLINE else CMD_PENDING) else None) \<and>
    map_option tk_completed_at (map_of (ct_commands (fst (onCommandSubmitted cmd off now t))) (op_command_id cmd)) =
      Some (if list_all off (op_targets cmd) then Some now else None)"
proof -
  have "all_terminal (submitted_command cmd off now) \<longleftrightarrow> list_all off (op_targets cmd)"
  proof -
    let ?ts = "foldl (\<lambda>m i. emplace i (born off i) m) [] (op_targets cmd)"
    have "set ?ts = {(i, born off i) | i. i \<in> set (op_targets cmd)}"
      using distinct_births[of "[]" off "op_targets cmd"]
      by (auto simp: map_of_eq_Some_iff[symmetric] map_of_births split: if_splits)
    then show ?thesis
      by (auto simp: all_terminal_def submitted_command_def ts_state_born list_all_iff)
  qed
  then have "tk_completed_at (submitted_command cmd off now) = (if list_all off (op_targets cmd) then Some now else None)"
    using submitted_ok[of cmd off now] refresh_completed[of now]
    by (force simp: submitted_command_def tracked_ok_def)
  with assms show ?thesis
    by (simp add: outcome_submitted ts_state_born)
      (simp add: submitted_eq map_of_emplace robot_command_for_def list_all_iff comp_def)
qed

text \<open>C24: Stale commands die: after a sweep no tracked command whose validity window has passed has a
  target that is still pending or sent, and what the tracker still holds is either within its
  window or was completed within the retention time, so it does not grow without bound.\<close>

theorem sweep_leaves_nothing_stale:
  assumes "map_of (ct_commands (tracker_after (es @ [Swept now]))) c = Some tc"
  shows "(tk_expiry tc \<le> now \<longrightarrow> all_terminal tc) \<and>
    (now < tk_expiry tc \<or> (\<exists>k. tk_completed_at tc = Some k \<and> now - k < 10000000000))"
proof -
  from assms obtain tc' where tc': "map_of (ct_commands (tracker_after es)) c = Some tc'"
    "retained RETENTION now tc" "tc = expire_command now tc'"
    by (auto simp: tracker_after_snoc map_of_swept tracker_after_inv split: option.splits if_splits)
  from tracker_inv_command[OF tracker_after_inv tc'(1)] have "tracked_ok tc'" by simp
  then have "tracked_ok tc" "tk_expiry tc \<le> now \<longrightarrow> all_terminal tc"
    by (simp_all add: tc'(3) expire_ok expired_terminal)
  with tc'(2) show ?thesis
    by (auto simp: tracked_ok_def retained_def RETENTION_def not_le split: option.splits)
qed

text \<open>C26: Every command is forgotten, provided the clock has not gone back: once a sweep has run at or
  after the command's expiry, and no earlier step (submission, result or sweep) had read a clock later
  than that sweep's, any sweep ten seconds later drops the command, whatever was reported in between
  and whatever clocks those steps read, unless its id is submitted again. (The completion time of a
  command, from which its retention counts, is the clock of the step that completed it.)\<close>

theorem every_command_forgotten:
  assumes "list_all (up_to t1) es1" "list_all (not_resubmitted c) es2" "t1 + 10000000000 \<le> t2"
    "\<And>tc. map_of (ct_commands (tracker_after es1)) c = Some tc \<Longrightarrow> tk_expiry tc \<le> t1"
  shows "map_of (ct_commands (tracker_after (es1 @ [Swept t1] @ es2 @ [Swept t2]))) c = None"
proof -
  let ?t1 = "tracker_after (es1 @ [Swept t1])"
  have "completed_by t1 (tracker_after (es1 @ [Swept t1]))"
    using completion_times.run_keeps[of t1 "new_tracker RETENTION" "es1 @ [Swept t1]"] assms(1)
    by (simp add: tracker_after_def completed_by_def new_tracker_def up_to_def)
  moreover have "all_terminal tc" if "map_of (ct_commands ?t1) c = Some tc" for tc
  proof -
    from that obtain tc' where "map_of (ct_commands (tracker_after es1)) c = Some tc'" "tc = expire_command t1 tc'"
      by (auto simp: tracker_after_snoc map_of_swept tracker_after_inv split: option.splits if_splits)
    with assms(4) expired_terminal tracker_inv_command[OF tracker_after_inv] show ?thesis by blast
  qed
  ultimately have "done_or_gone c t1 ?t1"
    using tracker_inv_command[OF tracker_after_inv[of "es1 @ [Swept t1]"], of c] map_of_SomeD[of "ct_commands ?t1" c]
    by (fastforce simp: done_or_gone_def completed_by_def tracked_ok_def split: option.split)
  then have "done_or_gone c t1 (fst (run tracker_step ?t1 es2))"
    using done_machine.run_keeps[of ?t1 c t1 es2] assms(2) tracker_after_inv by blast
  moreover have "fst (run tracker_step ?t1 es2) = tracker_after (es1 @ [Swept t1] @ es2)"
    by (simp add: tracker_after_def run_append split_beta)
  ultimately have finished: "done_or_gone c t1 (tracker_after (es1 @ [Swept t1] @ es2))" by simp
  have "tracker_after (es1 @ [Swept t1] @ es2 @ [Swept t2]) =
      sweepExpired t2 (tracker_after (es1 @ [Swept t1] @ es2))"
    using tracker_after_snoc[of "es1 @ [Swept t1] @ es2" "Swept t2"] by simp
  with finished assms(3) show ?thesis
    by (auto simp: map_of_swept tracker_after_inv done_or_gone_def retained_def RETENTION_def expire_command_def
        refresh_keeps split: option.splits)
qed

text \<open>The ids are taken on trust: when an id is submitted that is still tracked, the tracker is
  left as it is but the command is handed out for dispatch all the same, so the robots execute
  what nothing tracks, and what is shown for the id are the targets and results of the first.\<close>

theorem reused_id_runs_untracked:
  assumes "map_of (ct_commands t) (op_command_id cmd) \<noteq> None"
  shows "onCommandSubmitted cmd off now t =
    (t, map (robot_command_for cmd) (filter (\<lambda>i. \<not> off i) (op_targets cmd)))"
  using assms by (auto simp: submitted_eq emplace_def)

section \<open>Instances\<close>

definition demo_command :: op_command where
  "demo_command = \<lparr>op_command_id = ''C1'', op_timestamp = 0, op_expiry = 5000000000,
     op_targets = [''R-01'', ''R-05''],
     op_payload = \<lparr>sp_speed = Some (Fin 15), sp_radius = None, sp_center_x = None, sp_center_y = None, sp_theta = None\<rparr>\<rparr>"

definition demo_offline :: "string \<Rightarrow> bool" where
  "demo_offline i \<longleftrightarrow> i = ''R-05''"

lemma demo_command_simps [simp]:
  "op_command_id demo_command = ''C1''" "op_targets demo_command = [''R-01'', ''R-05'']"
  "op_expiry demo_command = 5000000000"
  by (simp_all add: demo_command_def)

theorem submission_fans_out_witness:
  "map rc_robot_id (snd (onCommandSubmitted demo_command demo_offline 0 (new_tracker RETENTION))) = [''R-01''] \<and>
   outcome (fst (onCommandSubmitted demo_command demo_offline 0 (new_tracker RETENTION))) ''C1'' ''R-05'' =
     Some CMD_ROBOT_OFFLINE"
proof -
  have "map_of (ct_commands (new_tracker RETENTION)) (op_command_id demo_command) = None"
    by (simp add: new_tracker_def)
  from submission_fans_out[OF this, of demo_offline 0 "''R-05''"] show ?thesis by (simp add: demo_offline_def)
qed

lemma demo_tracker:
  "tracker_after [Submitted demo_command demo_offline 0] =
     (new_tracker RETENTION)\<lparr>ct_commands := [(''C1'', submitted_command demo_command demo_offline 0)]\<rparr>"
  by (simp add: tracker_after_def submitted_eq new_tracker_def emplace_def)

lemma demo_swept:
  "map_of (ct_commands (tracker_after ([Submitted demo_command demo_offline 0] @ [Swept 5000000000]))) ''C1'' =
     Some (expire_command 5000000000 (submitted_command demo_command demo_offline 0))"
  using map_of_swept[OF tracker_after_inv[of "[Submitted demo_command demo_offline 0]"], of 5000000000 "''C1''"]
  unfolding tracker_after_snoc
  by (simp add: demo_tracker new_tracker_def RETENTION_def)
    (simp add: retained_def expire_command_def submitted_command_def refreshCompletion_def emplace_def born_def
      demo_offline_def map_vals_def expire_target_def)

theorem sweep_leaves_nothing_stale_witness:
  "all_terminal (expire_command 5000000000 (submitted_command demo_command demo_offline 0))"
  using sweep_leaves_nothing_stale[OF demo_swept] by (simp add: submitted_command_def)

theorem every_command_forgotten_witness:
  "map_of (ct_commands (tracker_after ([Submitted demo_command demo_offline 0] @ [Swept 6000000000] @
     [Resulted \<lparr>cr_command_id = ''C1'', cr_robot_id = ''R-01'', cr_result = RESULT_APPLIED, cr_detail = ''''\<rparr> 7000000000] @
     [Swept 16000000000]))) ''C1'' = None"
  by (rule every_command_forgotten)
    (simp_all add: up_to_def demo_tracker submitted_command_def)

theorem reused_id_runs_untracked_witness:
  "snd (onCommandSubmitted demo_command (\<lambda>_. False) 1 (tracker_after [Submitted demo_command demo_offline 0])) =
     [robot_command_for demo_command ''R-01'', robot_command_for demo_command ''R-05'']"
proof -
  have "map_of (ct_commands (tracker_after [Submitted demo_command demo_offline 0])) (op_command_id demo_command) \<noteq> None"
    by (simp add: demo_tracker)
  from reused_id_runs_untracked[OF this, of "\<lambda>_. False" 1] show ?thesis by simp
qed

end
