(* ===== verification/RobotGateway.thy ===== *)
theory RobotGateway
  imports CoreTypes
begin

text \<open>
  The robot side of the C2 server: \<open>src/core/grpc_robot_callback_gateway.cpp\<close>, which keeps the
  registry of linked robots and translates between the messages of \<open>proto/robot.proto\<close> and the domain
  types, and \<open>src/core/grpc_robot_reactor.cpp\<close>, one object per link, driven by gRPC's callbacks.
  gRPC is outside the source: what the code asks of it is an output (\<open>StartRead\<close>, \<open>StartWrite\<close>,
  \<open>Finish\<close>), its callbacks are events, and its documented contract is \<open>grpc_ok\<close>.
\<close>

section \<open>The messages of the robot link\<close>

text \<open>A field of message type that is absent reads as its default; an enum is open, so it is an
  integer; \<open>optional\<close> is \<open>option\<close> and a \<open>oneof\<close> a datatype. The parameters of a command have the shape
  of the intent's.\<close>

record proto_telemetry =
  pt_robot_id :: string
  pt_seq :: "64 word"
  pt_timestamp :: timestamp
  pt_x :: jsnum
  pt_y :: jsnum
  pt_heading :: jsnum
  pt_speed :: jsnum
  pt_radius :: jsnum

record proto_result =
  pres_command_id :: string
  pres_robot_id :: string
  pres_result :: int
  pres_detail :: string

datatype uplink = UpTelemetry proto_telemetry | UpResult proto_result | UpNothing

record proto_robot_command =
  prc_command_id :: string
  prc_timestamp :: timestamp
  prc_expiry :: timestamp
  prc_robot_id :: string
  prc_set_parameters :: "params option"

section \<open>Translation\<close>

definition toDomainTimestamp :: "timestamp \<Rightarrow> int" where
  "toDomainTimestamp ts = seconds ts * ns_per_s + nanos ts"

definition toProtobufTimestamp :: "int \<Rightarrow> timestamp" where
  "toProtobufTimestamp tp =
     (let secs = duration_cast ns_per_s tp in \<lparr>seconds = secs, nanos = tp - secs * ns_per_s\<rparr>)"

definition to_domain_telemetry :: "proto_telemetry \<Rightarrow> robot_telemetry" where
  "to_domain_telemetry t =
     \<lparr>rt_robot_id = pt_robot_id t, rt_seq = pt_seq t, rt_timestamp = toDomainTimestamp (pt_timestamp t),
      rt_x = pt_x t, rt_y = pt_y t, rt_heading = pt_heading t, rt_speed = pt_speed t, rt_radius = pt_radius t\<rparr>"

definition to_domain_result :: "proto_result \<Rightarrow> command_result" where
  "to_domain_result r =
     \<lparr>cr_command_id = pres_command_id r, cr_robot_id = pres_robot_id r,
      cr_result = (if pres_result r = 0 then RESULT_UNSPECIFIED
                   else if pres_result r = 1 then RESULT_APPLIED
                   else if pres_result r = 2 then RESULT_REJECTED
                   else RESULT_UNSPECIFIED),
      cr_detail = pres_detail r\<rparr>"

definition to_proto :: "robot_command \<Rightarrow> proto_robot_command" where
  "to_proto cmd =
     \<lparr>prc_command_id = rc_command_id cmd,
      prc_timestamp = toProtobufTimestamp (rc_timestamp cmd),
      prc_expiry = toProtobufTimestamp (rc_expiry cmd),
      prc_robot_id = rc_robot_id cmd,
      prc_set_parameters = Some
        \<lparr>pr_speed = sp_speed (rc_payload cmd), pr_radius = sp_radius (rc_payload cmd),
         pr_center_x = sp_center_x (rc_payload cmd), pr_center_y = sp_center_y (rc_payload cmd),
         pr_theta = sp_theta (rc_payload cmd)\<rparr>\<rparr>"

lemma timestamp_to_domain [simp]: "toDomainTimestamp (toProtobufTimestamp tp) = tp"
  by (simp add: toDomainTimestamp_def toProtobufTimestamp_def Let_def)

lemma timestamp_to_proto:
  assumes "0 \<le> seconds ts" "0 \<le> nanos ts" "nanos ts < ns_per_s"
  shows "toProtobufTimestamp (toDomainTimestamp ts) = ts"
proof -
  have "duration_cast ns_per_s (seconds ts * ns_per_s + nanos ts) = seconds ts"
    using assms by (simp add: duration_cast_nonneg)
  then show ?thesis by (simp add: toProtobufTimestamp_def toDomainTimestamp_def)
qed

section \<open>Reactors and the registry\<close>

text \<open>A reactor's own fields, and what gRPC has outstanding for it: a read, and the calls of \<open>Finish\<close>
  so far (a write is outstanding exactly while \<open>re_writing\<close>). Reactors are heap objects; their number
  is the address, the registry holds bare pointers, and a deleted reactor is no longer in
  \<open>gw_reactors\<close>.\<close>

record reactor =
  re_robot_id :: string
  re_outgoing_queue :: "proto_robot_command list"
  re_writing :: bool
  re_registered :: bool
  re_reading :: bool
  re_finishes :: nat

record robot_gateway =
  gw_registry :: "(string \<times> nat) list"
  gw_reactors :: "(nat \<times> reactor) list"
  gw_next :: nat

datatype gateway_out =
    StartRead nat
  | StartWrite nat proto_robot_command
  | Finish nat bool
  | DeliverTelemetry robot_telemetry
  | DeliverCommandResult command_result
  | DeleteReactor nat
  | SendReturns bool
  | UseAfterFree nat

definition new_gateway :: robot_gateway where
  "new_gateway = \<lparr>gw_registry = [], gw_reactors = [], gw_next = 0\<rparr>"

definition pumpLocked :: "nat \<Rightarrow> reactor \<Rightarrow> reactor \<times> gateway_out list" where
  "pumpLocked n r =
     (if re_writing r \<or> re_outgoing_queue r = [] then (r, [])
      else (r\<lparr>re_writing := True\<rparr>, [StartWrite n (hd (re_outgoing_queue r))]))"

definition enqueue :: "nat \<Rightarrow> proto_robot_command \<Rightarrow> reactor \<Rightarrow> reactor \<times> gateway_out list" where
  "enqueue n cmd r = pumpLocked n (r\<lparr>re_outgoing_queue := re_outgoing_queue r @ [cmd]\<rparr>)"

definition OnWriteDone :: "nat \<Rightarrow> bool \<Rightarrow> reactor \<Rightarrow> reactor \<times> gateway_out list" where
  "OnWriteDone n ok r =
     (let r1 = r\<lparr>re_writing := False\<rparr> in
      if \<not> ok then (r1\<lparr>re_finishes := Suc (re_finishes r1)\<rparr>, [Finish n False])
      else pumpLocked n (r1\<lparr>re_outgoing_queue := tl (re_outgoing_queue r1)\<rparr>))"

definition RegisterReactor :: "string \<Rightarrow> nat \<Rightarrow> robot_gateway \<Rightarrow> robot_gateway" where
  "RegisterReactor i n g = g\<lparr>gw_registry := emplace i n (gw_registry g)\<rparr>"

definition UnregisterReactor :: "string \<Rightarrow> robot_gateway \<Rightarrow> robot_gateway" where
  "UnregisterReactor i g = g\<lparr>gw_registry := AList.delete i (gw_registry g)\<rparr>"

definition put_reactor :: "nat \<Rightarrow> reactor \<Rightarrow> robot_gateway \<Rightarrow> robot_gateway" where
  "put_reactor n r g = g\<lparr>gw_reactors := AList.update n r (gw_reactors g)\<rparr>"

definition Link :: "robot_gateway \<Rightarrow> robot_gateway \<times> gateway_out list" where
  "Link g =
     (let n = gw_next g in
      (put_reactor n \<lparr>re_robot_id = '''', re_outgoing_queue = [], re_writing = False, re_registered = False,
                     re_reading = True, re_finishes = 0\<rparr> (g\<lparr>gw_next := Suc n\<rparr>),
       [StartRead n]))"

text \<open>\<open>incoming.telemetry()\<close> of a message of the other kind is the default telemetry.\<close>

fun telemetry_id :: "uplink \<Rightarrow> string" where
  "telemetry_id (UpTelemetry t) = pt_robot_id t"
| "telemetry_id _ = ''''"

fun deliver :: "uplink \<Rightarrow> gateway_out list" where
  "deliver (UpTelemetry t) = [DeliverTelemetry (to_domain_telemetry t)]"
| "deliver (UpResult r) = [DeliverCommandResult (to_domain_result r)]"
| "deliver UpNothing = []"

definition OnReadDone :: "nat \<Rightarrow> uplink option \<Rightarrow> reactor \<Rightarrow> robot_gateway \<Rightarrow> robot_gateway \<times> gateway_out list" where
  "OnReadDone n incoming r g =
     (let r0 = r\<lparr>re_reading := False\<rparr> in
      case incoming of
        None \<Rightarrow> (put_reactor n (r0\<lparr>re_finishes := Suc (re_finishes r0)\<rparr>) g, [Finish n True])
      | Some up \<Rightarrow>
          (let (r1, g1) =
             (if \<not> re_registered r0
              then (r0\<lparr>re_robot_id := telemetry_id up, re_registered := True\<rparr>,
                    RegisterReactor (telemetry_id up) n g)
              else (r0, g))
           in (put_reactor n (r1\<lparr>re_reading := True\<rparr>) g1, deliver up @ [StartRead n])))"

definition OnDone :: "nat \<Rightarrow> reactor \<Rightarrow> robot_gateway \<Rightarrow> robot_gateway \<times> gateway_out list" where
  "OnDone n r g =
     ((UnregisterReactor (re_robot_id r) g)\<lparr>gw_reactors := AList.delete n (gw_reactors g)\<rparr>, [DeleteReactor n])"

definition gateway_SendCommand :: "robot_command \<Rightarrow> robot_gateway \<Rightarrow> robot_gateway \<times> gateway_out list" where
  "gateway_SendCommand cmd g =
     (case map_of (gw_registry g) (rc_robot_id cmd) of
        None \<Rightarrow> (g, [SendReturns False])
      | Some n \<Rightarrow>
          (case map_of (gw_reactors g) n of
             None \<Rightarrow> (g, [UseAfterFree n])
           | Some r \<Rightarrow>
               (let (r', os) = enqueue n (to_proto cmd) r
                in (put_reactor n r' g, os @ [SendReturns True]))))"

section \<open>Events\<close>

datatype gateway_event =
    LinkOpened
  | ReadDone nat "uplink option"
  | WriteDone nat bool
  | Done nat
  | Send robot_command

definition on_reactor ::
  "nat \<Rightarrow> (reactor \<Rightarrow> robot_gateway \<times> gateway_out list) \<Rightarrow> robot_gateway \<Rightarrow> robot_gateway \<times> gateway_out list"
where
  "on_reactor n f g = (case map_of (gw_reactors g) n of Some r \<Rightarrow> f r | None \<Rightarrow> (g, []))"

fun gateway_step :: "robot_gateway \<Rightarrow> gateway_event \<Rightarrow> robot_gateway \<times> gateway_out list" where
  "gateway_step g LinkOpened = Link g"
| "gateway_step g (ReadDone n up) = on_reactor n (\<lambda>r. OnReadDone n up r g) g"
| "gateway_step g (WriteDone n ok) =
     on_reactor n (\<lambda>r. let (r', os) = OnWriteDone n ok r in (put_reactor n r' g, os)) g"
| "gateway_step g (Done n) = on_reactor n (\<lambda>r. OnDone n r g) g"
| "gateway_step g (Send cmd) = gateway_SendCommand cmd g"

text \<open>The contract of a callback reactor: a read or write completes when one is outstanding, and
  \<open>OnDone\<close> comes last, after \<open>Finish\<close> and every outstanding operation.\<close>

fun grpc_ok :: "robot_gateway \<Rightarrow> gateway_event \<Rightarrow> bool" where
  "grpc_ok g (ReadDone n _) = (case map_of (gw_reactors g) n of Some r \<Rightarrow> re_reading r | None \<Rightarrow> False)"
| "grpc_ok g (WriteDone n _) = (case map_of (gw_reactors g) n of Some r \<Rightarrow> re_writing r | None \<Rightarrow> False)"
| "grpc_ok g (Done n) = (case map_of (gw_reactors g) n of
     Some r \<Rightarrow> 0 < re_finishes r \<and> \<not> re_reading r \<and> \<not> re_writing r | None \<Rightarrow> False)"
| "grpc_ok g _ = True"

inductive gateway_run :: "robot_gateway \<Rightarrow> gateway_out list \<Rightarrow> bool" where
  fresh: "gateway_run new_gateway []"
| step: "gateway_run g os \<Longrightarrow> grpc_ok g ev \<Longrightarrow> gateway_step g ev = (g', os') \<Longrightarrow> gateway_run g' (os @ os')"

inductive_cases gateway_runE: "gateway_run g os"

section \<open>The registry never dangles\<close>

definition reactor_ok :: "reactor \<Rightarrow> bool" where
  "reactor_ok r \<longleftrightarrow> (re_outgoing_queue r \<noteq> [] \<longrightarrow> re_writing r \<or> 0 < re_finishes r) \<and>
     (re_writing r \<longrightarrow> re_outgoing_queue r \<noteq> [])"

definition registered_as :: "string \<Rightarrow> reactor \<Rightarrow> bool" where
  "registered_as i r \<longleftrightarrow> re_registered r \<and> re_robot_id r = i"

definition gateway_inv :: "robot_gateway \<Rightarrow> gateway_out list \<Rightarrow> bool" where
  "gateway_inv g os \<longleftrightarrow>
     (\<forall>i n. map_of (gw_registry g) i = Some n \<longrightarrow> (\<exists>r. map_of (gw_reactors g) n = Some r \<and> registered_as i r)) \<and>
     (\<forall>n r. map_of (gw_reactors g) n = Some r \<longrightarrow> n < gw_next g \<and> reactor_ok r) \<and>
     (\<forall>n. UseAfterFree n \<notin> set os)"

lemma gateway_inv_entry:
  "gateway_inv g os \<Longrightarrow> map_of (gw_registry g) i = Some n \<Longrightarrow> map_of (gw_reactors g) n = Some r \<Longrightarrow> registered_as i r"
  unfolding gateway_inv_def by fastforce

lemma gateway_inv_reactor:
  "gateway_inv g os \<Longrightarrow> map_of (gw_reactors g) n = Some r \<Longrightarrow> n < gw_next g \<and> reactor_ok r"
  unfolding gateway_inv_def by blast

lemma pump_fields [simp]:
  "re_robot_id (fst (pumpLocked n r)) = re_robot_id r"
  "re_registered (fst (pumpLocked n r)) = re_registered r"
  "re_reading (fst (pumpLocked n r)) = re_reading r"
  "re_finishes (fst (pumpLocked n r)) = re_finishes r"
  "re_outgoing_queue (fst (pumpLocked n r)) = re_outgoing_queue r"
  "re_writing (fst (pumpLocked n r)) \<longleftrightarrow> re_writing r \<or> re_outgoing_queue r \<noteq> []"
  "UseAfterFree k \<notin> set (snd (pumpLocked n r))"
  by (auto simp: pumpLocked_def)

lemma put_reactor_fields [simp]:
  "gw_registry (put_reactor n r g) = gw_registry g"
  "gw_next (put_reactor n r g) = gw_next g"
  "map_of (gw_reactors (put_reactor n r g)) = (map_of (gw_reactors g))(n \<mapsto> r)"
  by (simp_all add: put_reactor_def)

lemma deliver_clean [simp]: "UseAfterFree k \<notin> set (deliver up)"
  by (cases up) simp_all

text \<open>A reactor replaced by one with the same registration keeps the invariant.\<close>

lemma gateway_inv_put:
  assumes inv: "gateway_inv g os" and r: "map_of (gw_reactors g) n = Some r"
    and same: "re_robot_id r' = re_robot_id r" "re_registered r' = re_registered r"
    and ok: "reactor_ok r'" "\<And>k. UseAfterFree k \<notin> set os'"
  shows "gateway_inv (put_reactor n r' g) (os @ os')"
proof -
  have "registered_as i r'" if "map_of (gw_registry g) i = Some n" for i
    using gateway_inv_entry[OF inv that r] same by (simp add: registered_as_def)
  with inv ok gateway_inv_reactor[OF inv r] show ?thesis unfolding gateway_inv_def by auto
qed

lemma gateway_inv_read:
  assumes inv: "gateway_inv g os" and r: "map_of (gw_reactors g) n = Some r"
  shows "gateway_inv (fst (OnReadDone n up r g)) (os @ snd (OnReadDone n up r g))"
proof (cases "up = None \<or> re_registered r")
  case True
  have "reactor_ok r" using gateway_inv_reactor[OF inv r] by simp
  with True show ?thesis
    by (auto simp: OnReadDone_def Let_def reactor_ok_def split: option.split intro!: gateway_inv_put[OF inv r])
next
  case False
  then obtain u where up: "up = Some u" by auto
  let ?r = "r\<lparr>re_robot_id := telemetry_id u, re_registered := True, re_reading := True\<rparr>"
  have read: "OnReadDone n up r g = (put_reactor n ?r (RegisterReactor (telemetry_id u) n g), deliver u @ [StartRead n])"
    using False by (simp add: OnReadDone_def up Let_def)
  have "m \<noteq> n" if "map_of (gw_registry g) i = Some m" for i m
    using gateway_inv_entry[OF inv that] r False by (auto simp: registered_as_def)
  moreover have "reactor_ok ?r" "registered_as (telemetry_id u) ?r"
    using gateway_inv_reactor[OF inv r] by (simp_all add: reactor_ok_def registered_as_def)
  ultimately show ?thesis
    using inv gateway_inv_reactor[OF inv r] unfolding read gateway_inv_def
    by (auto simp: RegisterReactor_def map_of_emplace split: if_splits)
qed

lemma gateway_inv_done:
  assumes inv: "gateway_inv g os" and r: "map_of (gw_reactors g) n = Some r"
  shows "gateway_inv (fst (OnDone n r g)) (os @ snd (OnDone n r g))"
proof -
  have "m \<noteq> n" if "map_of (gw_registry g) i = Some m" "i \<noteq> re_robot_id r" for i m
    using gateway_inv_entry[OF inv that(1)] r that(2) by (auto simp: registered_as_def)
  with inv show ?thesis
    by (auto simp: gateway_inv_def OnDone_def UnregisterReactor_def delete_conv' split: if_splits)
qed

lemma gateway_inv_step:
  assumes inv: "gateway_inv g os" and ok: "grpc_ok g ev"
  shows "gateway_inv (fst (gateway_step g ev)) (os @ snd (gateway_step g ev))"
proof (cases ev)
  case LinkOpened
  have "m \<noteq> gw_next g" if "map_of (gw_registry g) i = Some m" for i m
    using inv that unfolding gateway_inv_def by blast
  with inv show ?thesis
    by (auto simp: LinkOpened Link_def Let_def gateway_inv_def less_Suc_eq reactor_ok_def split: if_splits)
next
  case (ReadDone n up)
  with ok inv show ?thesis
    by (auto simp: on_reactor_def split: option.splits intro: gateway_inv_read)
next
  case (WriteDone n k)
  with ok obtain r where r: "map_of (gw_reactors g) n = Some r" by (auto split: option.splits)
  show ?thesis
    using gateway_inv_put[OF inv r, of "fst (OnWriteDone n k r)" "snd (OnWriteDone n k r)"]
    by (simp add: WriteDone on_reactor_def r split_beta) (simp add: OnWriteDone_def Let_def reactor_ok_def)
next
  case (Done n)
  with ok inv show ?thesis
    by (auto simp: on_reactor_def split: option.splits intro: gateway_inv_done)
next
  case (Send cmd)
  show ?thesis
  proof (cases "map_of (gw_registry g) (rc_robot_id cmd)")
    case None
    with inv show ?thesis by (simp add: Send gateway_SendCommand_def gateway_inv_def)
  next
    case (Some n)
    with inv obtain r where r: "map_of (gw_reactors g) n = Some r" unfolding gateway_inv_def by blast
    show ?thesis
      using gateway_inv_put[OF inv r, of "fst (enqueue n (to_proto cmd) r)" "snd (enqueue n (to_proto cmd) r) @ [SendReturns True]"]
      by (simp add: Send gateway_SendCommand_def Some r split_beta) (simp add: enqueue_def reactor_ok_def)
  qed
qed

lemma gateway_run_inv: "gateway_run g os \<Longrightarrow> gateway_inv g os"
proof (induction rule: gateway_run.induct)
  case fresh
  then show ?case by (simp add: gateway_inv_def new_gateway_def)
next
  case (step g os ev g' os')
  from gateway_inv_step[OF step.IH step.hyps(2)] step.hyps(3) show ?case by simp
qed

section \<open>Runs as lists of events\<close>

fun contract_kept :: "robot_gateway \<Rightarrow> gateway_event list \<Rightarrow> bool" where
  "contract_kept g [] = True"
| "contract_kept g (ev # evs) = (grpc_ok g ev \<and> contract_kept (fst (gateway_step g ev)) evs)"

lemma gateway_run_extend:
  "gateway_run g os \<Longrightarrow> contract_kept g evs \<Longrightarrow>
     gateway_run (fst (run gateway_step g evs)) (os @ snd (run gateway_step g evs))"
proof (induction evs arbitrary: g os)
  case (Cons ev evs)
  from Cons.prems have "gateway_run (fst (gateway_step g ev)) (os @ snd (gateway_step g ev))"
    by (auto intro: gateway_run.step)
  from Cons.IH[OF this] Cons.prems show ?case by (simp add: split_beta)
qed simp

lemma contract_snoc:
  "contract_kept g (evs @ [ev]) \<longleftrightarrow> contract_kept g evs \<and> grpc_ok (fst (run gateway_step g evs)) ev"
  by (induction evs arbitrary: g) (simp_all add: split_beta)

lemma contract_append:
  "contract_kept g (evs @ evs') \<longleftrightarrow> contract_kept g evs \<and> contract_kept (fst (run gateway_step g evs)) evs'"
  by (induction evs arbitrary: g) (simp_all add: split_beta)

lemma contract_inv: "contract_kept new_gateway evs \<Longrightarrow> \<exists>os. gateway_inv (fst (run gateway_step new_gateway evs)) os"
  using gateway_run_inv[OF gateway_run_extend[OF gateway_run.fresh]] by blast

section \<open>The history of a link\<close>

text \<open>What happened at the link number \<open>n\<close> so far: the commands that \<open>SendCommand\<close> accepted for it,
  the writes that were started, the commands whose write completed (the one started last, since one
  write is outstanding at a time), and the writes that failed.\<close>

record link_log =
  lg_accepted :: "proto_robot_command list"
  lg_started :: "proto_robot_command list"
  lg_completed :: "proto_robot_command list"
  lg_failed :: nat

definition new_log :: link_log where
  "new_log = \<lparr>lg_accepted = [], lg_started = [], lg_completed = [], lg_failed = 0\<rparr>"

fun accepted_for :: "nat \<Rightarrow> robot_gateway \<Rightarrow> gateway_event \<Rightarrow> proto_robot_command list" where
  "accepted_for n g (Send cmd) = (if map_of (gw_registry g) (rc_robot_id cmd) = Some n then [to_proto cmd] else [])"
| "accepted_for n g _ = []"

fun started_at :: "nat \<Rightarrow> gateway_out \<Rightarrow> proto_robot_command list" where
  "started_at n (StartWrite k cmd) = (if k = n then [cmd] else [])"
| "started_at n _ = []"

definition log_event :: "nat \<Rightarrow> robot_gateway \<Rightarrow> gateway_event \<Rightarrow> link_log \<Rightarrow> link_log" where
  "log_event n g ev l =
     \<lparr>lg_accepted = lg_accepted l @ accepted_for n g ev,
      lg_started = lg_started l @ concat (map (started_at n) (snd (gateway_step g ev))),
      lg_completed = lg_completed l @ (if ev = WriteDone n True then [last (lg_started l)] else []),
      lg_failed = lg_failed l + (if ev = WriteDone n False then 1 else 0)\<rparr>"

fun link_history :: "nat \<Rightarrow> robot_gateway \<Rightarrow> link_log \<Rightarrow> gateway_event list \<Rightarrow> link_log" where
  "link_history n g l [] = l"
| "link_history n g l (ev # evs) = link_history n (fst (gateway_step g ev)) (log_event n g ev l) evs"

lemma history_snoc:
  "link_history n g l (evs @ [ev]) = log_event n (fst (run gateway_step g evs)) ev (link_history n g l evs)"
  by (induction evs arbitrary: g l) (simp_all add: split_beta)

text \<open>The reactor against its history: what was accepted is what was completed and then its queue;
  the write outstanding is that of the head, and without failures each start but that one is
  completed.\<close>

definition logged :: "reactor \<Rightarrow> link_log \<Rightarrow> bool" where
  "logged r l \<longleftrightarrow>
     lg_completed l @ re_outgoing_queue r = lg_accepted l \<and>
     (re_writing r \<longrightarrow> re_outgoing_queue r \<noteq> [] \<and> lg_started l \<noteq> [] \<and> last (lg_started l) = hd (re_outgoing_queue r)) \<and>
     (re_outgoing_queue r \<noteq> [] \<longrightarrow> re_writing r \<or> 0 < re_finishes r) \<and>
     (lg_failed l = 0 \<longrightarrow> lg_started l = lg_completed l @ (if re_writing r then [hd (re_outgoing_queue r)] else []) \<and>
        (re_outgoing_queue r \<noteq> [] \<longrightarrow> re_writing r))"

definition link_logged :: "nat \<Rightarrow> robot_gateway \<Rightarrow> link_log \<Rightarrow> bool" where
  "link_logged n g l \<longleftrightarrow> (\<forall>r. map_of (gw_reactors g) n = Some r \<longrightarrow> logged r l) \<and> (gw_next g \<le> n \<longrightarrow> l = new_log)"

lemma started_deliver [simp]: "concat (map (started_at n) (deliver up)) = []"
  by (cases up) simp_all

lemma logged_enqueue:
  "logged r l \<Longrightarrow> logged (fst (enqueue n cmd r))
     (l\<lparr>lg_accepted := lg_accepted l @ [cmd],
        lg_started := lg_started l @ concat (map (started_at n) (snd (enqueue n cmd r)))\<rparr>)"
  by (cases "re_outgoing_queue r") (auto simp: logged_def enqueue_def pumpLocked_def)

lemma logged_written:
  "logged r l \<Longrightarrow> re_writing r \<Longrightarrow> logged (fst (OnWriteDone n ok r))
     (l\<lparr>lg_started := lg_started l @ concat (map (started_at n) (snd (OnWriteDone n ok r))),
        lg_completed := lg_completed l @ (if ok then [last (lg_started l)] else []),
        lg_failed := lg_failed l + (if ok then 0 else 1)\<rparr>)"
  by (auto simp: logged_def OnWriteDone_def pumpLocked_def Let_def neq_Nil_conv)

lemma logged_read:
  "logged (r\<lparr>re_robot_id := i\<rparr>) l = logged r l" "logged (r\<lparr>re_registered := a\<rparr>) l = logged r l"
  "logged (r\<lparr>re_reading := b\<rparr>) l = logged r l"
  by (simp_all add: logged_def)

lemma logged_finish: "logged r l \<Longrightarrow> logged (r\<lparr>re_reading := b, re_finishes := Suc (re_finishes r)\<rparr>) l"
  by (auto simp: logged_def)

lemma starts_elsewhere:
  "k \<noteq> n \<Longrightarrow> concat (map (started_at n) (snd (enqueue k cmd r))) = []"
  "k \<noteq> n \<Longrightarrow> concat (map (started_at n) (snd (OnWriteDone k ok r))) = []"
  by (simp_all add: enqueue_def OnWriteDone_def pumpLocked_def Let_def)

lemma quiet_event:
  "accepted_for n g ev = [] \<Longrightarrow> concat (map (started_at n) (snd (gateway_step g ev))) = [] \<Longrightarrow>
     ev \<noteq> WriteDone n True \<Longrightarrow> ev \<noteq> WriteDone n False \<Longrightarrow> log_event n g ev l = l"
  by (simp add: log_event_def)

lemma link_logged_put:
  "link_logged n g l \<Longrightarrow> map_of (gw_reactors g) k = Some r0 \<Longrightarrow> k < gw_next g \<Longrightarrow> (k = n \<Longrightarrow> logged r l') \<Longrightarrow> (k \<noteq> n \<Longrightarrow> l' = l) \<Longrightarrow>
     gw_next g' = gw_next g \<Longrightarrow> map_of (gw_reactors g') = (map_of (gw_reactors g))(k \<mapsto> r) \<Longrightarrow> link_logged n g' l'"
  by (cases "k = n") (auto simp: link_logged_def)

lemma link_logged_step:
  assumes inv: "gateway_inv g os" and l: "link_logged n g l" and ok: "grpc_ok g ev"
  shows "link_logged n (fst (gateway_step g ev)) (log_event n g ev l)"
proof (cases ev)
  case LinkOpened
  have "log_event n g ev l = l" by (simp add: LinkOpened quiet_event Link_def Let_def)
  moreover have "logged \<lparr>re_robot_id = '''', re_outgoing_queue = [], re_writing = False, re_registered = False,
      re_reading = True, re_finishes = 0\<rparr> new_log"
    by (simp add: logged_def new_log_def)
  ultimately show ?thesis using l by (auto simp: LinkOpened Link_def Let_def link_logged_def)
next
  case (ReadDone k up)
  with ok obtain r where r: "map_of (gw_reactors g) k = Some r" by (auto split: option.splits)
  have fresh: "k < gw_next g" using gateway_inv_reactor[OF inv r] by simp
  have same: "log_event n g ev l = l"
    by (rule quiet_event) (simp_all add: ReadDone on_reactor_def r OnReadDone_def Let_def del: concat_eq_Nil_conv split: option.split)
  define r' where "r' = (case up of None \<Rightarrow> r\<lparr>re_reading := False, re_finishes := Suc (re_finishes r)\<rparr>
    | Some u \<Rightarrow> if re_registered r then r\<lparr>re_reading := True\<rparr>
        else r\<lparr>re_robot_id := telemetry_id u, re_registered := True, re_reading := True\<rparr>)"
  have r': "map_of (gw_reactors (fst (OnReadDone k up r g))) = (map_of (gw_reactors g))(k \<mapsto> r')" "logged r l \<longrightarrow> logged r' l"
    by (simp_all add: r'_def OnReadDone_def Let_def RegisterReactor_def logged_read logged_finish split: option.split)
  have "gw_next (fst (OnReadDone k up r g)) = gw_next g"
    by (simp add: OnReadDone_def Let_def RegisterReactor_def split: option.split)
  moreover have "logged r' l" if "k = n" using l that r r'(2) by (simp add: link_logged_def)
  ultimately have "link_logged n (fst (OnReadDone k up r g)) l"
    using link_logged_put[OF l r fresh _ _ _ r'(1)] by simp
  then show ?thesis unfolding same by (simp add: ReadDone on_reactor_def r)
next
  case (WriteDone k w)
  with ok obtain r where r: "map_of (gw_reactors g) k = Some r" "re_writing r" by (auto split: option.splits)
  have fresh: "k < gw_next g" using gateway_inv_reactor[OF inv r(1)] by simp
  have out: "gateway_step g ev = (put_reactor k (fst (OnWriteDone k w r)) g, snd (OnWriteDone k w r))"
    by (simp add: WriteDone on_reactor_def r split_beta)
  have "log_event n g ev l = l" if "k \<noteq> n"
    using that starts_elsewhere(2) by (intro quiet_event) (simp_all only: out snd_conv, simp_all add: WriteDone)
  moreover have "logged (fst (OnWriteDone k w r)) (log_event n g ev l)" if "k = n"
  proof -
    have "log_event n g ev l = l\<lparr>lg_started := lg_started l @ concat (map (started_at n) (snd (OnWriteDone n w r))),
        lg_completed := lg_completed l @ (if w then [last (lg_started l)] else []),
        lg_failed := lg_failed l + (if w then 0 else 1)\<rparr>"
      unfolding log_event_def out snd_conv using that by (cases l; cases w) (simp_all add: WriteDone)
    with logged_written[of r l n w] l r that show ?thesis by (simp add: link_logged_def)
  qed
  ultimately show ?thesis
    unfolding out by (intro link_logged_put[OF l r(1) fresh]) simp_all
next
  case (Done k)
  with ok obtain r where r: "map_of (gw_reactors g) k = Some r" by (auto split: option.splits)
  have "log_event n g ev l = l" by (simp add: Done quiet_event on_reactor_def r OnDone_def)
  with l show ?thesis
    by (auto simp: Done on_reactor_def r OnDone_def UnregisterReactor_def link_logged_def delete_conv' split: if_splits)
next
  case (Send cmd)
  show ?thesis
  proof (cases "map_of (gw_registry g) (rc_robot_id cmd)")
    case None
    then have "log_event n g ev l = l" by (simp add: Send quiet_event gateway_SendCommand_def)
    with l None show ?thesis by (simp add: Send gateway_SendCommand_def)
  next
    case (Some k)
    with inv obtain r where r: "map_of (gw_reactors g) k = Some r" unfolding gateway_inv_def by blast
    have fresh: "k < gw_next g" using gateway_inv_reactor[OF inv r] by simp
    have out: "gateway_step g ev = (put_reactor k (fst (enqueue k (to_proto cmd) r)) g, snd (enqueue k (to_proto cmd) r) @ [SendReturns True])"
      by (simp add: Send gateway_SendCommand_def Some r split_beta)
    have "log_event n g ev l = l" if "k \<noteq> n"
      using that by (simp add: Send Some quiet_event out[unfolded Send, simplified] starts_elsewhere)
    moreover have "logged (fst (enqueue k (to_proto cmd) r)) (log_event n g ev l)" if "k = n"
    proof -
      have "log_event n g ev l = l\<lparr>lg_accepted := lg_accepted l @ [to_proto cmd],
          lg_started := lg_started l @ concat (map (started_at n) (snd (enqueue n (to_proto cmd) r)))\<rparr>"
        unfolding log_event_def out snd_conv using that Some by (cases l) (simp add: Send)
      with logged_enqueue[of r l n "to_proto cmd"] l r that show ?thesis by (simp add: link_logged_def)
    qed
    ultimately show ?thesis
      unfolding out by (intro link_logged_put[OF l r fresh]) simp_all
  qed
qed

lemma link_logged_run:
  "contract_kept new_gateway evs \<Longrightarrow>
     link_logged n (fst (run gateway_step new_gateway evs)) (link_history n new_gateway new_log evs)"
proof (induction evs rule: rev_induct)
  case Nil
  then show ?case by (simp add: link_logged_def new_gateway_def)
next
  case (snoc ev evs)
  from snoc.prems have ok: "contract_kept new_gateway evs" "grpc_ok (fst (run gateway_step new_gateway evs)) ev"
    by (simp_all add: contract_snoc)
  from contract_inv[OF ok(1)] obtain os where "gateway_inv (fst (run gateway_step new_gateway evs)) os" ..
  from link_logged_step[OF this snoc.IH[OF ok(1)] ok(2)] show ?case
    by (simp add: history_snoc run_append split_beta)
qed

section \<open>A link that is replaced\<close>

text \<open>No link but those in \<open>ks\<close> reads a message that names the robot \<open>i\<close>.\<close>

definition only_from :: "nat list \<Rightarrow> string \<Rightarrow> gateway_event list \<Rightarrow> bool" where
  "only_from ks i evs \<longleftrightarrow> list_all (\<lambda>ev. case ev of
     ReadDone k (Some up) \<Rightarrow> telemetry_id up = i \<longrightarrow> k \<in> set ks | _ \<Rightarrow> True) evs"

text \<open>The links \<open>ks\<close> have introduced themselves as \<open>i\<close> already, and at most one of them, \<open>n\<close>, is
  registered.\<close>

definition taken :: "nat list \<Rightarrow> string \<Rightarrow> nat \<Rightarrow> robot_gateway \<Rightarrow> bool" where
  "taken ks i n g \<longleftrightarrow>
     (\<forall>k. map_of (gw_registry g) i = Some k \<longrightarrow> k = n \<and> map_of (gw_reactors g) n \<noteq> None) \<and>
     (\<forall>k \<in> set ks. k < gw_next g \<and> (\<forall>r. map_of (gw_reactors g) k = Some r \<longrightarrow> registered_as i r))"

lemma registered_as_update [simp]:
  "registered_as i (r\<lparr>re_outgoing_queue := q\<rparr>) = registered_as i r" "registered_as i (r\<lparr>re_writing := b\<rparr>) = registered_as i r"
  "registered_as i (r\<lparr>re_reading := b\<rparr>) = registered_as i r" "registered_as i (r\<lparr>re_finishes := c\<rparr>) = registered_as i r"
  by (simp_all add: registered_as_def)

lemma registered_as_pump [simp]: "registered_as i (fst (pumpLocked n r)) = registered_as i r"
  by (simp add: registered_as_def)

lemma registered_as_written [simp]: "registered_as i (fst (OnWriteDone n ok r)) = registered_as i r"
  "registered_as i (fst (enqueue n cmd r)) = registered_as i r"
  by (simp_all add: OnWriteDone_def enqueue_def Let_def)

lemma taken_put:
  "taken ks i n g \<Longrightarrow> map_of (gw_reactors g) k = Some r \<Longrightarrow> (registered_as i r \<Longrightarrow> registered_as i r') \<Longrightarrow>
     taken ks i n (put_reactor k r' g)"
  by (auto simp: taken_def)

lemma taken_step:
  assumes t: "taken ks i n g" and ev: "only_from ks i [ev]" and n: "n \<in> set ks"
  shows "taken ks i n (fst (gateway_step g ev))"
proof (cases ev)
  case LinkOpened
  with t show ?thesis by (fastforce simp: Link_def Let_def taken_def)
next
  case (ReadDone k up)
  show ?thesis
  proof (cases "map_of (gw_reactors g) k")
    case (Some r)
    have known: "registered_as i r" if "k \<in> set ks" using t that Some by (simp add: taken_def)
    show ?thesis
    proof (cases "up = None \<or> re_registered r")
      case True
      with t Some show ?thesis
        by (auto simp: ReadDone on_reactor_def OnReadDone_def Let_def split: option.split intro!: taken_put)
    next
      case False
      then obtain u where u: "up = Some u" by auto
      with False known have new: "k \<notin> set ks" by (auto simp: registered_as_def)
      with ev u have "telemetry_id u \<noteq> i" by (auto simp: only_from_def ReadDone)
      with False t new n show ?thesis
        by (auto simp: ReadDone on_reactor_def Some u OnReadDone_def Let_def RegisterReactor_def map_of_emplace taken_def
            split: if_splits)
    qed
  qed (use t in \<open>simp add: ReadDone on_reactor_def\<close>)
next
  case (WriteDone k ok)
  with t show ?thesis
    by (auto simp: on_reactor_def split_beta split: option.split intro!: taken_put)
next
  case (Done k)
  show ?thesis
  proof (cases "map_of (gw_reactors g) k")
    case (Some r)
    have "re_robot_id r = i" if "k = n" using t n Some that by (auto simp: taken_def registered_as_def)
    have "j = n \<and> n \<noteq> k \<and> map_of (gw_reactors g) n \<noteq> None"
      if "map_of (gw_registry g) i = Some j" "i \<noteq> re_robot_id r" for j
      using t that \<open>k = n \<Longrightarrow> re_robot_id r = i\<close> unfolding taken_def by blast
    moreover have "registered_as i q" if "j \<in> set ks" "map_of (gw_reactors g) j = Some q" for j q
      using t that unfolding taken_def by blast
    moreover have "j < gw_next g" if "j \<in> set ks" for j
      using t that unfolding taken_def by blast
    ultimately show ?thesis
      by (auto simp: taken_def Done on_reactor_def Some OnDone_def UnregisterReactor_def delete_conv')
  qed (use t in \<open>simp add: Done on_reactor_def\<close>)
next
  case (Send cmd)
  with t show ?thesis
    by (auto simp: gateway_SendCommand_def split_beta split: option.split intro!: taken_put)
qed

interpretation replaced: guarded_machine gateway_step "\<lambda>g. n \<in> set ks \<and> taken ks i n g" "\<lambda>ev. only_from ks i [ev]" "\<lambda>_. True"
  for n ks i
  by unfold_locales (simp_all add: taken_step list_all_iff)

lemma taken_run:
  "taken ks i n g \<Longrightarrow> n \<in> set ks \<Longrightarrow> only_from ks i evs \<Longrightarrow> taken ks i n (fst (run gateway_step g evs))"
  using replaced.run_keeps[of n ks i g evs] by (simp add: only_from_def)

text \<open>A reactor lives until it is done.\<close>

lemma alive_step:
  "map_of (gw_reactors g) m = Some r \<Longrightarrow> m < gw_next g \<Longrightarrow> ev \<noteq> Done m \<Longrightarrow>
     \<exists>r'. map_of (gw_reactors (fst (gateway_step g ev))) m = Some r' \<and> m < gw_next (fst (gateway_step g ev))"
  by (cases ev) (auto simp: Link_def on_reactor_def OnReadDone_def OnDone_def UnregisterReactor_def RegisterReactor_def
      gateway_SendCommand_def Let_def split_beta delete_conv' split: option.split)

lemma alive_run:
  "map_of (gw_reactors g) m = Some r \<Longrightarrow> m < gw_next g \<Longrightarrow> Done m \<notin> set evs \<Longrightarrow>
     \<exists>r'. map_of (gw_reactors (fst (run gateway_step g evs))) m = Some r'"
proof (induction evs arbitrary: g r)
  case (Cons ev evs)
  from alive_step[OF Cons.prems(1,2), of ev] Cons.prems(3) Cons.IH[of "fst (gateway_step g ev)"] show ?case
    by (auto simp: split_beta)
qed simp

text \<open>Numbers of reactors are not used again.\<close>

lemma gone_step:
  "map_of (gw_reactors g) n = None \<Longrightarrow> n < gw_next g \<Longrightarrow>
     map_of (gw_reactors (fst (gateway_step g ev))) n = None \<and> n < gw_next (fst (gateway_step g ev))"
  by (cases ev) (auto simp: Link_def on_reactor_def OnReadDone_def OnDone_def UnregisterReactor_def RegisterReactor_def
      gateway_SendCommand_def Let_def split_beta delete_conv' split: option.split)

lemma gone_run:
  "map_of (gw_reactors g) n = None \<Longrightarrow> n < gw_next g \<Longrightarrow> map_of (gw_reactors (fst (run gateway_step g evs))) n = None"
proof (induction evs arbitrary: g)
  case (Cons ev evs)
  from gone_step[OF Cons.prems, of ev] Cons.IH show ?case by (simp add: split_beta)
qed simp

section \<open>What a gateway promises to who sends commands\<close>

text \<open>The contract of \<open>SendCommand\<close>, which both gateways of the core provide: \<open>queued g i\<close> are the
  commands the link of the robot \<open>i\<close> holds, if the robot is linked; a command is accepted exactly if
  its robot is linked, and is then last in that robot's queue, and in no other. The client lemma:
  of any commands, each linked robot has got exactly its own, in order.\<close>

locale command_gateway =
  fixes send :: "robot_command \<Rightarrow> 'g \<Rightarrow> 'g \<times> bool"
    and good :: "'g \<Rightarrow> bool"
    and queued :: "'g \<Rightarrow> string \<Rightarrow> proto_robot_command list option"
  assumes keeps: "good g \<Longrightarrow> good (fst (send c g))"
    and accepts: "good g \<Longrightarrow> snd (send c g) = (queued g (rc_robot_id c) \<noteq> None)"
    and queues: "good g \<Longrightarrow> queued (fst (send c g)) i =
      (if rc_robot_id c = i then map_option (\<lambda>q. q @ [to_proto c]) (queued g i) else queued g i)"
begin

lemma all_queued:
  "good g \<Longrightarrow> queued (foldl (\<lambda>g c. fst (send c g)) g cs) i =
     map_option (\<lambda>q. q @ map to_proto (filter (\<lambda>c. rc_robot_id c = i) cs)) (queued g i)"
proof (induction cs arbitrary: g)
  case (Cons c cs)
  from Cons.IH[OF keeps[OF Cons.prems, of c]] queues[OF Cons.prems, of c i] show ?case
    by (simp add: option.map_comp comp_def)
qed (simp add: option.map_ident)

end

definition callback_send :: "robot_command \<Rightarrow> robot_gateway \<Rightarrow> robot_gateway \<times> bool" where
  "callback_send cmd g = (let (g', os) = gateway_SendCommand cmd g in (g', last os = SendReturns True))"

definition callback_queued :: "robot_gateway \<Rightarrow> string \<Rightarrow> proto_robot_command list option" where
  "callback_queued g i = Option.bind (map_of (gw_registry g) i) (\<lambda>n. map_option re_outgoing_queue (map_of (gw_reactors g) n))"

definition callback_good :: "robot_gateway \<Rightarrow> bool" where
  "callback_good g \<longleftrightarrow> gateway_inv g []"

lemma callback_entry:
  assumes "callback_good g" "map_of (gw_registry g) i = Some n"
  obtains r where "map_of (gw_reactors g) n = Some r" "re_robot_id r = i"
  using assms by (auto simp: callback_good_def gateway_inv_def registered_as_def)

lemma callback_sends:
  "map_of (gw_registry g) (rc_robot_id c) = Some n \<Longrightarrow> map_of (gw_reactors g) n = Some r \<Longrightarrow>
     callback_send c g = (put_reactor n (fst (enqueue n (to_proto c) r)) g, True)"
  by (simp add: callback_send_def gateway_SendCommand_def split_beta)

lemma callback_keeps: "callback_good g \<Longrightarrow> callback_good (fst (callback_send c g))"
  using gateway_inv_step[of g "[]" "Send c"]
  by (auto simp: callback_good_def callback_send_def split_beta gateway_inv_def)

interpretation callback: command_gateway callback_send callback_good callback_queued
proof
  show "callback_good (fst (callback_send c g))" if "callback_good g" for c g
    by (rule callback_keeps[OF that])
next
  fix g c assume g: "callback_good g"
  show "snd (callback_send c g) = (callback_queued g (rc_robot_id c) \<noteq> None)"
  proof (cases "map_of (gw_registry g) (rc_robot_id c)")
    case (Some n)
    with g obtain r where "map_of (gw_reactors g) n = Some r" by (rule callback_entry)
    with Some show ?thesis by (simp add: callback_sends callback_queued_def)
  qed (simp add: callback_send_def gateway_SendCommand_def callback_queued_def)
next
  fix g c i assume g: "callback_good g"
  show "callback_queued (fst (callback_send c g)) i =
    (if rc_robot_id c = i then map_option (\<lambda>q. q @ [to_proto c]) (callback_queued g i) else callback_queued g i)"
  proof (cases "map_of (gw_registry g) (rc_robot_id c)")
    case (Some n)
    with g obtain r where r: "map_of (gw_reactors g) n = Some r" "re_robot_id r = rc_robot_id c" by (rule callback_entry)
    have "m \<noteq> n" if "map_of (gw_registry g) i = Some m" "i \<noteq> rc_robot_id c" for m
      using callback_entry[OF g that(1)] r that(2) by (metis option.inject)
    with Some r(1) show ?thesis by (auto simp: callback_sends callback_queued_def enqueue_def bind_eq_None_conv split: bind_splits)
  qed (auto simp: callback_send_def gateway_SendCommand_def callback_queued_def)
qed

section \<open>Properties\<close>

text \<open>C17: The registry never dangles, though it holds bare pointers to objects that delete
  themselves: in every run under gRPC's contract each entry is the address of a live reactor that
  registered under that id, so no command is ever given to a deleted one, and a command is
  accepted exactly if its robot is registered.\<close>

theorem registry_never_dangles:
  assumes "gateway_run g os"
  shows "(\<forall>n. UseAfterFree n \<notin> set os) \<and>
    (\<forall>i n. map_of (gw_registry g) i = Some n \<longrightarrow>
       (\<exists>r. map_of (gw_reactors g) n = Some r \<and> re_registered r \<and> re_robot_id r = i)) \<and>
    last (snd (gateway_SendCommand cmd g)) = SendReturns (map_of (gw_registry g) (rc_robot_id cmd) \<noteq> None)"
proof -
  have inv: "gateway_inv g os" by (rule gateway_run_inv[OF assms])
  then have "last (snd (gateway_SendCommand cmd g)) = SendReturns (map_of (gw_registry g) (rc_robot_id cmd) \<noteq> None)"
    by (fastforce simp: gateway_SendCommand_def gateway_inv_def split_beta split: option.split)
  with inv show ?thesis unfolding gateway_inv_def registered_as_def by blast
qed

text \<open>C29: Commands go down a link one at a time, in the order in which they were accepted, none lost and
  none written twice, for as long as the link lasts: in every run of the gateway under gRPC's contract,
  the commands whose write has completed, followed by the link's queue, are exactly the commands that
  were accepted for it, in order, even if writes fail. A write in flight is that of the head of the
  queue, and nothing waits on an idle link that has not been finished. As long as no write has failed,
  the writes started are those completed and the one in flight; a failed write leaves its command at
  the head of the queue and finishes the call, and a command accepted after that starts it again. (When
  the link is done, its queue is gone with it.)\<close>

theorem commands_written_in_order:
  assumes "contract_kept new_gateway evs"
    and "map_of (gw_reactors (fst (run gateway_step new_gateway evs))) n = Some r"
  shows "let h = link_history n new_gateway new_log evs in
    lg_completed h @ re_outgoing_queue r = lg_accepted h \<and>
    (re_writing r \<longrightarrow> re_outgoing_queue r \<noteq> [] \<and> lg_started h \<noteq> [] \<and> last (lg_started h) = hd (re_outgoing_queue r)) \<and>
    (re_outgoing_queue r \<noteq> [] \<longrightarrow> re_writing r \<or> 0 < re_finishes r) \<and>
    (lg_failed h = 0 \<longrightarrow>
       lg_started h = lg_completed h @ (if re_writing r then [hd (re_outgoing_queue r)] else []) \<and>
       (re_outgoing_queue r \<noteq> [] \<longrightarrow> re_writing r))"
  using link_logged_run[OF assms(1), of n] assms(2) by (simp add: link_logged_def logged_def Let_def)

text \<open>C35: A robot that reconnects before the server has noticed the end of its old link is orphaned.
  \<open>emplace\<close> leaves the old entry in place, so that commands still go to the old link, and when the old
  link is done it erases the entry by the robot's id. From then on every command to the robot is
  refused, whatever else happens at the gateway (other links opened, introduced, read, written and
  done, commands to anyone), unless a third link reads telemetry under the robot's id; and for as long
  as the new link lasts it stays open, registered in its own view, and delivers telemetry.\<close>

theorem relink_orphans_robot:
  assumes run: "gateway_run g os" "map_of (gw_registry g) i = Some n"
    and new: "map_of (gw_reactors g) m = Some r" "\<not> re_registered r" "pt_robot_id t = i"
    and evs: "contract_kept g (ReadDone m (Some (UpTelemetry t)) # es1 @ Done n # es2)" "only_from [n, m] i (es1 @ es2)"
    and g': "g' = fst (run gateway_step g (ReadDone m (Some (UpTelemetry t)) # es1 @ Done n # es2))"
    and cmd: "rc_robot_id cmd = i"
  shows "snd (gateway_SendCommand cmd g') = [SendReturns False] \<and>
    (Done m \<notin> set (es1 @ es2) \<longrightarrow>
      (\<exists>r'. map_of (gw_reactors g') m = Some r' \<and> re_registered r' \<and> re_robot_id r' = i) \<and>
      (\<forall>t'. DeliverTelemetry (to_domain_telemetry t') \<in> set (snd (gateway_step g' (ReadDone m (Some (UpTelemetry t')))))))"
proof -
  from gateway_run_inv[OF run(1)] have inv: "gateway_inv g os" .
  with run(2) obtain s where s: "map_of (gw_reactors g) n = Some s" "registered_as i s"
    unfolding gateway_inv_def by blast
  with new have neq: "n \<noteq> m" by (auto simp: registered_as_def)
  have fresh: "n < gw_next g" "m < gw_next g" using gateway_inv_reactor[OF inv] s(1) new(1) by blast+
  let ?read = "ReadDone m (Some (UpTelemetry t))"
  let ?g1 = "fst (gateway_step g ?read)"
  let ?g2 = "fst (run gateway_step ?g1 es1)"
  let ?g3 = "fst (gateway_step ?g2 (Done n))"
  have t1: "taken [n, m] i n ?g1"
    using run(2) new s fresh neq
    by (simp add: on_reactor_def OnReadDone_def Let_def RegisterReactor_def map_of_emplace taken_def registered_as_def)
  have only: "only_from [n, m] i es1" "only_from [n, m] i es2" using evs(2) by (simp_all add: only_from_def)
  have t2: "taken [n, m] i n ?g2" using taken_run[OF t1 _ only(1)] by simp
  have final: "g' = fst (run gateway_step ?g3 es2)"
    unfolding g' by (simp add: run_append split_beta del: gateway_step.simps)
  have "grpc_ok ?g2 (Done n)"
    using evs(1) by (simp add: contract_append del: gateway_step.simps grpc_ok.simps)
  then obtain q where q: "map_of (gw_reactors ?g2) n = Some q" by (auto split: option.splits)
  with t2 have "re_robot_id q = i" by (auto simp: taken_def registered_as_def)
  with t2 q neq have t3: "taken [n, m] i n ?g3" "map_of (gw_reactors ?g3) n = None"
    using taken_step[OF t2, of "Done n"] by (simp_all add: only_from_def on_reactor_def OnDone_def UnregisterReactor_def delete_conv')
  from t3 have "taken [n, m] i n g'" "n < gw_next ?g3"
    unfolding final using taken_run[OF t3(1) _ only(2)] by (simp_all add: taken_def)
  note taken = this(1)
  have "map_of (gw_reactors g') n = None"
    unfolding final by (rule gone_run[OF t3(2) \<open>n < gw_next ?g3\<close>])
  with taken have "map_of (gw_registry g') i = None"
    by (cases "map_of (gw_registry g') i") (auto simp: taken_def)
  with cmd have refused: "snd (gateway_SendCommand cmd g') = [SendReturns False]"
    by (simp add: gateway_SendCommand_def)
  have "\<exists>r'. map_of (gw_reactors g') m = Some r' \<and> registered_as i r'" if "Done m \<notin> set (es1 @ es2)"
  proof -
    obtain r1 where "map_of (gw_reactors ?g1) m = Some r1" "m < gw_next ?g1"
      using alive_step[OF new(1) fresh(2), of ?read] by auto
    from alive_run[OF this, of "es1 @ Done n # es2"] that neq obtain r' where
      "map_of (gw_reactors g') m = Some r'"
      by (auto simp: g' split_beta simp del: gateway_step.simps)
    with taken show ?thesis by (auto simp: taken_def)
  qed
  then show ?thesis
    using refused by (fastforce simp: registered_as_def on_reactor_def OnReadDone_def Let_def)
qed

text \<open>When a link dies while a command is being written, gRPC completes both the read and the
  write with a failure, and each callback calls \<open>Finish\<close>: the call is finished twice, which gRPC
  forbids.\<close>

theorem failed_link_finished_twice:
  assumes "map_of (gw_reactors g) n = Some r" "re_reading r" "re_writing r"
  shows "grpc_ok g (ReadDone n None) \<and> grpc_ok (fst (gateway_step g (ReadDone n None))) (WriteDone n False) \<and>
    snd (run gateway_step g [ReadDone n None, WriteDone n False]) = [Finish n True, Finish n False]"
  using assms by (simp add: on_reactor_def OnReadDone_def OnWriteDone_def Let_def)

section \<open>Instances\<close>

definition demo_uplink :: "string \<Rightarrow> proto_telemetry" where
  "demo_uplink i = \<lparr>pt_robot_id = i, pt_seq = 0, pt_timestamp = \<lparr>seconds = 0, nanos = 0\<rparr>, pt_x = Fin 0, pt_y = Fin 0,
     pt_heading = Fin 0, pt_speed = Fin 0, pt_radius = Fin 1\<rparr>"

definition demo_robot_command :: "string \<Rightarrow> robot_command" where
  "demo_robot_command i = \<lparr>rc_command_id = ''C'', rc_timestamp = 0, rc_expiry = 0, rc_robot_id = i,
     rc_payload = \<lparr>sp_speed = None, sp_radius = None, sp_center_x = None, sp_center_y = None, sp_theta = None\<rparr>\<rparr>"

lemma demo_link_ids [simp]: "pt_robot_id (demo_uplink i) = i" "rc_robot_id (demo_robot_command i) = i"
  by (simp_all add: demo_uplink_def demo_robot_command_def)

definition linked_events :: "gateway_event list" where
  "linked_events = [LinkOpened, ReadDone 0 (Some (UpTelemetry (demo_uplink ''R''))), LinkOpened]"

definition linked_gateway :: robot_gateway where
  "linked_gateway =
     \<lparr>gw_registry = [(''R'', 0)],
      gw_reactors = [(0, \<lparr>re_robot_id = ''R'', re_outgoing_queue = [], re_writing = False, re_registered = True,
                          re_reading = True, re_finishes = 0\<rparr>),
                     (1, \<lparr>re_robot_id = '''', re_outgoing_queue = [], re_writing = False, re_registered = False,
                          re_reading = True, re_finishes = 0\<rparr>)],
      gw_next = 2\<rparr>"

lemmas gateway_defs = on_reactor_def OnReadDone_def OnWriteDone_def OnDone_def Link_def put_reactor_def
  RegisterReactor_def UnregisterReactor_def gateway_SendCommand_def enqueue_def pumpLocked_def emplace_def Let_def

lemma linked_gateway_run: "gateway_run linked_gateway (snd (run gateway_step new_gateway linked_events))"
proof -
  have "contract_kept new_gateway linked_events"
    by (simp add: linked_events_def new_gateway_def gateway_defs)
  from gateway_run_extend[OF gateway_run.fresh this]
  have "gateway_run (fst (run gateway_step new_gateway linked_events)) (snd (run gateway_step new_gateway linked_events))"
    by simp
  moreover have "fst (run gateway_step new_gateway linked_events) = linked_gateway"
    by (simp add: linked_events_def new_gateway_def linked_gateway_def gateway_defs)
  ultimately show ?thesis by simp
qed

theorem registry_never_dangles_witness:
  "last (snd (gateway_SendCommand (demo_robot_command ''R'') linked_gateway)) = SendReturns True"
  using registry_never_dangles[OF linked_gateway_run, of "demo_robot_command ''R''"]
  by (simp add: linked_gateway_def)

definition failing_events :: "gateway_event list" where
  "failing_events = [LinkOpened, ReadDone 0 (Some (UpTelemetry (demo_uplink ''R''))), Send (demo_robot_command ''R''),
     Send (demo_robot_command ''R''), WriteDone 0 True, WriteDone 0 False]"

theorem commands_written_in_order_witness:
  "lg_completed (link_history 0 new_gateway new_log failing_events) = [to_proto (demo_robot_command ''R'')] \<and>
   lg_completed (link_history 0 new_gateway new_log failing_events) @ [to_proto (demo_robot_command ''R'')] =
     lg_accepted (link_history 0 new_gateway new_log failing_events)"
proof -
  have kept: "contract_kept new_gateway failing_events"
    by (simp add: failing_events_def new_gateway_def gateway_defs)
  have last: "map_of (gw_reactors (fst (run gateway_step new_gateway failing_events))) 0 = Some
      \<lparr>re_robot_id = ''R'', re_outgoing_queue = [to_proto (demo_robot_command ''R'')], re_writing = False,
       re_registered = True, re_reading = True, re_finishes = 1\<rparr>"
    by (simp add: failing_events_def new_gateway_def gateway_defs)
  have "lg_completed (link_history 0 new_gateway new_log failing_events) = [to_proto (demo_robot_command ''R'')]"
    by (simp add: failing_events_def new_gateway_def new_log_def log_event_def gateway_defs)
  with commands_written_in_order[OF kept last] show ?thesis by (simp add: Let_def)
qed

theorem relink_orphans_robot_witness:
  "snd (gateway_SendCommand (demo_robot_command ''R'')
     (fst (run gateway_step linked_gateway
       [ReadDone 1 (Some (UpTelemetry (demo_uplink ''R''))), ReadDone 0 None, Done 0, LinkOpened,
        ReadDone 2 (Some (UpTelemetry (demo_uplink ''S'')))]))) = [SendReturns False]"
proof -
  let ?r = "\<lparr>re_robot_id = '''', re_outgoing_queue = [], re_writing = False, re_registered = False,
              re_reading = True, re_finishes = 0\<rparr>"
  have at: "map_of (gw_registry linked_gateway) ''R'' = Some 0" "map_of (gw_reactors linked_gateway) 1 = Some ?r"
    "\<not> re_registered ?r" "pt_robot_id (demo_uplink ''R'') = ''R''"
    by (simp_all add: linked_gateway_def)
  have evs: "contract_kept linked_gateway (ReadDone 1 (Some (UpTelemetry (demo_uplink ''R''))) # [ReadDone 0 None] @ Done 0 #
      [LinkOpened, ReadDone 2 (Some (UpTelemetry (demo_uplink ''S'')))])"
    by (simp add: linked_gateway_def gateway_defs)
  have only: "only_from [0, 1] ''R'' ([ReadDone 0 None] @ [LinkOpened, ReadDone 2 (Some (UpTelemetry (demo_uplink ''S'')))])"
    by (simp add: only_from_def)
  from relink_orphans_robot[OF linked_gateway_run at evs only refl, of "demo_robot_command ''R''"] show ?thesis
    by (simp del: run.simps(2))
qed

theorem failed_link_finished_twice_witness:
  "snd (run gateway_step (fst (gateway_step linked_gateway (Send (demo_robot_command ''R''))))
     [ReadDone 0 None, WriteDone 0 False]) = [Finish 0 True, Finish 0 False]"
proof -
  let ?g = "fst (gateway_step linked_gateway (Send (demo_robot_command ''R'')))"
  let ?r = "\<lparr>re_robot_id = ''R'', re_outgoing_queue = [to_proto (demo_robot_command ''R'')], re_writing = True,
              re_registered = True, re_reading = True, re_finishes = 0\<rparr>"
  have "map_of (gw_reactors ?g) 0 = Some ?r" "re_reading ?r" "re_writing ?r"
    by (simp_all add: linked_gateway_def gateway_defs)
  from failed_link_finished_twice[OF this] show ?thesis by blast
qed

end
