(* ===== verification/OperatorFeed.thy ===== *)
theory OperatorFeed
  imports TrackStore LinkWatchdog CommandTracker RobotGateway
begin

text \<open>
  The operator side of the C2 server: \<open>src/c2_server/operator_feed_service.cpp\<close> and the callbacks that
  \<open>src/c2_server/main.cpp\<close> wires to the gateway. First each handler as if it ran alone, then the
  threads, whose steps interleave between the locks of the organs. The messages of the operator
  seam are the wire types of the bridge, which mirror the protocol file field by field; a
  sequence number is read as a number there.
\<close>

section \<open>Translation\<close>

record proto_operator_command =
  poc_command_id :: string
  poc_timestamp :: timestamp
  poc_expiry :: timestamp
  poc_targets :: "string list"
  poc_set_parameters :: "params option"

definition toProtobufTelemetry :: "robot_telemetry \<Rightarrow> telemetry" where
  "toProtobufTelemetry r =
     \<lparr>tl_robot_id = rt_robot_id r, tl_seq = unat (rt_seq r),
      tl_timestamp = Some (toProtobufTimestamp (rt_timestamp r)),
      tl_x = rt_x r, tl_y = rt_y r, tl_heading = rt_heading r, tl_speed = rt_speed r, tl_radius = rt_radius r\<rparr>"

fun toProtobufLinkStatus :: "link_band \<Rightarrow> link_status" where
  "toProtobufLinkStatus LIVE = LINK_LIVE"
| "toProtobufLinkStatus STALE = LINK_STALE"
| "toProtobufLinkStatus LOST = LINK_LOST"

definition toProtobufRobot :: "link_watchdog \<Rightarrow> int \<Rightarrow> robot_telemetry \<Rightarrow> robot_state" where
  "toProtobufRobot w now t =
     (let health = wd_classify w (rt_robot_id t) now
      in \<lparr>rb_telemetry = toProtobufTelemetry t,
          rb_link_status = toProtobufLinkStatus (lh_status health), rb_age_ms = lh_age_ms health\<rparr>)"

definition toProtobufRobots :: "robot_telemetry list \<Rightarrow> int \<Rightarrow> link_watchdog \<Rightarrow> robot_state list" where
  "toProtobufRobots ts now w = map (toProtobufRobot w now) ts"

fun toProtobufCommandState :: "command_state \<Rightarrow> command_state" where
  "toProtobufCommandState CMD_APPLIED = CMD_APPLIED"
| "toProtobufCommandState CMD_EXPIRED = CMD_EXPIRED"
| "toProtobufCommandState CMD_PENDING = CMD_PENDING"
| "toProtobufCommandState CMD_ROBOT_OFFLINE = CMD_ROBOT_OFFLINE"
| "toProtobufCommandState CMD_SENT = CMD_SENT"
| "toProtobufCommandState CMD_REJECTED = CMD_REJECTED"
| "toProtobufCommandState CMD_STATE_UNSPECIFIED = CMD_STATE_UNSPECIFIED"

definition toProtobufCommands :: "tracked_command list \<Rightarrow> command_status list" where
  "toProtobufCommands cs =
     map (\<lambda>tc. \<lparr>cs_command_id = tk_command_id tc,
                cs_targets = map (\<lambda>(i, ts). \<lparr>tg_robot_id = i, tg_state = toProtobufCommandState (ts_state ts),
                                             tg_detail = ts_detail ts\<rparr>) (tk_targets tc)\<rparr>) cs"

definition toDomainSetParameters :: "params \<Rightarrow> set_parameters" where
  "toDomainSetParameters i =
     \<lparr>sp_speed = pr_speed i, sp_radius = pr_radius i, sp_center_x = pr_center_x i,
      sp_center_y = pr_center_y i, sp_theta = pr_theta i\<rparr>"

definition toDomainOperatorCommand :: "proto_operator_command \<Rightarrow> params \<Rightarrow> op_command" where
  "toDomainOperatorCommand cmd sp =
     \<lparr>op_command_id = poc_command_id cmd, op_timestamp = toDomainTimestamp (poc_timestamp cmd),
      op_expiry = toDomainTimestamp (poc_expiry cmd), op_targets = poc_targets cmd,
      op_payload = toDomainSetParameters sp\<rparr>"

lemma toProtobufCommandState_id [simp]: "toProtobufCommandState s = s"
  by (cases s) simp_all

lemma params_through [simp]:
  "prc_set_parameters (to_proto rc) = Some p \<longleftrightarrow> rc_payload rc = toDomainSetParameters p"
  by (cases p) (auto simp: to_proto_def toDomainSetParameters_def set_parameters.equality)

section \<open>The handlers\<close>

record c2_server =
  c2_store :: track_store
  c2_watchdog :: link_watchdog
  c2_tracker :: command_tracker
  c2_gateway :: robot_gateway

definition new_c2_server :: c2_server where
  "new_c2_server = \<lparr>c2_store = [], c2_watchdog = new_watchdog STALE_AFTER LOST_AFTER,
     c2_tracker = new_tracker RETENTION, c2_gateway = new_gateway\<rparr>"

definition on_telemetry :: "int \<Rightarrow> robot_telemetry \<Rightarrow> c2_server \<Rightarrow> c2_server" where
  "on_telemetry now t c2 =
     c2\<lparr>c2_store := fst (upsert t (c2_store c2)),
         c2_watchdog := wd_record (rt_robot_id t) now (c2_watchdog c2)\<rparr>"

definition on_command_result :: "int \<Rightarrow> command_result \<Rightarrow> c2_server \<Rightarrow> c2_server" where
  "on_command_result now r c2 = c2\<lparr>c2_tracker := onCommandResult r now (c2_tracker c2)\<rparr>"

text \<open>One round of the loop of \<open>Subscribe\<close>.\<close>

definition assemble :: "int \<Rightarrow> int \<Rightarrow> nat \<Rightarrow> c2_server \<Rightarrow> c2_server \<times> swarm_state" where
  "assemble now_system now_steady sq c2 =
     (let telemetry = store_snapshot (c2_store c2);
          tracker = sweepExpired now_system (c2_tracker c2)
      in (c2\<lparr>c2_tracker := tracker\<rparr>,
          \<lparr>sw_seq = sq, sw_server_time = Some (toProtobufTimestamp now_system),
           sw_robots = toProtobufRobots telemetry now_steady (c2_watchdog c2),
           sw_commands = toProtobufCommands (tracker_snapshot tracker)\<rparr>))"

definition lost_at :: "int \<Rightarrow> link_watchdog \<Rightarrow> string \<Rightarrow> bool" where
  "lost_at now w i \<longleftrightarrow> lh_status (wd_classify w i now) = LOST"

text \<open>Dispatch through the gateway; what was accepted is marked as sent.\<close>

fun dispatch :: "robot_command list \<Rightarrow> c2_server \<Rightarrow> c2_server \<times> gateway_out list" where
  "dispatch [] c2 = (c2, [])"
| "dispatch (rc # rcs) c2 =
     (let (g, os) = gateway_SendCommand rc (c2_gateway c2);
          c2' = (if last os = SendReturns True
                 then c2\<lparr>c2_gateway := g, c2_tracker := onCommandSent (rc_command_id rc) (rc_robot_id rc) (c2_tracker c2)\<rparr>
                 else c2\<lparr>c2_gateway := g\<rparr>);
          (c2'', os') = dispatch rcs c2'
      in (c2'', os @ os'))"

definition feed_SendCommand ::
  "int \<Rightarrow> int \<Rightarrow> proto_operator_command \<Rightarrow> c2_server \<Rightarrow> c2_server \<times> gateway_out list \<times> (string + accepted)"
where
  "feed_SendCommand now_system now_steady cmd c2 =
     (case poc_set_parameters cmd of
        None \<Rightarrow> (c2, [], Inl ''only SetParameters payloads are supported'')
      | Some sp \<Rightarrow>
          (let (tracker, to_dispatch) =
                 onCommandSubmitted (toDomainOperatorCommand cmd sp) (lost_at now_steady (c2_watchdog c2))
                   now_system (c2_tracker c2);
               (c2', os) = dispatch to_dispatch (c2\<lparr>c2_tracker := tracker\<rparr>)
           in (c2', os, Inr \<lparr>ac_command_id = poc_command_id cmd, ac_accepted = True, ac_detail = ''''\<rparr>)))"

section \<open>What a frame shows\<close>

definition shown :: "swarm_state \<Rightarrow> string \<Rightarrow> string \<Rightarrow> command_state option" where
  "shown f c i =
     Option.bind (find (\<lambda>s. cs_command_id s = c) (sw_commands f))
       (\<lambda>s. map_option tg_state (find (\<lambda>t. tg_robot_id t = i) (cs_targets s)))"

lemma find_map_key: "find (\<lambda>x. key x = k) (map f m) = map_option f (find (\<lambda>y. key (f y) = k) m)"
  by (induction m) auto

lemma find_fst: "find (\<lambda>y. fst y = k) m = map_option (\<lambda>v. (k, v)) (map_of m k)"
  by (induction m) auto

lemma find_command:
  "\<forall>(c, tc) \<in> set m. tk_command_id tc = c \<Longrightarrow> find (\<lambda>y. tk_command_id (snd y) = c) m = map_option (\<lambda>v. (c, v)) (map_of m c)"
  by (induction m) auto

lemma shown_commands:
  assumes "tracker_inv t" "sw_commands f = toProtobufCommands (tracker_snapshot t)"
  shows "shown f c i = outcome t c i"
proof -
  have ids: "\<forall>(c, tc) \<in> set (ct_commands t). tk_command_id tc = c" using assms(1) by (auto simp: tracker_inv_def)
  show ?thesis
    by (cases "map_of (ct_commands t) c"; cases "map_of (tk_targets (the (map_of (ct_commands t) c))) i")
      (simp_all add: shown_def assms(2) toProtobufCommands_def tracker_snapshot_def find_map_key comp_def outcome_def
        split_beta find_command[OF ids] find_fst)
qed

section \<open>Dispatch\<close>

lemma gateway_SendCommand_last:
  assumes "gateway_inv g os"
  shows "last (snd (gateway_SendCommand cmd g)) = SendReturns (map_of (gw_registry g) (rc_robot_id cmd) \<noteq> None)"
  using assms by (fastforce simp: gateway_SendCommand_def gateway_inv_def split_beta split: option.split)

lemma gateway_SendCommand_registry [simp]: "gw_registry (fst (gateway_SendCommand cmd g)) = gw_registry g"
  by (simp add: gateway_SendCommand_def split_beta split: option.split)

lemma outcome_dispatch:
  "gateway_inv (c2_gateway c2) os \<Longrightarrow> \<forall>rc \<in> set rcs. rc_command_id rc = c \<Longrightarrow>
     outcome (c2_tracker (fst (dispatch rcs c2))) c i =
       (if outcome (c2_tracker c2) c i = Some CMD_PENDING \<and> i \<in> rc_robot_id ` set rcs \<and>
           map_of (gw_registry (c2_gateway c2)) i \<noteq> None
        then Some CMD_SENT else outcome (c2_tracker c2) c i)"
proof (induction rcs arbitrary: c2 os)
  case (Cons rc rcs)
  let ?g = "fst (gateway_SendCommand rc (c2_gateway c2))"
  have inv: "gateway_inv ?g (os @ snd (gateway_SendCommand rc (c2_gateway c2)))"
    using gateway_inv_step[OF Cons.prems(1), of "Send rc"] by simp
  note last = gateway_SendCommand_last[OF Cons.prems(1), of rc]
  from Cons.prems(2) have c: "rc_command_id rc = c" by simp
  show ?case
  proof (cases "map_of (gw_registry (c2_gateway c2)) (rc_robot_id rc)")
    case None
    from Cons.IH[of "c2\<lparr>c2_gateway := ?g\<rparr>", OF _] inv Cons.prems(2) None last c show ?thesis
      by (auto simp: split_beta Let_def)
  next
    case (Some n)
    let ?c2 = "c2\<lparr>c2_gateway := ?g, c2_tracker := onCommandSent (rc_command_id rc) (rc_robot_id rc) (c2_tracker c2)\<rparr>"
    from Cons.IH[of ?c2, OF _] inv Cons.prems(2) Some last c show ?thesis
      by (auto simp: split_beta Let_def outcome_sent)
  qed
qed simp

lemma tracker_inv_dispatch: "tracker_inv (c2_tracker c2) \<Longrightarrow> tracker_inv (c2_tracker (fst (dispatch rcs c2)))"
  by (induction rcs arbitrary: c2) (auto simp: split_beta Let_def sent_inv)

lemma dispatch_frame [simp]:
  "c2_store (fst (dispatch rcs c2)) = c2_store c2" "c2_watchdog (fst (dispatch rcs c2)) = c2_watchdog c2"
  by (induction rcs arbitrary: c2) (auto simp: split_beta Let_def)

lemma outcome_feed:
  assumes "gateway_inv (c2_gateway c2) os" "map_of (ct_commands (c2_tracker c2)) (poc_command_id cmd) = None"
    "poc_set_parameters cmd = Some sp"
  shows "outcome (c2_tracker (fst (feed_SendCommand now_system now_steady cmd c2))) (poc_command_id cmd) i =
    (if i \<notin> set (poc_targets cmd) then None
     else if lost_at now_steady (c2_watchdog c2) i then Some CMD_ROBOT_OFFLINE
     else if map_of (gw_registry (c2_gateway c2)) i = None then Some CMD_PENDING
     else Some CMD_SENT)"
proof -
  let ?op = "toDomainOperatorCommand cmd sp" and ?off = "lost_at now_steady (c2_watchdog c2)"
  let ?rcs = "snd (onCommandSubmitted ?op ?off now_system (c2_tracker c2))"
  have op: "op_command_id ?op = poc_command_id cmd" "op_targets ?op = poc_targets cmd"
    by (simp_all add: toDomainOperatorCommand_def)
  have rcs: "?rcs = map (robot_command_for ?op) (filter (\<lambda>i. \<not> ?off i) (poc_targets cmd))"
    by (simp add: submitted_eq op)
  have ids: "\<forall>rc \<in> set ?rcs. rc_command_id rc = poc_command_id cmd"
    unfolding rcs by (simp add: robot_command_for_def op)
  have robots: "rc_robot_id ` set ?rcs = {i \<in> set (poc_targets cmd). \<not> ?off i}"
    unfolding rcs by (auto simp: robot_command_for_def image_iff)
  have "outcome (c2_tracker (fst (feed_SendCommand now_system now_steady cmd c2))) (poc_command_id cmd) i =
    outcome (c2_tracker (fst (dispatch ?rcs (c2\<lparr>c2_tracker := fst (onCommandSubmitted ?op ?off now_system (c2_tracker c2))\<rparr>))))
      (poc_command_id cmd) i"
    by (simp add: feed_SendCommand_def assms(3) split_beta Let_def)
  also have "\<dots> = (if i \<notin> set (poc_targets cmd) then None
     else if ?off i then Some CMD_ROBOT_OFFLINE
     else if map_of (gw_registry (c2_gateway c2)) i = None then Some CMD_PENDING
     else Some CMD_SENT)"
    using assms(1,2) ids robots op
    by (subst outcome_dispatch[where os = os]) (auto simp: outcome_submitted ts_state_born)
  finally show ?thesis .
qed

section \<open>Frames\<close>

lemma shown_assemble:
  "tracker_inv (c2_tracker c2) \<Longrightarrow>
     shown (snd (assemble sys steady q c2)) c i = outcome (sweepExpired sys (c2_tracker c2)) c i"
  by (rule shown_commands[OF sweep_inv]) (simp_all add: assemble_def Let_def)

lemma swept_terminal:
  assumes "tracker_inv t" "map_of (ct_commands t) c = Some tc" "tk_expiry tc \<le> now" "outcome (sweepExpired now t) c i = Some s"
  shows "isTerminal s"
proof -
  from assms tracker_inv_command[OF assms(1,2)] have all: "all_terminal (expire_command now tc)"
    using expired_terminal by blast
  from assms(4) obtain ts where "map_of (tk_targets (expire_command now tc)) i = Some ts" "s = ts_state ts"
    by (auto simp: outcome_def map_of_swept[OF assms(1)] assms(2) bind_eq_Some_conv split: if_split_asm simp del: expire_fields)
  with all map_of_SomeD show ?thesis unfolding all_terminal_def by fastforce
qed

section \<open>Properties\<close>

definition deadlines :: "string \<Rightarrow> command_tracker \<Rightarrow> (int \<times> int option) option" where
  "deadlines c t = map_option (\<lambda>tc. (tk_expiry tc, tk_completed_at tc)) (map_of (ct_commands t) c)"

lemma deadlines_sent [simp]: "deadlines c (onCommandSent d i t) = deadlines c t"
  by (auto simp: deadlines_def onCommandSent_def split: option.split)

lemma deadlines_dispatch [simp]: "deadlines c (c2_tracker (fst (dispatch rcs c2))) = deadlines c (c2_tracker c2)"
  by (induction rcs arbitrary: c2) (simp_all add: split_beta Let_def)

lemma outcome_swept:
  assumes "tracker_inv t" "deadlines c t = Some (expiry, completed)" "now < expiry"
    "completed = None \<or> completed = Some k" "now - k < ct_retention t * ns_per_ms"
  shows "outcome (sweepExpired now t) c i = outcome t c i"
  using assms(2-5)
  by (auto simp: deadlines_def outcome_def map_of_swept[OF assms(1)] expire_command_def retained_def)

lemma retention_dispatch [simp]: "ct_retention (c2_tracker (fst (dispatch rcs c2))) = ct_retention (c2_tracker c2)"
proof (induction rcs arbitrary: c2)
  case (Cons rc rcs)
  have "ct_retention (onCommandSent c i t) = ct_retention t" for c i t
    by (simp add: onCommandSent_def split: option.split)
  with Cons show ?case by (simp add: split_beta Let_def)
qed simp

text \<open>C23: What an operator sees of a new command at once: the first frame after \<open>SendCommand\<close>, within the
  command's validity, shows each target ROBOT_OFFLINE if its link is LOST, SENT if the gateway has
  its robot registered and PENDING if not, and shows nobody else, whatever the gateway, the
  tracker and the watchdog have been through.\<close>

theorem first_frame_after_command:
  assumes "gateway_run (c2_gateway c2) os" "c2_tracker c2 = tracker_after es"
    "map_of (ct_commands (c2_tracker c2)) (poc_command_id cmd) = None" "poc_set_parameters cmd = Some sp"
    and "shown_at < toDomainTimestamp (poc_expiry cmd)" "shown_at - submitted < 10000000000"
  shows "shown (snd (assemble shown_at steady' q (fst (feed_SendCommand submitted steady cmd c2)))) (poc_command_id cmd) i =
    (if i \<notin> set (poc_targets cmd) then None
     else if lost_at steady (c2_watchdog c2) i then Some CMD_ROBOT_OFFLINE
     else if map_of (gw_registry (c2_gateway c2)) i = None then Some CMD_PENDING
     else Some CMD_SENT)"
proof -
  let ?op = "toDomainOperatorCommand cmd sp" and ?off = "lost_at steady (c2_watchdog c2)"
  let ?sub = "onCommandSubmitted ?op ?off submitted (c2_tracker c2)"
  let ?c2 = "fst (feed_SendCommand submitted steady cmd c2)"
  have c2': "?c2 = fst (dispatch (snd ?sub) (c2\<lparr>c2_tracker := fst ?sub\<rparr>))"
    by (simp add: feed_SendCommand_def assms(4) split_beta Let_def)
  have inv: "tracker_inv (c2_tracker ?c2)"
    unfolding c2' using assms(2) tracker_after_inv[of es] by (simp add: tracker_inv_dispatch submit_inv)
  have op: "op_command_id ?op = poc_command_id cmd" "op_expiry ?op = toDomainTimestamp (poc_expiry cmd)"
    by (simp_all add: toDomainOperatorCommand_def)
  have "tk_completed_at (submitted_command ?op ?off submitted) \<in> {None, Some submitted}"
    by (auto simp: submitted_command_def refreshCompletion_def)
  moreover have "deadlines (poc_command_id cmd) (c2_tracker ?c2) =
      Some (toDomainTimestamp (poc_expiry cmd), tk_completed_at (submitted_command ?op ?off submitted))"
    unfolding c2' using assms(3)
    by (simp add: deadlines_def[of _ "fst ?sub"]) (simp add: submitted_eq op map_of_emplace submitted_command_def)
  moreover have "ct_retention (c2_tracker ?c2) = RETENTION"
    unfolding c2' using assms(2) by (simp add: submitted_eq)
  ultimately have "outcome (sweepExpired shown_at (c2_tracker ?c2)) (poc_command_id cmd) i = outcome (c2_tracker ?c2) (poc_command_id cmd) i"
    using assms(5,6) by (intro outcome_swept[OF inv]) (auto simp: RETENTION_def)
  with shown_assemble[OF inv] outcome_feed[OF gateway_run_inv[OF assms(1)] assms(3,4)] show ?thesis by simp
qed

definition demo_operator_command :: proto_operator_command where
  "demo_operator_command = \<lparr>poc_command_id = ''C'', poc_timestamp = \<lparr>seconds = 0, nanos = 0\<rparr>,
     poc_expiry = \<lparr>seconds = 10, nanos = 0\<rparr>, poc_targets = [''R''], poc_set_parameters = Some no_params\<rparr>"

definition demo_c2 :: c2_server where
  "demo_c2 = new_c2_server\<lparr>c2_gateway := linked_gateway, c2_watchdog := wd_record ''R'' 0 (new_watchdog STALE_AFTER LOST_AFTER)\<rparr>"

theorem first_frame_after_command_witness:
  "shown (snd (assemble 9 9 0 (fst (feed_SendCommand 5 5 demo_operator_command demo_c2)))) ''C'' ''R'' = Some CMD_SENT"
proof -
  have "gateway_run (c2_gateway demo_c2) (snd (run gateway_step new_gateway linked_events))"
    using linked_gateway_run by (simp add: demo_c2_def)
  moreover have "c2_tracker demo_c2 = tracker_after []" by (simp add: demo_c2_def new_c2_server_def tracker_after_def)
  moreover have "map_of (ct_commands (c2_tracker demo_c2)) (poc_command_id demo_operator_command) = None"
    by (simp add: demo_c2_def new_c2_server_def new_tracker_def)
  moreover have "poc_set_parameters demo_operator_command = Some no_params" by (simp add: demo_operator_command_def)
  moreover have "9 < toDomainTimestamp (poc_expiry demo_operator_command)" "(9::int) - 5 < 10000000000"
    by (simp_all add: demo_operator_command_def toDomainTimestamp_def)
  moreover have "\<not> lost_at 5 (c2_watchdog demo_c2) ''R''"
    by (simp add: lost_at_def demo_c2_def wd_classify_def Let_def duration_cast_def signed_divide_int_def new_watchdog_def
        STALE_AFTER_def LOST_AFTER_def)
  moreover have "map_of (gw_registry (c2_gateway demo_c2)) ''R'' \<noteq> None" by (simp add: demo_c2_def linked_gateway_def)
  moreover have "''R'' \<in> set (poc_targets demo_operator_command)" "poc_command_id demo_operator_command = ''C''"
    by (simp_all add: demo_operator_command_def)
  ultimately show ?thesis using first_frame_after_command[of demo_c2 _ "[]" demo_operator_command no_params 9 5 9 0 5 "''R''"] by simp
qed

end
