(* ===== verification/C2Threads.thy ===== *)
theory C2Threads
  imports OperatorFeed
begin

text \<open>
  The threads of \<open>src/c2_server\<close>: the telemetry callbacks of the links (store, then record), the calls of
  \<open>SendCommand\<close> and of the result callback into the tracker, and one loop of \<open>Subscribe\<close> per
  subscriber. Each organ is protected by its own lock, so the steps between locks interleave in any
  order; a step here is what happens under one lock. That a snapshot of the store, which takes
  more than one lock, may be taken as one step is what \<open>TrackStore\<close> shows.
\<close>

section \<open>State\<close>

datatype feed_pc = FeedTop | FeedClassify | FeedSwept

record feed_thread =
  ft_seq :: nat
  ft_system :: int
  ft_steady :: int
  ft_todo :: "robot_telemetry list"
  ft_robots :: "robot_state list"
  ft_pc :: feed_pc

record c2_core =
  co_store :: track_store
  co_watchdog :: link_watchdog
  co_tracker :: command_tracker
  co_stored :: "string list"
  co_feeds :: "(nat \<times> feed_thread) list"

definition new_core :: c2_core where
  "new_core = \<lparr>co_store = [], co_watchdog = new_watchdog STALE_AFTER LOST_AFTER, co_tracker = new_tracker RETENTION,
     co_stored = [], co_feeds = []\<rparr>"

datatype core_event =
    CoStored robot_telemetry
  | CoRecorded nat int
  | CoSubmit op_command "string \<Rightarrow> bool" int
  | CoSent string string
  | CoResult command_result int
  | CoSubscribe nat
  | CoSnapshot nat int int
  | CoClassify nat
  | CoSweep nat
  | CoFrame nat bool

definition put_feed :: "nat \<Rightarrow> feed_thread \<Rightarrow> c2_core \<Rightarrow> c2_core" where
  "put_feed n ft s = s\<lparr>co_feeds := AList.update n ft (co_feeds s)\<rparr>"

definition feed_in :: "feed_pc \<Rightarrow> nat \<Rightarrow> c2_core \<Rightarrow> feed_thread option" where
  "feed_in pc n s = (case map_of (co_feeds s) n of
     Some ft \<Rightarrow> if ft_pc ft = pc then Some ft else None | None \<Rightarrow> None)"

definition call_tracker :: "tracker_event \<Rightarrow> c2_core \<Rightarrow> c2_core" where
  "call_tracker e s = s\<lparr>co_tracker := fst (tracker_step (co_tracker s) e)\<rparr>"

fun core_step :: "c2_core \<Rightarrow> core_event \<Rightarrow> c2_core \<times> (nat \<times> swarm_state) list" where
  "core_step s (CoStored t) =
     (s\<lparr>co_store := fst (upsert t (co_store s)), co_stored := co_stored s @ [rt_robot_id t]\<rparr>, [])"
| "core_step s (CoRecorded k now) =
     (if k < length (co_stored s)
      then (s\<lparr>co_watchdog := wd_record (co_stored s ! k) now (co_watchdog s), co_stored := remove_nth k (co_stored s)\<rparr>, [])
      else (s, []))"
| "core_step s (CoSubmit cmd off now) = (call_tracker (Submitted cmd off now) s, [])"
| "core_step s (CoSent c i) = (call_tracker (Sent c i) s, [])"
| "core_step s (CoResult r now) = (call_tracker (Resulted r now) s, [])"
| "core_step s (CoSubscribe n) =
     (if map_of (co_feeds s) n = None
      then (put_feed n \<lparr>ft_seq = 0, ft_system = 0, ft_steady = 0, ft_todo = [], ft_robots = [], ft_pc = FeedTop\<rparr> s, [])
      else (s, []))"
| "core_step s (CoSnapshot n system steady) =
     (case feed_in FeedTop n s of
        Some ft \<Rightarrow> (put_feed n (ft\<lparr>ft_system := system, ft_steady := steady, ft_todo := store_snapshot (co_store s),
                                 ft_robots := [], ft_pc := FeedClassify\<rparr>) s, [])
      | None \<Rightarrow> (s, []))"
| "core_step s (CoClassify n) =
     (case feed_in FeedClassify n s of
        Some ft \<Rightarrow>
          (case ft_todo ft of
             t # ts \<Rightarrow> (put_feed n (ft\<lparr>ft_todo := ts,
                 ft_robots := ft_robots ft @ [toProtobufRobot (co_watchdog s) (ft_steady ft) t]\<rparr>) s, [])
           | [] \<Rightarrow> (s, []))
      | None \<Rightarrow> (s, []))"
| "core_step s (CoSweep n) =
     (case feed_in FeedClassify n s of
        Some ft \<Rightarrow>
          (if ft_todo ft = [] then (put_feed n (ft\<lparr>ft_pc := FeedSwept\<rparr>) (call_tracker (Swept (ft_system ft)) s), [])
           else (s, []))
      | None \<Rightarrow> (s, []))"
| "core_step s (CoFrame n ok) =
     (case feed_in FeedSwept n s of
        Some ft \<Rightarrow>
          ((if ok then put_feed n (ft\<lparr>ft_seq := Suc (ft_seq ft), ft_pc := FeedTop\<rparr>) s
            else s\<lparr>co_feeds := AList.delete n (co_feeds s)\<rparr>),
           [(n, \<lparr>sw_seq = ft_seq ft, sw_server_time = Some (toProtobufTimestamp (ft_system ft)),
                 sw_robots = ft_robots ft, sw_commands = toProtobufCommands (tracker_snapshot (co_tracker s))\<rparr>)])
      | None \<Rightarrow> (s, []))"

section \<open>Frames and the lifecycle\<close>

fun submitted_id :: "core_event \<Rightarrow> string list" where
  "submitted_id (CoSubmit cmd _ _) = [op_command_id cmd]"
| "submitted_id _ = []"

definition submitted_ids :: "core_event list \<Rightarrow> string list" where
  "submitted_ids es = concat (map submitted_id es)"

text \<open>What a later frame may show of what an earlier one has shown.\<close>

definition later_frame :: "swarm_state \<Rightarrow> swarm_state \<Rightarrow> bool" where
  "later_frame f f' \<longleftrightarrow> (\<forall>c i a b. shown f c i = Some a \<longrightarrow> shown f' c i = Some b \<longrightarrow> lifecycle\<^sup>*\<^sup>* a b)"

definition frames_inv :: "string set \<Rightarrow> c2_core \<Rightarrow> swarm_state list \<Rightarrow> bool" where
  "frames_inv ids s fs \<longleftrightarrow>
     tracker_inv (co_tracker s) \<and>
     (\<forall>c i a. outcome (co_tracker s) c i = Some a \<longrightarrow> c \<in> ids) \<and>
     (\<forall>f \<in> set fs. \<forall>c i a. shown f c i = Some a \<longrightarrow> c \<in> ids \<and>
        (\<forall>b. outcome (co_tracker s) c i = Some b \<longrightarrow> lifecycle\<^sup>*\<^sup>* a b)) \<and>
     sorted_wrt later_frame fs"

lemma frames_inv_mono: "frames_inv ids s fs \<Longrightarrow> co_tracker s' = co_tracker s \<Longrightarrow> frames_inv ids s' fs"
  by (simp add: frames_inv_def)

lemma frames_inv_tracker:
  assumes inv: "frames_inv ids s fs" and once: "\<And>cmd off now. e = Submitted cmd off now \<Longrightarrow> op_command_id cmd \<notin> ids"
    and ids': "ids' = ids \<union> (case e of Submitted cmd _ _ \<Rightarrow> {op_command_id cmd} | _ \<Rightarrow> {})"
    and s': "co_tracker s' = fst (tracker_step (co_tracker s) e)"
  shows "frames_inv ids' s' fs"
proof -
  from inv have t: "tracker_inv (co_tracker s)" by (simp add: frames_inv_def)
  note step = target_step[OF t, of e]
  have "c \<in> ids'" if "outcome (co_tracker s') c i = Some a" for c i a
    using step[of c i a] that inv by (auto simp: s' ids' frames_inv_def)
  moreover have "lifecycle\<^sup>*\<^sup>* a b" if f: "f \<in> set fs" "shown f c i = Some a" "outcome (co_tracker s') c i = Some b" for f c i a b
  proof -
    from inv f have c: "c \<in> ids" and before: "\<And>b. outcome (co_tracker s) c i = Some b \<Longrightarrow> lifecycle\<^sup>*\<^sup>* a b"
      by (auto simp: frames_inv_def)
    with step[of c i b] f(3) once obtain b' where "outcome (co_tracker s) c i = Some b'" "b = b' \<or> lifecycle b' b"
      by (auto simp: s')
    with before show ?thesis by (auto intro: rtranclp.rtrancl_into_rtrancl)
  qed
  moreover have "ids \<subseteq> ids'" by (auto simp: ids')
  ultimately show ?thesis
    using inv tracker_inv_step[OF t, of e] by (auto simp: frames_inv_def s')
qed

lemma frames_inv_frame:
  assumes inv: "frames_inv ids s fs" and "sw_commands f = toProtobufCommands (tracker_snapshot (co_tracker s))"
    and "co_tracker s' = co_tracker s"
  shows "frames_inv ids s' (fs @ [f])"
proof -
  have "shown f c i = outcome (co_tracker s) c i" for c i
    using inv assms(2) by (intro shown_commands) (simp_all add: frames_inv_def)
  with inv assms(3) show ?thesis by (auto simp: frames_inv_def sorted_wrt_append later_frame_def)
qed

lemma put_feed_tracker [simp]: "co_tracker (put_feed n ft s) = co_tracker s"
  by (simp add: put_feed_def)

lemma frames_inv_call:
  assumes "frames_inv ids s fs" "\<And>cmd off now. e = Submitted cmd off now \<Longrightarrow> op_command_id cmd \<notin> ids"
  shows "frames_inv (ids \<union> (case e of Submitted cmd _ _ \<Rightarrow> {op_command_id cmd} | _ \<Rightarrow> {})) (call_tracker e s) fs"
  by (rule frames_inv_tracker[OF assms refl]) (simp_all add: call_tracker_def)

lemma frames_inv_step:
  assumes inv: "frames_inv ids s fs" and new: "set (submitted_id e) \<inter> ids = {}"
  shows "frames_inv (ids \<union> set (submitted_id e)) (fst (core_step s e)) (fs @ map snd (snd (core_step s e)))"
proof (cases e)
  case (CoSubmit cmd off now)
  with frames_inv_call[OF inv, of "Submitted cmd off now"] new show ?thesis by simp
next
  case (CoSent c i)
  with frames_inv_call[OF inv, of "Sent c i"] show ?thesis by simp
next
  case (CoResult r now)
  with frames_inv_call[OF inv, of "Resulted r now"] show ?thesis by simp
next
  case (CoSweep n)
  show ?thesis
  proof (cases "feed_in FeedClassify n s")
    case (Some ft)
    from frames_inv_call[OF inv, of "Swept (ft_system ft)"] have "frames_inv ids (call_tracker (Swept (ft_system ft)) s) fs"
      by simp
    with Some inv CoSweep show ?thesis by (auto elim: frames_inv_mono)
  qed (use CoSweep inv in simp)
next
  case (CoFrame n ok)
  with inv show ?thesis by (auto split: option.split intro!: frames_inv_frame)
qed (use inv in \<open>auto split: option.split list.split elim: frames_inv_mono\<close>)

lemma frames_inv_run:
  "frames_inv ids s fs \<Longrightarrow> distinct (submitted_ids es) \<Longrightarrow> set (submitted_ids es) \<inter> ids = {} \<Longrightarrow>
     frames_inv (ids \<union> set (submitted_ids es)) (fst (run core_step s es)) (fs @ map snd (snd (run core_step s es)))"
proof (induction es arbitrary: ids s fs)
  case Nil
  then show ?case by (simp add: submitted_ids_def)
next
  case (Cons e es)
  from Cons.prems have "frames_inv (ids \<union> set (submitted_id e)) (fst (core_step s e)) (fs @ map snd (snd (core_step s e)))"
    by (intro frames_inv_step) (auto simp: submitted_ids_def)
  from Cons.IH[OF this] Cons.prems show ?case
    by (auto simp: submitted_ids_def split_beta Un_assoc disjoint_iff)
qed

lemma frames_inv_new: "frames_inv {} new_core []"
  using tracker_inv_new[of RETENTION]
  by (simp add: frames_inv_def new_core_def) (simp add: outcome_def new_tracker_def)

section \<open>A feed that is not disturbed\<close>

text \<open>The steps of one round of a feed, and the server's organs as the handlers see them.\<close>

definition feed_round :: "nat \<Rightarrow> int \<Rightarrow> int \<Rightarrow> nat \<Rightarrow> core_event list" where
  "feed_round n system steady k =
     CoSnapshot n system steady # replicate k (CoClassify n) @ [CoSweep n, CoFrame n True]"

definition organs :: "robot_gateway \<Rightarrow> c2_core \<Rightarrow> c2_server" where
  "organs g s = \<lparr>c2_store = co_store s, c2_watchdog = co_watchdog s, c2_tracker = co_tracker s, c2_gateway = g\<rparr>"

lemma put_feed_simps [simp]:
  "put_feed n a (put_feed n b s) = put_feed n a s"
  "map_of (co_feeds (put_feed n a s)) = (map_of (co_feeds s))(n \<mapsto> a)"
  "co_store (put_feed n a s) = co_store s" "co_watchdog (put_feed n a s) = co_watchdog s"
  by (simp_all add: put_feed_def)

lemma put_feed_same: "map_of (co_feeds s) n = Some a \<Longrightarrow> put_feed n a s = s"
  by (simp add: put_feed_def update_triv)

lemma feed_in_put [simp]: "feed_in pc n (put_feed n a s) = (if ft_pc a = pc then Some a else None)"
  by (simp add: feed_in_def)

lemma feed_inD: "feed_in pc n s = Some ft \<Longrightarrow> map_of (co_feeds s) n = Some ft \<and> ft_pc ft = pc"
  by (auto simp: feed_in_def split: option.splits if_split_asm)

lemma classify_run:
  assumes "feed_in FeedClassify n s = Some ft"
  shows "run core_step s (replicate (length (ft_todo ft)) (CoClassify n)) =
    (put_feed n (ft\<lparr>ft_todo := [], ft_robots := ft_robots ft @ map (toProtobufRobot (co_watchdog s) (ft_steady ft)) (ft_todo ft)\<rparr>) s, [])"
  using assms
proof (induction "ft_todo ft" arbitrary: s ft)
  case Nil
  from feed_inD[OF Nil.prems] Nil.hyps show ?case by (simp add: put_feed_same)
next
  case (Cons t ts)
  from feed_inD[OF Cons.prems] have pc: "ft_pc ft = FeedClassify" by blast
  let ?ft = "ft\<lparr>ft_todo := ts, ft_robots := ft_robots ft @ [toProtobufRobot (co_watchdog s) (ft_steady ft) t]\<rparr>"
  have "run core_step (put_feed n ?ft s) (replicate (length (ft_todo ?ft)) (CoClassify n)) =
    (put_feed n (?ft\<lparr>ft_todo := [], ft_robots := ft_robots ?ft @
       map (toProtobufRobot (co_watchdog (put_feed n ?ft s)) (ft_steady ?ft)) (ft_todo ?ft)\<rparr>) (put_feed n ?ft s), [])"
    by (rule Cons.hyps(1)) (simp_all add: pc)
  with Cons.prems show ?case by (simp add: Cons.hyps(2)[symmetric])
qed

lemma undisturbed_round:
  assumes "feed_in FeedTop n s = Some ft"
  shows "\<exists>s'. run core_step s (feed_round n system steady (store_size (co_store s))) =
      (s', [(n, snd (assemble system steady (ft_seq ft) (organs g s)))]) \<and>
    organs g s' = fst (assemble system steady (ft_seq ft) (organs g s)) \<and>
    feed_in FeedTop n s' = Some (ft\<lparr>ft_seq := Suc (ft_seq ft), ft_system := system, ft_steady := steady, ft_todo := [],
      ft_robots := sw_robots (snd (assemble system steady (ft_seq ft) (organs g s)))\<rparr>)"
proof -
  let ?ft = "ft\<lparr>ft_system := system, ft_steady := steady, ft_todo := store_snapshot (co_store s),
    ft_robots := [], ft_pc := FeedClassify\<rparr>"
  have len: "store_size (co_store s) = length (ft_todo ?ft)" by (simp add: store_size_def store_snapshot_def)
  have "feed_in FeedClassify n (put_feed n ?ft s) = Some ?ft" by simp
  from classify_run[OF this] feed_inD[OF assms] assms show ?thesis
    unfolding len
    by (simp add: feed_round_def run_append call_tracker_def assemble_def organs_def toProtobufRobots_def Let_def
        put_feed_def feed_in_def)
qed

section \<open>Properties\<close>

text \<open>C8: What the operators are shown never goes back: in every interleaving of the server's threads
  in which no command id is submitted twice, of any two frames (in particular of any two that one
  subscriber receives) the later shows every target in a state that the lifecycle reaches from the
  one the earlier showed; so a terminal state, once shown, is shown until the command is dropped.\<close>

theorem frames_follow_lifecycle:
  assumes "distinct (submitted_ids es)" "p < q" "q < length (snd (run core_step new_core es))"
    "shown (snd (snd (run core_step new_core es) ! p)) c i = Some a"
    "shown (snd (snd (run core_step new_core es) ! q)) c i = Some b"
  shows "lifecycle\<^sup>*\<^sup>* a b \<and> (isTerminal a \<longrightarrow> b = a)"
proof -
  have "sorted_wrt later_frame (map snd (snd (run core_step new_core es)))"
    using frames_inv_run[OF frames_inv_new assms(1)] by (simp add: frames_inv_def)
  from sorted_wrt_nth_less[OF this assms(2)] assms(3-5) less_trans[OF assms(2,3)] have "lifecycle\<^sup>*\<^sup>* a b"
    by (simp add: later_frame_def)
  moreover from this have "isTerminal a \<longrightarrow> b = a"
    using terminal_is_final by (cases rule: converse_rtranclpE) auto
  ultimately show ?thesis by blast
qed

definition demo_core_run :: "core_event list" where
  "demo_core_run =
     [CoStored (demo_sample ''R-01'' 0), CoSubmit demo_command (\<lambda>_. False) 0, CoSubscribe 0,
      CoSnapshot 0 1 1, CoClassify 0, CoSweep 0, CoFrame 0 True, CoRecorded 0 2, CoSent ''C1'' ''R-01'',
      CoSnapshot 0 3 3, CoClassify 0, CoSweep 0, CoFrame 0 True]"

theorem frames_follow_lifecycle_witness:
  "lifecycle\<^sup>*\<^sup>* CMD_PENDING CMD_SENT \<and>
   shown (snd (snd (run core_step new_core demo_core_run) ! 0)) ''C1'' ''R-01'' = Some CMD_PENDING \<and>
   shown (snd (snd (run core_step new_core demo_core_run) ! 1)) ''C1'' ''R-01'' = Some CMD_SENT"
proof -
  have "distinct (submitted_ids demo_core_run)" by (simp add: demo_core_run_def submitted_ids_def)
  moreover have "1 < length (snd (run core_step new_core demo_core_run))" by code_simp
  moreover have "shown (snd (snd (run core_step new_core demo_core_run) ! 0)) ''C1'' ''R-01'' = Some CMD_PENDING"
    by code_simp
  moreover have "shown (snd (snd (run core_step new_core demo_core_run) ! 1)) ''C1'' ''R-01'' = Some CMD_SENT"
    by code_simp
  ultimately show ?thesis
    using frames_follow_lifecycle[of demo_core_run 0 1 "''C1''" "''R-01''" CMD_PENDING CMD_SENT] by simp
qed

end
