(* ===== verification/RobotSim.thy ===== *)
theory RobotSim
  imports RobotGateway Orbit
begin

text \<open>
  \<open>src/robot_sim/main.cpp\<close>: one robot. The motion model and the application of a command are pure
  functions of the motion state and the monotonic clock; around them run two threads, a reader
  that applies commands and queues their results, and a writer that sends telemetry and drains
  the queue. Their steps interleave; a lock makes each access to the motion state or the queue
  atomic. The success of a write to the stream is an argument.
\<close>

section \<open>Motion\<close>

record motion_state =
  mo_cx :: jsnum
  mo_cy :: jsnum
  mo_radius :: jsnum
  mo_speed :: jsnum
  mo_theta0 :: jsnum
  mo_start :: int

definition seconds_between :: "int \<Rightarrow> int \<Rightarrow> jsnum" where
  "seconds_between start now = Fin (of_int (now - start) / of_int ns_per_s)"

definition mo_phase :: "motion_state \<Rightarrow> int \<Rightarrow> jsnum" where
  "mo_phase m now = mo_speed m / mo_radius m * seconds_between (mo_start m) now + mo_theta0 m"

definition computePosition :: "motion_state \<Rightarrow> int \<Rightarrow> jsnum \<times> jsnum \<times> jsnum" where
  "computePosition m now =
     (let phi = mo_phase m now
      in (mo_cx m + mo_radius m * js_cos phi, mo_cy m + mo_radius m * js_sin phi, phi + Fin (pi / 2)))"

definition sim_applyParams :: "int \<Rightarrow> params \<Rightarrow> motion_state \<Rightarrow> motion_state \<times> bool" where
  "sim_applyParams now sp m =
     (if (case pr_radius sp of Some v \<Rightarrow> v \<le> Fin 0 | None \<Rightarrow> False) then (m, False)
      else
        (let m0 = (if (pr_radius sp \<noteq> None \<or> pr_speed sp \<noteq> None) \<and> pr_theta sp = None
                   then m\<lparr>mo_start := now, mo_theta0 := mo_phase m now\<rparr> else m);
             m1 = (case pr_center_x sp of Some v \<Rightarrow> m0\<lparr>mo_cx := v\<rparr> | None \<Rightarrow> m0);
             m2 = (case pr_center_y sp of Some v \<Rightarrow> m1\<lparr>mo_cy := v\<rparr> | None \<Rightarrow> m1);
             m3 = (case pr_radius sp of Some v \<Rightarrow> m2\<lparr>mo_radius := v\<rparr> | None \<Rightarrow> m2);
             m4 = (case pr_speed sp of Some v \<Rightarrow> m3\<lparr>mo_speed := v\<rparr> | None \<Rightarrow> m3);
             m5 = (case pr_theta sp of Some v \<Rightarrow> m4\<lparr>mo_theta0 := v\<rparr> | None \<Rightarrow> m4)
         in (m5, True)))"

section \<open>The two threads\<close>

text \<open>\<open>rs_pending\<close> is the result the reader has made and not yet queued, \<open>rs_reading\<close> whether it is still
  in its loop, \<open>rs_pc\<close> where the writer is: at the top of its loop, draining the queue, or past the
  loop.\<close>

datatype writer_pc = AtTop | Draining | Exited

record robot_sim =
  rs_id :: string
  rs_motion :: motion_state
  rs_outgoing :: "proto_result list"
  rs_pending :: "proto_result option"
  rs_reading :: bool
  rs_running :: bool
  rs_seq :: "64 word"
  rs_pc :: writer_pc

definition new_robot_sim :: "string \<Rightarrow> jsnum \<Rightarrow> jsnum \<Rightarrow> jsnum \<Rightarrow> jsnum \<Rightarrow> jsnum \<Rightarrow> int \<Rightarrow> robot_sim" where
  "new_robot_sim i x0 y0 radius speed theta0 now =
     \<lparr>rs_id = i,
      rs_motion = \<lparr>mo_cx = x0, mo_cy = y0, mo_radius = radius, mo_speed = speed, mo_theta0 = theta0, mo_start = now\<rparr>,
      rs_outgoing = [], rs_pending = None, rs_reading = True, rs_running = True, rs_seq = 0, rs_pc = AtTop\<rparr>"

datatype sim_event =
    CommandRead proto_robot_command int
  | ResultQueued
  | ReadFailed
  | WriterTick int int bool
  | WriterDrain bool

definition apply_command :: "int \<Rightarrow> proto_robot_command \<Rightarrow> motion_state \<Rightarrow> motion_state \<times> bool" where
  "apply_command now cmd m =
     (case prc_set_parameters cmd of Some sp \<Rightarrow> sim_applyParams now sp m | None \<Rightarrow> (m, True))"

definition result_for :: "string \<Rightarrow> proto_robot_command \<Rightarrow> bool \<Rightarrow> proto_result" where
  "result_for i cmd applied =
     \<lparr>pres_command_id = prc_command_id cmd, pres_robot_id = i,
      pres_result = (if applied then 1 else 2), pres_detail = ''''\<rparr>"

definition sim_telemetry :: "robot_sim \<Rightarrow> int \<Rightarrow> int \<Rightarrow> proto_telemetry" where
  "sim_telemetry s now_steady now_system =
     (let (x, y, heading) = computePosition (rs_motion s) now_steady
      in \<lparr>pt_robot_id = rs_id s, pt_seq = rs_seq s, pt_timestamp = toProtobufTimestamp now_system,
          pt_x = x, pt_y = y, pt_heading = heading,
          pt_speed = mo_speed (rs_motion s), pt_radius = mo_radius (rs_motion s)\<rparr>)"

fun sim_step :: "robot_sim \<Rightarrow> sim_event \<Rightarrow> robot_sim \<times> uplink list" where
  "sim_step s (CommandRead cmd now) =
     (if rs_reading s \<and> rs_pending s = None then
        (let (m, applied) = apply_command now cmd (rs_motion s)
         in (s\<lparr>rs_motion := m, rs_pending := Some (result_for (rs_id s) cmd applied)\<rparr>, []))
      else (s, []))"
| "sim_step s ResultQueued =
     (case rs_pending s of
        Some r \<Rightarrow> (s\<lparr>rs_outgoing := rs_outgoing s @ [r], rs_pending := None\<rparr>, [])
      | None \<Rightarrow> (s, []))"
| "sim_step s ReadFailed = (if rs_reading s \<and> rs_pending s = None then (s\<lparr>rs_reading := False, rs_running := False\<rparr>, []) else (s, []))"
| "sim_step s (WriterTick now_steady now_system ok) =
     (if rs_pc s = AtTop then
        (if rs_running s then
           (s\<lparr>rs_seq := rs_seq s + 1, rs_pc := (if ok then Draining else Exited)\<rparr>,
            [UpTelemetry (sim_telemetry s now_steady now_system)])
         else (s\<lparr>rs_pc := Exited\<rparr>, []))
      else (s, []))"
| "sim_step s (WriterDrain ok) =
     (if rs_pc s = Draining then
        (case rs_outgoing s of
           [] \<Rightarrow> (s\<lparr>rs_pc := AtTop\<rparr>, [])
         | r # rs \<Rightarrow>
             (if ok then (s\<lparr>rs_outgoing := rs\<rparr>, [UpResult r])
              else (s\<lparr>rs_outgoing := rs, rs_running := False, rs_pc := AtTop\<rparr>, [UpResult r])))
      else (s, []))"

section \<open>Motion facts\<close>

definition motion_ok :: "motion_state \<Rightarrow> bool" where
  "motion_ok m \<longleftrightarrow> is_finite (mo_cx m) \<and> is_finite (mo_cy m) \<and> is_finite (mo_radius m) \<and>
     is_finite (mo_speed m) \<and> is_finite (mo_theta0 m) \<and> Fin 0 < mo_radius m"

definition accepts :: "params \<Rightarrow> bool" where
  "accepts sp \<longleftrightarrow> (case pr_radius sp of Some v \<Rightarrow> \<not> v \<le> Fin 0 | None \<Rightarrow> True)"

lemma applied_iff [simp]: "snd (sim_applyParams now sp m) \<longleftrightarrow> accepts sp"
  by (simp add: sim_applyParams_def accepts_def Let_def split: option.split)

lemma rejected_unchanged: "\<not> accepts sp \<Longrightarrow> fst (sim_applyParams now sp m) = m"
  by (simp add: sim_applyParams_def accepts_def split: option.splits)

lemma applied_fields:
  assumes "accepts sp"
  shows "mo_cx (fst (sim_applyParams now sp m)) = (case pr_center_x sp of Some v \<Rightarrow> v | None \<Rightarrow> mo_cx m)"
    "mo_cy (fst (sim_applyParams now sp m)) = (case pr_center_y sp of Some v \<Rightarrow> v | None \<Rightarrow> mo_cy m)"
    "mo_radius (fst (sim_applyParams now sp m)) = (case pr_radius sp of Some v \<Rightarrow> v | None \<Rightarrow> mo_radius m)"
    "mo_speed (fst (sim_applyParams now sp m)) = (case pr_speed sp of Some v \<Rightarrow> v | None \<Rightarrow> mo_speed m)"
  using assms by (auto simp: sim_applyParams_def accepts_def Let_def split: option.split)

lemma applied_phase_base:
  assumes "accepts sp"
  shows "mo_theta0 (fst (sim_applyParams now sp m)) =
      (case pr_theta sp of Some v \<Rightarrow> v
       | None \<Rightarrow> if pr_radius sp \<noteq> None \<or> pr_speed sp \<noteq> None then mo_phase m now else mo_theta0 m)"
    "mo_start (fst (sim_applyParams now sp m)) =
      (if pr_theta sp = None \<and> (pr_radius sp \<noteq> None \<or> pr_speed sp \<noteq> None) then now else mo_start m)"
  using assms by (auto simp: sim_applyParams_def accepts_def Let_def split: option.split)

text \<open>What a command asks of a motion, field by field: each parameter that is given is the new value
  and each other field is kept; the orbit phase is the given one, or, when the speed or the radius
  changes, the angle reached at that moment, from which the clock starts again.\<close>

definition moved_as_told :: "int \<Rightarrow> params \<Rightarrow> motion_state \<Rightarrow> motion_state \<Rightarrow> bool" where
  "moved_as_told now sp m m' \<longleftrightarrow>
     mo_cx m' = (case pr_center_x sp of Some v \<Rightarrow> v | None \<Rightarrow> mo_cx m) \<and>
     mo_cy m' = (case pr_center_y sp of Some v \<Rightarrow> v | None \<Rightarrow> mo_cy m) \<and>
     mo_radius m' = (case pr_radius sp of Some v \<Rightarrow> v | None \<Rightarrow> mo_radius m) \<and>
     mo_speed m' = (case pr_speed sp of Some v \<Rightarrow> v | None \<Rightarrow> mo_speed m) \<and>
     (case pr_theta sp of
        Some v \<Rightarrow> mo_theta0 m' = v \<and> mo_start m' = mo_start m
      | None \<Rightarrow>
          if pr_speed sp \<noteq> None \<or> pr_radius sp \<noteq> None
          then mo_theta0 m' = mo_speed m / mo_radius m * seconds_between (mo_start m) now + mo_theta0 m \<and> mo_start m' = now
          else mo_theta0 m' = mo_theta0 m \<and> mo_start m' = mo_start m)"

lemma applied_as_told: "accepts sp \<Longrightarrow> moved_as_told now sp m (fst (sim_applyParams now sp m))"
  by (auto simp: moved_as_told_def applied_fields applied_phase_base mo_phase_def split: option.split)

lemma motion_okE:
  assumes "motion_ok m"
  obtains cx cy R V th where "mo_cx m = Fin cx" "mo_cy m = Fin cy" "mo_radius m = Fin R" "mo_speed m = Fin V"
    "mo_theta0 m = Fin th" "0 < R"
  using assms by (auto simp: motion_ok_def is_finite_iff)

lemma mo_phase_finite: "motion_ok m \<Longrightarrow> is_finite (mo_phase m now)"
  by (erule motion_okE) (simp add: mo_phase_def seconds_between_def)

lemma motion_ok_applied:
  assumes "motion_ok m" "params_finite sp"
  shows "motion_ok (fst (sim_applyParams now sp m))"
proof (cases "accepts sp")
  case True
  have "Fin 0 < v" if "pr_radius sp = Some v" for v
    using True assms(2) that by (cases v) (auto simp: accepts_def params_finite_def)
  with assms mo_phase_finite[OF assms(1)] show ?thesis
    by (auto simp: motion_ok_def applied_fields[OF True] applied_phase_base[OF True] params_finite_def split: option.split)
next
  case False
  with assms(1) show ?thesis by (simp add: rejected_unchanged)
qed

text \<open>A command that does not name the phase leaves it continuous, provided the new radius can be
  divided by.\<close>

lemma phase_continuous:
  assumes "motion_ok m" "params_finite sp" "pr_theta sp = None"
  shows "mo_phase (fst (sim_applyParams now sp m)) now = mo_phase m now"
proof (cases "accepts sp \<and> (pr_radius sp \<noteq> None \<or> pr_speed sp \<noteq> None)")
  case True
  then have ok: "motion_ok (fst (sim_applyParams now sp m))" and acc: "accepts sp"
    using motion_ok_applied[OF assms(1,2)] by auto
  from mo_phase_finite[OF assms(1)] obtain p where "mo_phase m now = Fin p" by (auto simp: is_finite_iff)
  with ok True assms(3) show ?thesis
    by (elim motion_okE) (simp add: mo_phase_def[of "fst (sim_applyParams now sp m)"] applied_phase_base[OF acc] seconds_between_def)
next
  case False
  show ?thesis
  proof (cases "accepts sp")
    case True
    with False assms(3) show ?thesis
      by (simp add: mo_phase_def applied_fields[OF True] applied_phase_base[OF True])
  qed (simp add: rejected_unchanged)
qed

section \<open>What the threads have written\<close>

fun sent_telemetry :: "uplink \<Rightarrow> proto_telemetry list" where
  "sent_telemetry (UpTelemetry t) = [t]"
| "sent_telemetry _ = []"

fun sent_result :: "uplink \<Rightarrow> proto_result list" where
  "sent_result (UpResult r) = [r]"
| "sent_result _ = []"

definition telemetry_of :: "uplink list \<Rightarrow> proto_telemetry list" where
  "telemetry_of us = concat (map sent_telemetry us)"

definition results_of :: "uplink list \<Rightarrow> proto_result list" where
  "results_of us = concat (map sent_result us)"

lemma sent_simps [simp]:
  "telemetry_of [] = []" "telemetry_of (us @ vs) = telemetry_of us @ telemetry_of vs"
  "telemetry_of [UpTelemetry t] = [t]" "telemetry_of [UpResult r] = []"
  "results_of [] = []" "results_of (us @ vs) = results_of us @ results_of vs"
  "results_of [UpTelemetry t] = []" "results_of [UpResult r] = [r]"
  by (simp_all add: telemetry_of_def results_of_def)

definition unsent_results :: "robot_sim \<Rightarrow> proto_result list" where
  "unsent_results s = rs_outgoing s @ (case rs_pending s of Some r \<Rightarrow> [r] | None \<Rightarrow> [])"

definition command_accepted :: "proto_robot_command \<Rightarrow> bool" where
  "command_accepted cmd \<longleftrightarrow> (case prc_set_parameters cmd of Some sp \<Rightarrow> accepts sp | None \<Rightarrow> True)"

lemma apply_command_accepted [simp]: "snd (apply_command now cmd m) \<longleftrightarrow> command_accepted cmd"
  by (simp add: apply_command_def command_accepted_def split: option.split)

text \<open>The commands the reader takes from the stream in a run.\<close>

fun commands_read :: "robot_sim \<Rightarrow> sim_event list \<Rightarrow> proto_robot_command list" where
  "commands_read s [] = []"
| "commands_read s (e # es) =
     (case e of CommandRead cmd now \<Rightarrow> if rs_reading s \<and> rs_pending s = None then [cmd] else [] | _ \<Rightarrow> []) @
     commands_read (fst (sim_step s e)) es"

lemma sim_step_id [simp]: "rs_id (fst (sim_step s e)) = rs_id s"
  by (cases e) (auto simp: split_beta split: option.split list.split)

lemma results_step:
  "results_of (snd (sim_step s e)) @ unsent_results (fst (sim_step s e)) =
     unsent_results s @ map (\<lambda>cmd. result_for (rs_id s) cmd (command_accepted cmd)) (commands_read s [e])"
  by (cases e) (auto simp: unsent_results_def split_beta split: option.split list.split)

lemma results_run:
  "results_of (snd (run sim_step s es)) @ unsent_results (fst (run sim_step s es)) =
     unsent_results s @ map (\<lambda>cmd. result_for (rs_id s) cmd (command_accepted cmd)) (commands_read s es)"
proof (induction es arbitrary: s)
  case (Cons e es)
  from results_step[of s e] Cons.IH[of "fst (sim_step s e)"] show ?case
    by (simp add: split_beta)
qed simp

lemma telemetry_step:
  "map pt_seq (telemetry_of (snd (sim_step s e))) = (if rs_seq (fst (sim_step s e)) = rs_seq s then [] else [rs_seq s]) \<and>
   rs_seq (fst (sim_step s e)) = rs_seq s + of_nat (length (telemetry_of (snd (sim_step s e))))"
  by (cases e) (auto simp: split_beta sim_telemetry_def split: option.split list.split)

lemma telemetry_run:
  "map pt_seq (telemetry_of (snd (run sim_step s es))) =
     map (\<lambda>k. rs_seq s + of_nat k) [0 ..< length (telemetry_of (snd (run sim_step s es)))]"
proof (induction es arbitrary: s)
  case (Cons e es)
  let ?n = "length (telemetry_of (snd (run sim_step (fst (sim_step s e)) es)))"
  from telemetry_step[of s e] consider
    "telemetry_of (snd (sim_step s e)) = []" "rs_seq (fst (sim_step s e)) = rs_seq s"
    | t where "telemetry_of (snd (sim_step s e)) = [t]" "pt_seq t = rs_seq s" "rs_seq (fst (sim_step s e)) = rs_seq s + 1"
    by (cases e) (auto simp: split_beta split: if_splits option.splits list.splits)
  then show ?case
  proof cases
    case 2
    have "map (\<lambda>k. rs_seq s + of_nat k) [0 ..< Suc ?n] = rs_seq s # map (\<lambda>k. rs_seq s + 1 + of_nat k) [0 ..< ?n]"
      by (simp add: upt_conv_Cons map_Suc_upt[symmetric] add.assoc del: upt_Suc)
    with 2 Cons.IH[of "fst (sim_step s e)"] show ?thesis by (simp add: split_beta)
  qed (use Cons.IH[of "fst (sim_step s e)"] in \<open>simp add: split_beta\<close>)
qed simp

section \<open>Finite motion\<close>

definition telemetry_finite :: "proto_telemetry \<Rightarrow> bool" where
  "telemetry_finite t \<longleftrightarrow> list_all is_finite [pt_x t, pt_y t, pt_heading t, pt_speed t, pt_radius t] \<and> Fin 0 < pt_radius t"

fun uplink_finite :: "uplink \<Rightarrow> bool" where
  "uplink_finite (UpTelemetry t) = telemetry_finite t"
| "uplink_finite _ = True"

fun finite_command :: "sim_event \<Rightarrow> bool" where
  "finite_command (CommandRead cmd now) = pred_option params_finite (prc_set_parameters cmd)"
| "finite_command _ = True"

lemma sim_telemetry_finite: "motion_ok (rs_motion s) \<Longrightarrow> telemetry_finite (sim_telemetry s now sys)"
proof -
  assume ok: "motion_ok (rs_motion s)"
  from mo_phase_finite[OF ok] obtain p where "mo_phase (rs_motion s) now = Fin p" by (auto simp: is_finite_iff)
  with ok show ?thesis
    by (elim motion_okE) (simp add: telemetry_finite_def sim_telemetry_def computePosition_def)
qed

lemma finite_step:
  "motion_ok (rs_motion s) \<Longrightarrow> finite_command e \<Longrightarrow>
     motion_ok (rs_motion (fst (sim_step s e))) \<and> list_all uplink_finite (snd (sim_step s e))"
  by (cases e)
    (auto simp: split_beta apply_command_def motion_ok_applied sim_telemetry_finite split: option.split list.split)

interpretation finite_motion: guarded_machine sim_step "\<lambda>s. motion_ok (rs_motion s)" finite_command uplink_finite
  by unfold_locales (rule finite_step)

section \<open>The simulator of the bridge and the robot\<close>

definition same_motion :: "fake_robot \<Rightarrow> real \<Rightarrow> motion_state \<Rightarrow> int \<Rightarrow> bool" where
  "same_motion r e m now \<longleftrightarrow>
     fr_cx r = mo_cx m \<and> fr_cy r = mo_cy m \<and> fr_R r = mo_radius m \<and> fr_V r = mo_speed m \<and>
     fake_phase e r = mo_phase m now"

lemma same_motion_ok: "same_motion r e m now \<Longrightarrow> robot_finite r \<Longrightarrow> motion_ok m"
  by (cases "mo_theta0 m") (auto simp: same_motion_def robot_finite_def motion_ok_def fake_phase_def mo_phase_def
      seconds_between_def is_finite_iff)

lemma same_motion_later:
  assumes "same_motion r e m now" "robot_finite r"
  shows "same_motion r (e + of_int d / 1000000000) m (now + d)"
proof -
  from assms have "motion_ok m" by (rule same_motion_ok)
  with assms show ?thesis
    by (elim motion_okE) (auto simp: same_motion_def fake_phase_def mo_phase_def seconds_between_def robot_finite_def
        is_finite_iff algebra_simps add_divide_distrib diff_divide_distrib)
qed

lemma same_motion_position:
  assumes "same_motion r e m now" "\<not> fr_frozen r" "\<not> fr_cycle r"
  shows "computePosition m now =
    (tl_x (rb_telemetry (fake_robotState e q r)), tl_y (rb_telemetry (fake_robotState e q r)),
     tl_heading (rb_telemetry (fake_robotState e q r)))"
  using assms live_state[OF assms(2,3)] by (simp add: same_motion_def computePosition_def Let_def)

section \<open>Properties\<close>

text \<open>C14: Every command the robot reads is answered exactly once, in order: whatever the
  interleaving of the reader and the writer, and whichever writes fail, the results handed to the
  stream so far, followed by those still on their way in the process, are the results for the
  commands read so far, each under the command's id, APPLIED unless the radius given is zero or
  negative.\<close>

theorem one_result_per_command:
  "results_of (snd (run sim_step (new_robot_sim i x0 y0 R V th now) es)) @
     unsent_results (fst (run sim_step (new_robot_sim i x0 y0 R V th now) es)) =
   map (\<lambda>cmd. \<lparr>pres_command_id = prc_command_id cmd, pres_robot_id = i,
       pres_result = (case Option.bind (prc_set_parameters cmd) pr_radius of
          Some v \<Rightarrow> if v \<le> Fin 0 then 2 else 1 | None \<Rightarrow> 1), pres_detail = ''''\<rparr>)
     (commands_read (new_robot_sim i x0 y0 R V th now) es)"
  unfolding results_run
  by (auto simp: new_robot_sim_def unsent_results_def result_for_def command_accepted_def accepts_def
      split: option.split)

text \<open>As long as the commands carry finite numbers (and no operation overflows, which exact arithmetic
  never does), whatever a robot with finite parameters and a positive radius is told, every telemetry it sends is finite with a positive radius, and the
  telemetry is numbered 0, 1, 2, ... in the order it is sent.\<close>

theorem robot_telemetry_finite:
  assumes "motion_ok \<lparr>mo_cx = x0, mo_cy = y0, mo_radius = R, mo_speed = V, mo_theta0 = th, mo_start = now\<rparr>"
    "list_all finite_command es"
  shows "list_all telemetry_finite (telemetry_of (snd (run sim_step (new_robot_sim i x0 y0 R V th now) es))) \<and>
    map pt_seq (telemetry_of (snd (run sim_step (new_robot_sim i x0 y0 R V th now) es))) =
      map of_nat [0 ..< length (telemetry_of (snd (run sim_step (new_robot_sim i x0 y0 R V th now) es)))]"
proof -
  have "list_all uplink_finite us \<Longrightarrow> list_all telemetry_finite (telemetry_of us)" for us
    unfolding telemetry_of_def
  proof (induction us)
    case (Cons u us)
    then show ?case by (cases u) simp_all
  qed simp
  with finite_motion.run_keeps[of "new_robot_sim i x0 y0 R V th now" es] assms
    telemetry_run[of "new_robot_sim i x0 y0 R V th now" es]
  show ?thesis by (simp add: new_robot_sim_def)
qed

theorem robot_telemetry_finite_witness:
  "telemetry_finite (sim_telemetry (new_robot_sim ''R'' (Fin 0) (Fin 0) (Fin 80) (Fin 14) (Fin 0) 0) 5 5)"
  using robot_telemetry_finite[of "Fin 0" "Fin 0" "Fin 80" "Fin 14" "Fin 0" 0 "[WriterTick 5 5 True]" "''R''"]
  by (simp add: motion_ok_def) (simp add: new_robot_sim_def)

text \<open>A command that does not name the phase never makes a robot turn on the spot: whatever it
  changes, at the moment it is applied the heading stays what it was; a rejected one changes
  nothing at all.\<close>

theorem commands_keep_heading:
  assumes "motion_ok m" "params_finite sp"
  shows "(pr_theta sp = None \<longrightarrow>
      snd (snd (computePosition (fst (sim_applyParams now sp m)) now)) = snd (snd (computePosition m now))) \<and>
    (\<not> snd (sim_applyParams now sp m) \<longrightarrow> fst (sim_applyParams now sp m) = m)"
  using phase_continuous[OF assms] rejected_unchanged[of sp now m] by (simp add: computePosition_def Let_def)

definition demo_motion :: motion_state where
  "demo_motion = \<lparr>mo_cx = Fin 0, mo_cy = Fin 0, mo_radius = Fin 80, mo_speed = Fin 14, mo_theta0 = Fin 0, mo_start = 0\<rparr>"

lemma demo_motion_ok: "motion_ok demo_motion"
  by (simp add: motion_ok_def demo_motion_def)

theorem commands_keep_heading_witness:
  "snd (snd (computePosition (fst (sim_applyParams 3000000000 (no_params\<lparr>pr_speed := Some (Fin 20)\<rparr>) demo_motion)) 3000000000)) =
   snd (snd (computePosition demo_motion 3000000000))"
proof -
  have "params_finite (no_params\<lparr>pr_speed := Some (Fin 20)\<rparr>)" by (simp add: params_finite_def no_params_def)
  from commands_keep_heading[OF demo_motion_ok this, of 3000000000] show ?thesis by (simp add: no_params_def)
qed

text \<open>C31: The simulator inside the bridge moves as the real robot does: if a live robot of the
  simulator and a robot process are in the same motion at some moment, then after any finite
  command with a radius that is absent or positive and no phase, applied to both at that moment,
  they show the same position and heading for ever after.\<close>

theorem simulator_moves_like_robot:
  assumes "same_motion r e m now" "robot_finite r" "\<not> fr_frozen r" "\<not> fr_cycle r"
    "params_finite p" "pr_theta p = None" "pred_option (\<lambda>v. Fin 0 < v) (pr_radius p)"
  shows "computePosition (fst (sim_applyParams now p m)) (now + d) =
    (tl_x (rb_telemetry (fake_robotState (e + of_int d / 1000000000) q (apply_to e p r))),
     tl_y (rb_telemetry (fake_robotState (e + of_int d / 1000000000) q (apply_to e p r))),
     tl_heading (rb_telemetry (fake_robotState (e + of_int d / 1000000000) q (apply_to e p r))))"
proof (rule same_motion_position[OF same_motion_later])
  have acc: "accepts p" and pos: "Fin 0 < v \<Longrightarrow> \<not> v \<le> Fin 0" for v
    using assms(7) by (auto simp: accepts_def split: option.split elim: pos_cases) (auto elim!: pos_cases)
  have "mo_phase (fst (sim_applyParams now p m)) now = mo_phase m now"
    using phase_continuous[OF same_motion_ok[OF assms(1,2)] assms(5,6)] .
  moreover have "fake_phase e (apply_to e p r) = fake_phase e r"
    using assms(2,5,6) by (rule phase_preserved)
  ultimately show "same_motion (apply_to e p r) e (fst (sim_applyParams now p m)) now"
    using assms(1,7) by (auto simp: same_motion_def applied_fields[OF acc] split: option.split)
  show "robot_finite (apply_to e p r)"
    using assms(2,5) by (rule robot_finite_apply)
  show "\<not> fr_frozen (apply_to e p r)" "\<not> fr_cycle (apply_to e p r)" using assms(3,4) by simp_all
qed

text \<open>But not when the radius is bad: the robot rejects the whole command and keeps its motion,
  the simulator leaves the radius out, applies the rest and reports the command APPLIED.\<close>

theorem bad_radius_divergence:
  assumes "pr_radius p = Some v" "v \<le> Fin 0" "pr_speed p = Some V"
  shows "sim_applyParams now p m = (m, False) \<and> fr_V (apply_to e p r) = V \<and> fr_R (apply_to e p r) = fr_R r \<and>
    (tp_state t = CMD_SENT \<and> tp_ticksToNext t \<le> 1 \<longrightarrow> map tp_state (snd (advance_target e rs t)) = [CMD_APPLIED])"
proof -
  have "\<not> Fin 0 < v" using assms(2) by (cases v) auto
  with assms show ?thesis by (auto simp: sim_applyParams_def advance_target_def in_flight_def Let_def)
qed

theorem bad_radius_divergence_witness:
  "sim_applyParams 0 (no_params\<lparr>pr_radius := Some (Fin (-5)), pr_speed := Some (Fin 20)\<rparr>) demo_motion = (demo_motion, False)"
  using bad_radius_divergence[of "no_params\<lparr>pr_radius := Some (Fin (-5)), pr_speed := Some (Fin 20)\<rparr>" "Fin (-5)" "Fin 20"]
  by simp

theorem simulator_moves_like_robot_witness:
  "computePosition (fst (sim_applyParams 0 (no_params\<lparr>pr_radius := Some (Fin 40)\<rparr>) demo_motion)) (0 + 2000000000) =
    (tl_x (rb_telemetry (fake_robotState (0 + of_int 2000000000 / 1000000000) 7
       (apply_to 0 (no_params\<lparr>pr_radius := Some (Fin 40)\<rparr>) (fake_robot_of ''R-01'' 0 0 80 14 0 False)))),
     tl_y (rb_telemetry (fake_robotState (0 + of_int 2000000000 / 1000000000) 7
       (apply_to 0 (no_params\<lparr>pr_radius := Some (Fin 40)\<rparr>) (fake_robot_of ''R-01'' 0 0 80 14 0 False)))),
     tl_heading (rb_telemetry (fake_robotState (0 + of_int 2000000000 / 1000000000) 7
       (apply_to 0 (no_params\<lparr>pr_radius := Some (Fin 40)\<rparr>) (fake_robot_of ''R-01'' 0 0 80 14 0 False)))))"
  by (rule simulator_moves_like_robot)
    (simp_all add: same_motion_def fake_robot_of_def demo_motion_def fake_phase_def mo_phase_def seconds_between_def
      robot_finite_def params_finite_def no_params_def)

end
