(* ===== verification/C2System.thy ===== *)
theory C2System
  imports C2Threads RobotSim
begin

text \<open>
  The whole of the C++ side as one machine: the server's threads (\<open>C2Threads\<close>), the gateway and its
  reactors (\<open>RobotGateway\<close>), any number of robot processes (\<open>RobotSim\<close>), and between each robot and
  its reactor the two directions of a stream, which deliver in order and may deliver late or never.
  The outputs of one component are the inputs of the next; a step is a step of one component, and
  the steps come in any order that gRPC's contract allows.
\<close>

section \<open>State\<close>

text \<open>A stream with the robot at its far end: what was written to the robot and not yet read by it,
  and what the robot has written and the reactor has not yet read. The number of a link is that of
  its reactor.\<close>

record robot_link =
  ln_robot :: robot_sim
  ln_down :: "proto_robot_command list"
  ln_up :: "uplink list"

text \<open>A call of \<open>SendCommand\<close> that is still dispatching: the commands left, and the command that the
  gateway has accepted and the tracker has not been told of.\<close>

record dispatch_thread =
  dp_left :: "robot_command list"
  dp_sent :: "(string \<times> string) option"

record c2_system =
  sy_core :: c2_core
  sy_gateway :: robot_gateway
  sy_links :: "(nat \<times> robot_link) list"
  sy_dispatch :: "dispatch_thread list"

definition new_system :: c2_system where
  "new_system = \<lparr>sy_core = new_core, sy_gateway = new_gateway, sy_links = [], sy_dispatch = []\<rparr>"

datatype system_event =
    RobotStarts string motion_state
  | RobotThread nat sim_event
  | CommandArrives nat int
  | UplinkArrives nat int
  | StreamEvent nat bool
  | StreamDone nat
  | StreamEnds nat
  | Operator proto_operator_command "string \<Rightarrow> bool" int
  | DispatchNext nat
  | Feed core_event

datatype system_out =
    Commanded proto_operator_command
  | Executed string proto_robot_command bool
  | Displayed nat swarm_state

section \<open>Steps\<close>

definition put_link :: "nat \<Rightarrow> robot_link \<Rightarrow> c2_system \<Rightarrow> c2_system" where
  "put_link n l s = s\<lparr>sy_links := AList.update n l (sy_links s)\<rparr>"

definition to_core :: "core_event \<Rightarrow> c2_system \<Rightarrow> c2_system" where
  "to_core e s = s\<lparr>sy_core := fst (core_step (sy_core s) e)\<rparr>"

text \<open>Where the outputs of the gateway go: its callbacks are those that \<open>c2_server/main.cpp\<close> sets.\<close>

fun route :: "int \<Rightarrow> c2_system \<Rightarrow> gateway_out \<Rightarrow> c2_system" where
  "route now s (StartWrite n p) =
     (case map_of (sy_links s) n of Some l \<Rightarrow> put_link n (l\<lparr>ln_down := ln_down l @ [p]\<rparr>) s | None \<Rightarrow> s)"
| "route now s (DeliverTelemetry t) = to_core (CoStored t) s"
| "route now s (DeliverCommandResult r) = to_core (CoResult r now) s"
| "route now s _ = s"

definition at_gateway :: "int \<Rightarrow> gateway_event \<Rightarrow> c2_system \<Rightarrow> c2_system" where
  "at_gateway now ev s =
     (if grpc_ok (sy_gateway s) ev then
        (let (g, os) = gateway_step (sy_gateway s) ev in foldl (route now) (s\<lparr>sy_gateway := g\<rparr>) os)
      else s)"

text \<open>The events of the server's own threads that no other component causes.\<close>

fun own_event :: "core_event \<Rightarrow> bool" where
  "own_event (CoStored _) = False"
| "own_event (CoSubmit _ _ _) = False"
| "own_event (CoSent _ _) = False"
| "own_event (CoResult _ _) = False"
| "own_event _ = True"

fun reads_command :: "sim_event \<Rightarrow> bool" where
  "reads_command (CommandRead _ _) = True"
| "reads_command _ = False"

definition put_dispatch :: "nat \<Rightarrow> dispatch_thread \<Rightarrow> c2_system \<Rightarrow> c2_system" where
  "put_dispatch k d s = s\<lparr>sy_dispatch := (sy_dispatch s)[k := d]\<rparr>"

definition dispatch_next :: "nat \<Rightarrow> dispatch_thread \<Rightarrow> c2_system \<Rightarrow> c2_system" where
  "dispatch_next k d s =
     (case dp_sent d of
        Some (c, i) \<Rightarrow> put_dispatch k (d\<lparr>dp_sent := None\<rparr>) (to_core (CoSent c i) s)
      | None \<Rightarrow>
          (case dp_left d of
             [] \<Rightarrow> s
           | rc # rcs \<Rightarrow>
               put_dispatch k
                 \<lparr>dp_left = rcs,
                  dp_sent = (if last (snd (gateway_step (sy_gateway s) (Send rc))) = SendReturns True
                             then Some (rc_command_id rc, rc_robot_id rc) else None)\<rparr>
                 (at_gateway 0 (Send rc) s)))"

definition operator :: "proto_operator_command \<Rightarrow> (string \<Rightarrow> bool) \<Rightarrow> int \<Rightarrow> c2_system \<Rightarrow> c2_system" where
  "operator cmd off now s =
     (case poc_set_parameters cmd of
        None \<Rightarrow> s
      | Some sp \<Rightarrow>
          (let op = toDomainOperatorCommand cmd sp
           in (to_core (CoSubmit op off now) s)\<lparr>sy_dispatch := sy_dispatch s @
                 [\<lparr>dp_left = snd (onCommandSubmitted op off now (co_tracker (sy_core s))), dp_sent = None\<rparr>]\<rparr>))"

fun system_step :: "c2_system \<Rightarrow> system_event \<Rightarrow> c2_system \<times> system_out list" where
  "system_step s (RobotStarts i m) =
     (at_gateway 0 LinkOpened
        (put_link (gw_next (sy_gateway s))
          \<lparr>ln_robot = new_robot_sim i (mo_cx m) (mo_cy m) (mo_radius m) (mo_speed m) (mo_theta0 m) (mo_start m),
           ln_down = [], ln_up = []\<rparr> s), [])"
| "system_step s (RobotThread n e) =
     (case map_of (sy_links s) n of
        Some l \<Rightarrow>
          (if reads_command e then (s, [])
           else (let (r, us) = sim_step (ln_robot l) e in (put_link n (l\<lparr>ln_robot := r, ln_up := ln_up l @ us\<rparr>) s, [])))
      | None \<Rightarrow> (s, []))"
| "system_step s (CommandArrives n now) =
     (case map_of (sy_links s) n of
        Some l \<Rightarrow>
          (case ln_down l of
             p # ps \<Rightarrow>
               (if rs_reading (ln_robot l) \<and> rs_pending (ln_robot l) = None
                then (put_link n (l\<lparr>ln_robot := fst (sim_step (ln_robot l) (CommandRead p now)), ln_down := ps\<rparr>) s,
                      [Executed (rs_id (ln_robot l)) p (snd (apply_command now p (rs_motion (ln_robot l))))])
                else (s, []))
           | [] \<Rightarrow> (s, []))
      | None \<Rightarrow> (s, []))"
| "system_step s (UplinkArrives n now) =
     (case map_of (sy_links s) n of
        Some l \<Rightarrow>
          (case ln_up l of
             u # us \<Rightarrow>
               (if grpc_ok (sy_gateway s) (ReadDone n (Some u))
                then (put_link n (l\<lparr>ln_up := us\<rparr>) (at_gateway now (ReadDone n (Some u)) s), []) else (s, []))
           | [] \<Rightarrow> (s, []))
      | None \<Rightarrow> (s, []))"
| "system_step s (StreamEvent n ok) = (at_gateway 0 (WriteDone n ok) s, [])"
| "system_step s (StreamDone n) = (at_gateway 0 (Done n) s, [])"
| "system_step s (StreamEnds n) = (at_gateway 0 (ReadDone n None) s, [])"
| "system_step s (Operator cmd off now) = (operator cmd off now s, [Commanded cmd])"
| "system_step s (DispatchNext k) =
     (if k < length (sy_dispatch s) then (dispatch_next k (sy_dispatch s ! k) s, []) else (s, []))"
| "system_step s (Feed e) =
     (if own_event e then (to_core e s, map (\<lambda>(n, f). Displayed n f) (snd (core_step (sy_core s) e))) else (s, []))"

section \<open>What is true of every run\<close>

text \<open>A command a robot may get: some operator's, for that robot.\<close>

definition ordered :: "system_out list \<Rightarrow> proto_robot_command \<Rightarrow> bool" where
  "ordered os p \<longleftrightarrow> (\<exists>cmd sp. Commanded cmd \<in> set os \<and> poc_set_parameters cmd = Some sp \<and>
     prc_robot_id p \<in> set (poc_targets cmd) \<and>
     p = to_proto (robot_command_for (toDomainOperatorCommand cmd sp) (prc_robot_id p)))"

lemma sent_fields:
  assumes "p = to_proto (robot_command_for (toDomainOperatorCommand cmd sp) i)"
  shows "prc_command_id p = poc_command_id cmd" "prc_robot_id p = i" "prc_set_parameters p = Some sp"
    "prc_expiry p = toProtobufTimestamp (toDomainTimestamp (poc_expiry cmd))"
  unfolding assms
  by (simp_all add: robot_command_for_def toDomainOperatorCommand_def) (simp_all add: to_proto_def)

definition executed :: "system_out list \<Rightarrow> string \<Rightarrow> string \<Rightarrow> bool \<Rightarrow> bool" where
  "executed os i c ok \<longleftrightarrow> (\<exists>p. Executed i p ok \<in> set os \<and> prc_command_id p = c)"

definition answer_true :: "system_out list \<Rightarrow> string \<Rightarrow> proto_result \<Rightarrow> bool" where
  "answer_true os i r \<longleftrightarrow> pres_robot_id r = i \<and>
     (\<exists>ok. executed os i (pres_command_id r) ok \<and> pres_result r = (if ok then 1 else 2))"

definition link_true :: "system_out list \<Rightarrow> robot_link \<Rightarrow> bool" where
  "link_true os l \<longleftrightarrow>
     (\<forall>p \<in> set (ln_down l). ordered os p \<and> prc_robot_id p = rs_id (ln_robot l)) \<and>
     (\<forall>r \<in> set (results_of (ln_up l) @ unsent_results (ln_robot l)). answer_true os (rs_id (ln_robot l)) r)"

text \<open>A robot introduces itself: the first message on its stream is its telemetry.\<close>

definition fresh_link :: "robot_link \<Rightarrow> bool" where
  "fresh_link l \<longleftrightarrow> (case ln_up l of [] \<Rightarrow> rs_pc (ln_robot l) \<noteq> Draining | u # _ \<Rightarrow> telemetry_id u = rs_id (ln_robot l))"

definition reactor_true :: "system_out list \<Rightarrow> robot_link \<Rightarrow> reactor \<Rightarrow> bool" where
  "reactor_true os l r \<longleftrightarrow>
     (\<forall>p \<in> set (re_outgoing_queue r). ordered os p \<and> prc_robot_id p = rs_id (ln_robot l)) \<and>
     (if re_registered r then re_robot_id r = rs_id (ln_robot l) else fresh_link l)"

definition tracker_true :: "system_out list \<Rightarrow> command_tracker \<Rightarrow> bool" where
  "tracker_true os t \<longleftrightarrow> tracker_inv t \<and>
     (\<forall>c i. (outcome t c i = Some CMD_APPLIED \<longrightarrow> executed os i c True) \<and>
            (outcome t c i = Some CMD_REJECTED \<longrightarrow> executed os i c False))"

fun out_true :: "system_out list \<Rightarrow> system_out \<Rightarrow> bool" where
  "out_true os (Commanded cmd) = True"
| "out_true os (Executed i p ok) = (ordered os p \<and> prc_robot_id p = i \<and> (ok \<longleftrightarrow> command_accepted p))"
| "out_true os (Displayed n f) = (\<forall>c i. (shown f c i = Some CMD_APPLIED \<longrightarrow> executed os i c True) \<and>
     (shown f c i = Some CMD_REJECTED \<longrightarrow> executed os i c False))"

definition system_inv :: "c2_system \<Rightarrow> system_out list \<Rightarrow> bool" where
  "system_inv s os \<longleftrightarrow>
     gateway_inv (sy_gateway s) [] \<and>
     (\<forall>n r. map_of (gw_reactors (sy_gateway s)) n = Some r \<longrightarrow>
        (\<exists>l. map_of (sy_links s) n = Some l \<and> reactor_true os l r)) \<and>
     (\<forall>n l. map_of (sy_links s) n = Some l \<longrightarrow> link_true os l) \<and>
     (\<forall>d \<in> set (sy_dispatch s). \<forall>rc \<in> set (dp_left d). ordered os (to_proto rc)) \<and>
     tracker_true os (co_tracker (sy_core s)) \<and> list_all (out_true os) os"

text \<open>All of it only grows with what has been output.\<close>

lemma ordered_mono: "ordered os p \<Longrightarrow> set os \<subseteq> set os' \<Longrightarrow> ordered os' p"
  unfolding ordered_def by blast

lemma executed_mono: "executed os i c ok \<Longrightarrow> set os \<subseteq> set os' \<Longrightarrow> executed os' i c ok"
  unfolding executed_def by blast

lemma answer_mono: "answer_true os i r \<Longrightarrow> set os \<subseteq> set os' \<Longrightarrow> answer_true os' i r"
  unfolding answer_true_def by (blast intro: executed_mono)

lemma link_mono: "link_true os l \<Longrightarrow> set os \<subseteq> set os' \<Longrightarrow> link_true os' l"
  unfolding link_true_def by (blast intro: ordered_mono answer_mono)

lemma reactor_mono: "reactor_true os l r \<Longrightarrow> set os \<subseteq> set os' \<Longrightarrow> reactor_true os' l r"
  unfolding reactor_true_def by (blast intro: ordered_mono)

lemma tracker_mono: "tracker_true os t \<Longrightarrow> set os \<subseteq> set os' \<Longrightarrow> tracker_true os' t"
  unfolding tracker_true_def by (blast intro: executed_mono)

lemma out_mono: "out_true os x \<Longrightarrow> set os \<subseteq> set os' \<Longrightarrow> out_true os' x"
  by (cases x) (auto intro: ordered_mono executed_mono)

lemma system_inv_mono:
  assumes "system_inv s os" "set os \<subseteq> set os'" "list_all (out_true os') os'"
  shows "system_inv s os'"
proof -
  note grows = ordered_mono[OF _ assms(2)] link_mono[OF _ assms(2)] reactor_mono[OF _ assms(2)]
    tracker_mono[OF _ assms(2)]
  show ?thesis using assms(1,3) unfolding system_inv_def by (meson grows)
qed

lemma system_inv_outputs:
  assumes "system_inv s os" "list_all (out_true (os @ os')) os'"
  shows "system_inv s (os @ os')"
proof (rule system_inv_mono[OF assms(1)])
  from assms(1) have "list_all (out_true (os @ os')) os"
    unfolding system_inv_def by (auto simp: list_all_iff intro: out_mono)
  with assms(2) show "list_all (out_true (os @ os')) (os @ os')" by simp
qed simp

text \<open>The two operations on the tracker that make outcomes, and those that do not.\<close>

lemma tracker_true_step:
  assumes t: "tracker_true os t"
    and r: "\<And>r now. e = Resulted r now \<Longrightarrow>
      (cr_result r = RESULT_APPLIED \<longrightarrow> executed os (cr_robot_id r) (cr_command_id r) True) \<and>
      (cr_result r = RESULT_REJECTED \<longrightarrow> executed os (cr_robot_id r) (cr_command_id r) False)"
  shows "tracker_true os (fst (tracker_step t e))"
proof -
  from t have inv: "tracker_inv t" by (simp add: tracker_true_def)
  have before: "outcome t c i = Some x \<or> (\<exists>r now. e = Resulted r now \<and> c = cr_command_id r \<and> i = cr_robot_id r \<and>
      cr_result r = (if x = CMD_APPLIED then RESULT_APPLIED else RESULT_REJECTED))"
    if "outcome (fst (tracker_step t e)) c i = Some x" "x = CMD_APPLIED \<or> x = CMD_REJECTED" for c i x
  proof (cases e)
    case (Submitted cmd off now)
    with that show ?thesis by (auto simp: outcome_submitted ts_state_born split: if_split_asm)
  next
    case (Sent d j)
    with that show ?thesis by (auto simp: outcome_sent split: if_split_asm)
  next
    case (Resulted r now)
    with that show ?thesis
      by (auto simp: outcome_result result_state_def split: if_split_asm result_code.splits)
  next
    case (Swept now)
    with that inv show ?thesis
      by (auto simp: outcome_def map_of_swept bind_eq_Some_conv expire_target_def
          split: option.splits if_split_asm)
  qed
  show ?thesis
    unfolding tracker_true_def
  proof (intro conjI allI impI)
    show "tracker_inv (fst (tracker_step t e))" by (rule tracker_inv_step[OF inv])
  next
    fix c i
    assume "outcome (fst (tracker_step t e)) c i = Some CMD_APPLIED"
    from before[OF this] r t show "executed os i c True" unfolding tracker_true_def by auto
  next
    fix c i
    assume "outcome (fst (tracker_step t e)) c i = Some CMD_REJECTED"
    from before[OF this] r t show "executed os i c False" unfolding tracker_true_def by auto
  qed
qed

lemma to_core_fields [simp]:
  "sy_gateway (to_core e s) = sy_gateway s" "sy_links (to_core e s) = sy_links s"
  "sy_dispatch (to_core e s) = sy_dispatch s" "sy_core (to_core e s) = fst (core_step (sy_core s) e)"
  by (simp_all add: to_core_def)

lemma core_tracker_silent:
  "own_event e \<Longrightarrow> \<not> (\<exists>n. e = CoSweep n) \<Longrightarrow> co_tracker (fst (core_step s e)) = co_tracker s"
  by (cases e) (auto split: option.split list.split)

lemma tracker_true_core:
  assumes t: "tracker_true os (co_tracker s)"
    and r: "\<And>r now. e = CoResult r now \<Longrightarrow>
      (cr_result r = RESULT_APPLIED \<longrightarrow> executed os (cr_robot_id r) (cr_command_id r) True) \<and>
      (cr_result r = RESULT_REJECTED \<longrightarrow> executed os (cr_robot_id r) (cr_command_id r) False)"
  shows "tracker_true os (co_tracker (fst (core_step s e)))"
proof (cases e)
  case (CoSubmit cmd off now)
  with tracker_true_step[OF t, of "Submitted cmd off now"] show ?thesis by (simp add: call_tracker_def)
next
  case (CoSent c i)
  with tracker_true_step[OF t, of "Sent c i"] show ?thesis by (simp add: call_tracker_def)
next
  case (CoResult x now)
  with tracker_true_step[OF t, of "Resulted x now"] r show ?thesis by (simp add: call_tracker_def)
next
  case (CoSweep n)
  with tracker_true_step[OF t, of "Swept _"] t show ?thesis
    by (auto simp: call_tracker_def put_feed_def split: option.split)
qed (use t in \<open>auto split: option.split list.split\<close>)

text \<open>Outputs of the gateway that keep it so, given who is at the end of each link.\<close>

definition robot_at :: "c2_system \<Rightarrow> nat \<Rightarrow> string option" where
  "robot_at s n = map_option (\<lambda>l. rs_id (ln_robot l)) (map_of (sy_links s) n)"

fun routed_true :: "system_out list \<Rightarrow> (nat \<Rightarrow> string option) \<Rightarrow> gateway_out \<Rightarrow> bool" where
  "routed_true os who (StartWrite n p) = (ordered os p \<and> who n = Some (prc_robot_id p))"
| "routed_true os who (DeliverCommandResult r) =
     ((cr_result r = RESULT_APPLIED \<longrightarrow> executed os (cr_robot_id r) (cr_command_id r) True) \<and>
      (cr_result r = RESULT_REJECTED \<longrightarrow> executed os (cr_robot_id r) (cr_command_id r) False))"
| "routed_true os who _ = True"

lemma put_link_fields [simp]:
  "sy_gateway (put_link n l s) = sy_gateway s" "map_of (sy_links (put_link n l s)) = (map_of (sy_links s))(n \<mapsto> l)"
  "sy_dispatch (put_link n l s) = sy_dispatch s" "sy_core (put_link n l s) = sy_core s"
  by (simp_all add: put_link_def)

lemma route_fields [simp]:
  "sy_gateway (route now s x) = sy_gateway s" "sy_dispatch (route now s x) = sy_dispatch s"
  "robot_at (route now s x) = robot_at s"
  by (cases x; auto simp: robot_at_def split: option.split)+

lemma put_link_inv:
  assumes inv: "system_inv s os" and l: "link_true os l'"
    and same: "map_of (sy_links s) n = Some l \<Longrightarrow> rs_id (ln_robot l') = rs_id (ln_robot l)"
    and fresh: "\<And>r. map_of (gw_reactors (sy_gateway s)) n = Some r \<Longrightarrow> map_of (sy_links s) n = Some l \<and>
      (\<not> re_registered r \<longrightarrow> fresh_link l \<longrightarrow> fresh_link l')"
  shows "system_inv (put_link n l' s) os"
proof -
  have "reactor_true os l' r" if r: "map_of (gw_reactors (sy_gateway s)) n = Some r" for r
  proof -
    from inv r have "\<exists>l. map_of (sy_links s) n = Some l \<and> reactor_true os l r"
      unfolding system_inv_def by blast
    with fresh[OF r] same show ?thesis by (auto simp: reactor_true_def split: if_split_asm)
  qed
  with inv l show ?thesis unfolding system_inv_def by simp
qed

lemma route_inv:
  assumes inv: "system_inv s os" and x: "routed_true os (robot_at s) x"
  shows "system_inv (route now s x) os"
proof (cases x)
  case (StartWrite n p)
  with x obtain l where l: "map_of (sy_links s) n = Some l" "rs_id (ln_robot l) = prc_robot_id p" "ordered os p"
    by (auto simp: robot_at_def)
  with inv have "link_true os l" unfolding system_inv_def by blast
  with l have "link_true os (l\<lparr>ln_down := ln_down l @ [p]\<rparr>)" by (auto simp: link_true_def)
  then have "system_inv (put_link n (l\<lparr>ln_down := ln_down l @ [p]\<rparr>) s) os"
    by (rule put_link_inv[OF inv, of _ n l]) (use l in \<open>auto simp: fresh_link_def split: list.split\<close>)
  with l show ?thesis by (simp add: StartWrite)
next
  case (DeliverTelemetry t)
  with inv show ?thesis unfolding system_inv_def by (simp add: tracker_true_core)
next
  case (DeliverCommandResult r)
  have "tracker_true os (co_tracker (fst (core_step (sy_core s) (CoResult r now))))"
    using inv x DeliverCommandResult by (intro tracker_true_core) (auto simp: system_inv_def)
  with inv show ?thesis by (simp add: DeliverCommandResult system_inv_def del: core_step.simps)
qed (use inv in simp_all)

lemma routes_inv:
  "system_inv s os \<Longrightarrow> list_all (routed_true os (robot_at s)) xs \<Longrightarrow> system_inv (foldl (route now) s xs) os"
  by (induction xs arbitrary: s) (auto simp: route_inv)

section \<open>The gateway keeps it\<close>

lemma gateway_inv_quiet: "gateway_inv g os \<Longrightarrow> gateway_inv g []"
  by (simp add: gateway_inv_def)

definition reactors_true :: "system_out list \<Rightarrow> c2_system \<Rightarrow> (nat \<times> reactor) list \<Rightarrow> bool" where
  "reactors_true os s rs \<longleftrightarrow> (\<forall>n r. map_of rs n = Some r \<longrightarrow>
     (\<exists>l. map_of (sy_links s) n = Some l \<and> reactor_true os l r))"

lemma reactors_true_put:
  assumes "reactors_true os s (gw_reactors g)" "map_of (sy_links s) n = Some l" "reactor_true os l r'"
  shows "reactors_true os s (gw_reactors (put_reactor n r' g))"
  using assms by (auto simp: reactors_true_def)

lemma pumped_true:
  assumes "reactor_true os l r" "map_of (sy_links s) n = Some l"
  shows "reactor_true os l (fst (pumpLocked n r)) \<and> list_all (routed_true os (robot_at s)) (snd (pumpLocked n r))"
  using assms by (auto simp: pumpLocked_def reactor_true_def robot_at_def)

text \<open>What an event of the gateway may bring with it.\<close>

definition event_true :: "system_out list \<Rightarrow> c2_system \<Rightarrow> gateway_event \<Rightarrow> bool" where
  "event_true os s ev \<longleftrightarrow> (case ev of
     LinkOpened \<Rightarrow> \<exists>l. map_of (sy_links s) (gw_next (sy_gateway s)) = Some l \<and> fresh_link l
   | ReadDone n (Some u) \<Rightarrow> list_all (routed_true os (robot_at s)) (deliver u) \<and>
       (\<forall>l. map_of (sy_links s) n = Some l \<and> fresh_link l \<longrightarrow> telemetry_id u = rs_id (ln_robot l))
   | Send rc \<Rightarrow> ordered os (to_proto rc)
   | _ \<Rightarrow> True)"

lemma gateway_step_true:
  assumes inv: "system_inv s os" and ok: "event_true os s ev"
  shows "reactors_true os s (gw_reactors (fst (gateway_step (sy_gateway s) ev))) \<and>
    list_all (routed_true os (robot_at s)) (snd (gateway_step (sy_gateway s) ev))"
proof -
  let ?g = "sy_gateway s"
  have reactors: "reactors_true os s (gw_reactors ?g)" using inv by (simp add: system_inv_def reactors_true_def)
  have at_link: "\<exists>l. map_of (sy_links s) n = Some l \<and> reactor_true os l r" if "map_of (gw_reactors ?g) n = Some r" for n r
    using reactors that by (simp add: reactors_true_def)
  show ?thesis
  proof (cases ev)
    case LinkOpened
    with ok obtain l where "map_of (sy_links s) (gw_next ?g) = Some l" "fresh_link l"
      by (auto simp: event_true_def)
    with reactors show ?thesis by (auto simp: LinkOpened Link_def Let_def reactors_true_def reactor_true_def)
  next
    case (ReadDone n up)
    show ?thesis
    proof (cases "map_of (gw_reactors ?g) n")
      case (Some r)
      from at_link[OF this] obtain l where l: "map_of (sy_links s) n = Some l" "reactor_true os l r" by blast
      show ?thesis
      proof (cases up)
        case None
        with l reactors show ?thesis
          by (auto simp: ReadDone on_reactor_def Some OnReadDone_def Let_def reactor_true_def intro!: reactors_true_put)
      next
        case (Some u)
        with ok l ReadDone have u: "list_all (routed_true os (robot_at s)) (deliver u)"
          "fresh_link l \<longrightarrow> telemetry_id u = rs_id (ln_robot l)" by (auto simp: event_true_def)
        define r' where "r' = (if re_registered r then r
          else r\<lparr>re_robot_id := telemetry_id u, re_registered := True\<rparr>)\<lparr>re_reading := True\<rparr>"
        have "reactor_true os l r'" using l(2) u(2) by (auto simp: reactor_true_def r'_def)
        then have "reactors_true os s (gw_reactors (put_reactor n r' ?g))"
          by (rule reactors_true_put[OF reactors l(1)])
        moreover have "gw_reactors (fst (OnReadDone n (Some u) r ?g)) = gw_reactors (put_reactor n r' ?g)"
          "snd (OnReadDone n (Some u) r ?g) = deliver u @ [StartRead n]"
          by (simp_all add: OnReadDone_def Let_def RegisterReactor_def put_reactor_def r'_def)
        ultimately show ?thesis
          using u(1) \<open>map_of (gw_reactors ?g) n = Some r\<close> by (simp add: ReadDone \<open>up = Some u\<close> on_reactor_def)
      qed
    qed (use reactors in \<open>simp add: ReadDone on_reactor_def\<close>)
  next
    case (WriteDone n k)
    show ?thesis
    proof (cases "map_of (gw_reactors ?g) n")
      case (Some r)
      from at_link[OF this] obtain l where l: "map_of (sy_links s) n = Some l" "reactor_true os l r" by blast
      have "set (tl xs) \<subseteq> set xs" for xs :: "proto_robot_command list" by (cases xs) auto
      with l(2) have "reactor_true os l (r\<lparr>re_writing := False, re_outgoing_queue := tl (re_outgoing_queue r)\<rparr>)"
        by (auto simp: reactor_true_def subset_iff)
      from pumped_true[OF this l(1)] l(2) reactors_true_put[OF reactors l(1)] show ?thesis
        by (auto simp: WriteDone on_reactor_def Some OnWriteDone_def Let_def split_beta reactor_true_def)
    qed (use reactors in \<open>simp add: WriteDone on_reactor_def\<close>)
  next
    case (Done n)
    with reactors show ?thesis
      by (auto simp: on_reactor_def OnDone_def UnregisterReactor_def reactors_true_def delete_conv' split: option.split)
  next
    case (Send rc)
    show ?thesis
    proof (cases "map_of (gw_registry ?g) (rc_robot_id rc)")
      case (Some n)
      with inv obtain r where r: "map_of (gw_reactors ?g) n = Some r" "registered_as (rc_robot_id rc) r"
        unfolding system_inv_def gateway_inv_def by blast
      from at_link[OF r(1)] obtain l where l: "map_of (sy_links s) n = Some l" "reactor_true os l r" by blast
      with r(2) ok have "reactor_true os l (r\<lparr>re_outgoing_queue := re_outgoing_queue r @ [to_proto rc]\<rparr>)"
        by (auto simp: reactor_true_def registered_as_def event_true_def Send to_proto_def)
      from pumped_true[OF this l(1)] reactors_true_put[OF reactors l(1)] show ?thesis
        by (auto simp: Send gateway_SendCommand_def Some r(1) enqueue_def split_beta)
    qed (use reactors in \<open>simp add: Send gateway_SendCommand_def\<close>)
  qed
qed

lemma at_gateway_inv:
  assumes inv: "system_inv s os" and ev: "event_true os s ev"
  shows "system_inv (at_gateway now ev s) os"
proof (cases "grpc_ok (sy_gateway s) ev")
  case True
  let ?s = "s\<lparr>sy_gateway := fst (gateway_step (sy_gateway s) ev)\<rparr>"
  have "gateway_inv (sy_gateway s) []" using inv by (simp add: system_inv_def)
  from gateway_inv_quiet[OF gateway_inv_step[OF this True]] gateway_step_true[OF inv ev] inv
  have "system_inv ?s os" by (simp add: system_inv_def reactors_true_def)
  moreover have "robot_at ?s = robot_at s" by (simp add: robot_at_def fun_eq_iff)
  ultimately show ?thesis
    using routes_inv[of ?s os] gateway_step_true[OF inv ev] True by (simp add: at_gateway_def split_beta Let_def)
qed (use inv in \<open>simp add: at_gateway_def\<close>)

section \<open>The robots and the server keep it\<close>

lemma sim_step_fresh: "fresh_link l \<Longrightarrow> fresh_link (l\<lparr>ln_robot := fst (sim_step (ln_robot l) e), ln_up := ln_up l @ snd (sim_step (ln_robot l) e)\<rparr>)"
  by (cases e) (auto simp: fresh_link_def sim_telemetry_def split_beta split: list.splits option.split)

lemma sim_step_true:
  assumes "link_true os l" "\<not> reads_command e"
  shows "link_true os (l\<lparr>ln_robot := fst (sim_step (ln_robot l) e), ln_up := ln_up l @ snd (sim_step (ln_robot l) e)\<rparr>)"
proof -
  have "commands_read (ln_robot l) [e] = []" using assms(2) by (cases e) auto
  with results_step[of "ln_robot l" e] have "results_of (snd (sim_step (ln_robot l) e)) @ unsent_results (fst (sim_step (ln_robot l) e)) =
      unsent_results (ln_robot l)" by simp
  then have "set (results_of (snd (sim_step (ln_robot l) e))) \<union> set (unsent_results (fst (sim_step (ln_robot l) e))) =
      set (unsent_results (ln_robot l))" by (metis set_append)
  with assms(1) show ?thesis unfolding link_true_def by (simp add: Un_assoc)
qed

lemma answer_routed: "answer_true os i r \<Longrightarrow> routed_true os who (DeliverCommandResult (to_domain_result r))"
  by (auto simp: answer_true_def to_domain_result_def split: if_splits)

lemma uplink_routed:
  assumes "link_true os l" "u \<in> set (ln_up l)"
  shows "list_all (routed_true os who) (deliver u)"
proof (cases u)
  case (UpResult r)
  with assms(2) have "r \<in> set (results_of (ln_up l))" by (force simp: results_of_def)
  with assms(1) have "answer_true os (rs_id (ln_robot l)) r" by (simp add: link_true_def)
  from answer_routed[OF this] show ?thesis by (simp add: UpResult)
qed simp_all

lemma read_registers:
  assumes "map_of (gw_reactors (fst (gateway_step g (ReadDone n (Some u))))) n = Some r"
  shows "re_registered r"
  using assms
  by (auto simp: on_reactor_def OnReadDone_def Let_def RegisterReactor_def put_reactor_def map_of_update
      split: option.splits if_split_asm)

lemma at_gateway_fields:
  "grpc_ok (sy_gateway s) ev \<Longrightarrow> sy_gateway (at_gateway now ev s) = fst (gateway_step (sy_gateway s) ev)"
  "robot_at (at_gateway now ev s) = robot_at s"
  "sy_dispatch (at_gateway now ev s) = sy_dispatch s"
proof -
  have "sy_gateway (foldl (route now) s' xs) = sy_gateway s'" "robot_at (foldl (route now) s' xs) = robot_at s'"
    "sy_dispatch (foldl (route now) s' xs) = sy_dispatch s'" for s' xs
    by (induction xs arbitrary: s') simp_all
  note fold = this
  show "sy_gateway (at_gateway now ev s) = fst (gateway_step (sy_gateway s) ev)" if "grpc_ok (sy_gateway s) ev"
    using that by (simp add: at_gateway_def split_beta Let_def fold)
  show "robot_at (at_gateway now ev s) = robot_at s" "sy_dispatch (at_gateway now ev s) = sy_dispatch s"
    by (simp_all add: at_gateway_def split_beta Let_def fold) (simp add: robot_at_def fun_eq_iff)
qed

lemma read_links [simp]: "sy_links (at_gateway now (ReadDone n up) s) = sy_links s"
  by (cases up; cases "the up")
    (auto simp: at_gateway_def on_reactor_def OnReadDone_def Let_def to_core_def split: option.split)

lemma link_inv: "system_inv s os \<Longrightarrow> map_of (sy_links s) n = Some l \<Longrightarrow> link_true os l"
  unfolding system_inv_def by blast

lemma starts_inv:
  assumes inv: "system_inv s os"
  shows "system_inv (fst (system_step s (RobotStarts i m))) os"
proof -
  let ?l = "\<lparr>ln_robot = new_robot_sim i (mo_cx m) (mo_cy m) (mo_radius m) (mo_speed m) (mo_theta0 m) (mo_start m),
    ln_down = [], ln_up = []\<rparr>"
  have "map_of (gw_reactors (sy_gateway s)) (gw_next (sy_gateway s)) = None"
    using inv unfolding system_inv_def gateway_inv_def by (metis less_irrefl option.exhaust)
  moreover have "link_true os ?l" by (simp add: link_true_def new_robot_sim_def unsent_results_def)
  ultimately have "system_inv (put_link (gw_next (sy_gateway s)) ?l s) os"
    using inv unfolding system_inv_def by auto
  from at_gateway_inv[OF this, of LinkOpened] show ?thesis
    by (simp add: event_true_def fresh_link_def new_robot_sim_def)
qed

lemma arrival_inv:
  assumes inv: "system_inv s os" and l: "map_of (sy_links s) n = Some l" "ln_up l = u # us"
    and ok: "grpc_ok (sy_gateway s) (ReadDone n (Some u))"
  shows "system_inv (put_link n (l\<lparr>ln_up := us\<rparr>) (at_gateway now (ReadDone n (Some u)) s)) os"
proof (rule put_link_inv)
  have true: "link_true os l" by (rule link_inv[OF inv l(1)])
  have "list_all (routed_true os (robot_at s)) (deliver u)" by (rule uplink_routed[OF true]) (simp add: l(2))
  then show "system_inv (at_gateway now (ReadDone n (Some u)) s) os"
    by (intro at_gateway_inv[OF inv]) (simp add: event_true_def l fresh_link_def)
  show "link_true os (l\<lparr>ln_up := us\<rparr>)" using true l(2) by (cases u) (auto simp: link_true_def results_of_def)
  show "rs_id (ln_robot (l\<lparr>ln_up := us\<rparr>)) = rs_id (ln_robot l)" by simp
  fix r
  assume "map_of (gw_reactors (sy_gateway (at_gateway now (ReadDone n (Some u)) s))) n = Some r"
  then have "re_registered r" unfolding at_gateway_fields(1)[OF ok] by (rule read_registers)
  with l(1) show "map_of (sy_links (at_gateway now (ReadDone n (Some u)) s)) n = Some l \<and>
      (\<not> re_registered r \<longrightarrow> fresh_link l \<longrightarrow> fresh_link (l\<lparr>ln_up := us\<rparr>))"
    by (simp add: read_links)
qed

lemma execution_inv:
  assumes inv: "system_inv s os" and l: "map_of (sy_links s) n = Some l" "ln_down l = p # ps"
    and ready: "rs_reading (ln_robot l)" "rs_pending (ln_robot l) = None"
  shows "system_inv (put_link n (l\<lparr>ln_robot := fst (sim_step (ln_robot l) (CommandRead p now)), ln_down := ps\<rparr>) s)
    (os @ [Executed (rs_id (ln_robot l)) p (command_accepted p)])"
proof (rule put_link_inv)
  let ?os = "os @ [Executed (rs_id (ln_robot l)) p (command_accepted p)]"
  have true: "link_true os l" by (rule link_inv[OF inv l(1)])
  then have p: "ordered os p" "prc_robot_id p = rs_id (ln_robot l)" by (simp_all add: link_true_def l(2))
  then show "system_inv s ?os"
    by (intro system_inv_outputs[OF inv]) (auto intro: ordered_mono)
  have "unsent_results (fst (sim_step (ln_robot l) (CommandRead p now))) =
      unsent_results (ln_robot l) @ [result_for (rs_id (ln_robot l)) p (command_accepted p)]"
    using results_step[of "ln_robot l" "CommandRead p now"] ready by (simp add: split_beta)
  moreover have "answer_true ?os (rs_id (ln_robot l)) (result_for (rs_id (ln_robot l)) p (command_accepted p))"
    by (auto simp: answer_true_def executed_def result_for_def)
  ultimately show "link_true ?os (l\<lparr>ln_robot := fst (sim_step (ln_robot l) (CommandRead p now)), ln_down := ps\<rparr>)"
    using link_mono[OF true, of ?os] l(2) by (auto simp: link_true_def simp del: sim_step.simps)
  fix r
  show "map_of (sy_links s) n = Some l \<and> (\<not> re_registered r \<longrightarrow> fresh_link l \<longrightarrow>
      fresh_link (l\<lparr>ln_robot := fst (sim_step (ln_robot l) (CommandRead p now)), ln_down := ps\<rparr>))"
    using l(1) ready by (auto simp: fresh_link_def split_beta split: list.split)
qed (simp del: sim_step.simps)

lemma thread_inv:
  assumes inv: "system_inv s os" and l: "map_of (sy_links s) n = Some l" and e: "\<not> reads_command e"
  shows "system_inv (put_link n (l\<lparr>ln_robot := fst (sim_step (ln_robot l) e), ln_up := ln_up l @ snd (sim_step (ln_robot l) e)\<rparr>) s) os"
  by (rule put_link_inv[OF inv sim_step_true[OF link_inv[OF inv l] e], of n l]) (simp_all add: l sim_step_fresh)

lemma operator_inv:
  assumes inv: "system_inv s os"
  shows "system_inv (operator cmd off now s) (os @ [Commanded cmd])"
proof -
  let ?os = "os @ [Commanded cmd]"
  have inv': "system_inv s ?os" by (rule system_inv_outputs[OF inv]) simp
  show ?thesis
  proof (cases "poc_set_parameters cmd")
    case (Some sp)
    let ?op = "toDomainOperatorCommand cmd sp"
    have "ordered ?os (to_proto (robot_command_for ?op i))" if "i \<in> set (poc_targets cmd)" for i
      using that Some unfolding ordered_def
      by (intro exI[of _ cmd] exI[of _ sp]) (simp add: to_proto_def robot_command_for_def)
    moreover have "op_targets ?op = poc_targets cmd" by (simp add: toDomainOperatorCommand_def)
    ultimately have "\<forall>rc \<in> set (snd (onCommandSubmitted ?op off now (co_tracker (sy_core s)))). ordered ?os (to_proto rc)"
      by (auto simp: submitted_eq)
    moreover have "tracker_true ?os (co_tracker (fst (core_step (sy_core s) (CoSubmit ?op off now))))"
      using inv' by (intro tracker_true_core) (simp_all add: system_inv_def)
    ultimately show ?thesis
      using inv' by (auto simp: operator_def Some Let_def system_inv_def simp del: core_step.simps)
  qed (use inv' in \<open>simp add: operator_def\<close>)
qed

lemma put_dispatch_inv:
  assumes inv: "system_inv s os" and "\<forall>rc \<in> set (dp_left d). ordered os (to_proto rc)"
  shows "system_inv (put_dispatch k d s) os"
  using assms set_update_subset_insert[of "sy_dispatch s" k d] unfolding system_inv_def put_dispatch_def by auto

lemma core_inv:
  assumes inv: "system_inv s os" and e: "\<And>r now. e \<noteq> CoResult r now"
  shows "system_inv (to_core e s) os"
proof -
  have "tracker_true os (co_tracker (fst (core_step (sy_core s) e)))"
    using inv e by (intro tracker_true_core) (auto simp: system_inv_def)
  with inv show ?thesis by (simp add: system_inv_def)
qed

lemma dispatch_inv:
  assumes inv: "system_inv s os" and d: "d \<in> set (sy_dispatch s)"
  shows "system_inv (dispatch_next k d s) os"
proof -
  from inv d have left: "\<forall>rc \<in> set (dp_left d). ordered os (to_proto rc)" unfolding system_inv_def by blast
  show ?thesis
  proof (cases "dp_sent d")
    case (Some ci)
    have "system_inv (to_core (CoSent (fst ci) (snd ci)) s) os" by (rule core_inv[OF inv]) simp
    with left show ?thesis by (simp add: dispatch_next_def Some split_beta put_dispatch_inv)
  next
    case None
    show ?thesis
    proof (cases "dp_left d")
      case (Cons rc rcs)
      have "system_inv (at_gateway 0 (Send rc) s) os"
        using left by (intro at_gateway_inv[OF inv]) (simp add: event_true_def Cons)
      with left show ?thesis by (simp add: dispatch_next_def None Cons put_dispatch_inv)
    qed (use inv in \<open>simp add: dispatch_next_def None\<close>)
  qed
qed

lemma displayed_true:
  assumes inv: "system_inv s os" and e: "own_event e"
  shows "list_all (out_true os) (map (\<lambda>(n, f). Displayed n f) (snd (core_step (sy_core s) e)))"
proof (cases e)
  case (CoFrame n ok)
  show ?thesis
  proof (cases "feed_in FeedSwept n (sy_core s)")
    case (Some ft)
    have t: "tracker_true os (co_tracker (sy_core s))" using inv by (simp add: system_inv_def)
    then have "tracker_inv (co_tracker (sy_core s))" by (simp add: tracker_true_def)
    note shown = shown_commands[OF this]
    from t show ?thesis by (simp add: CoFrame Some) (simp add: shown tracker_true_def)
  qed (simp add: CoFrame)
qed (use e in \<open>auto split: option.split list.split\<close>)

lemma system_step_inv:
  assumes inv: "system_inv s os"
  shows "system_inv (fst (system_step s e)) (os @ snd (system_step s e))"
proof (cases e)
  case (RobotStarts i m)
  from starts_inv[OF inv, of i m] show ?thesis by (simp add: RobotStarts)
next
  case (Operator cmd off now)
  from operator_inv[OF inv] show ?thesis by (simp add: Operator)
next
  case (Feed ev)
  show ?thesis
  proof (cases "own_event ev")
    case True
    then have "system_inv (to_core ev s) os" by (intro core_inv[OF inv]) auto
    moreover have "list_all (out_true (os @ snd (system_step s e))) (snd (system_step s e))"
      using displayed_true[OF inv True] True by (auto simp: Feed list_all_iff elim!: out_mono)
    ultimately show ?thesis using system_inv_outputs True by (simp add: Feed)
  qed (use inv in \<open>simp add: Feed\<close>)
next
  case (DispatchNext k)
  with inv dispatch_inv[OF inv, of "sy_dispatch s ! k" k] show ?thesis by simp
qed (use inv in \<open>auto simp: split_beta thread_inv execution_inv arrival_inv at_gateway_inv event_true_def
    split: option.split list.split simp del: sim_step.simps grpc_ok.simps\<close>)

lemma system_inv_new: "system_inv new_system []"
proof -
  have "tracker_true [] (new_tracker RETENTION)"
    using tracker_inv_new[of RETENTION] by (simp add: tracker_true_def) (simp add: outcome_def new_tracker_def)
  then show ?thesis
    by (simp add: system_inv_def new_system_def new_core_def gateway_inv_def) (simp add: new_gateway_def)
qed

interpretation system: history_machine system_step system_inv
  by unfold_locales (rule system_step_inv)

lemma system_run_inv: "system_inv (fst (run system_step new_system es)) (snd (run system_step new_system es))"
  using system.run_hist[OF system_inv_new, of es] by simp

end
