(* ===== verification/EndToEnd.thy ===== *)
theory EndToEnd
  imports C2System Gateway UseSwarm UseCommandAudit
begin

text \<open>
  The two halves of the program put together: the command of an operator from the browser through
  the bridge, the gRPC client, the server, the gateway and the link to the robot, and its outcome
  back through the tracker and a frame into the browser's audit log. The stub that \<open>proto.ts\<close> loads
  is a parameter: what it makes of the object it is given is the hypothesis \<open>faithful_stub\<close>.
\<close>

section \<open>One command over a quiet link\<close>

text \<open>A link whose robot is registered, with nothing on its way.\<close>

definition quiet_link :: "nat \<Rightarrow> string \<Rightarrow> robot_link \<Rightarrow> reactor \<Rightarrow> c2_system \<Rightarrow> bool" where
  "quiet_link n i l r s \<longleftrightarrow>
     map_of (gw_registry (sy_gateway s)) i = Some n \<and> map_of (gw_reactors (sy_gateway s)) n = Some r \<and>
     re_registered r \<and> re_reading r \<and> \<not> re_writing r \<and> re_outgoing_queue r = [] \<and>
     map_of (sy_links s) n = Some l \<and> ln_down l = [] \<and> ln_up l = [] \<and>
     rs_id (ln_robot l) = i \<and> rs_outgoing (ln_robot l) = [] \<and> rs_pending (ln_robot l) = None \<and>
     rs_reading (ln_robot l) \<and> rs_running (ln_robot l) \<and> rs_pc (ln_robot l) = AtTop"

definition way_down :: "nat \<Rightarrow> nat \<Rightarrow> proto_operator_command \<Rightarrow> (string \<Rightarrow> bool) \<Rightarrow> int \<Rightarrow> system_event list" where
  "way_down n k cmd off submitted =
     [Operator cmd off submitted, DispatchNext k, DispatchNext k, StreamEvent n True]"

definition way_up :: "nat \<Rightarrow> int \<Rightarrow> int \<Rightarrow> int \<Rightarrow> system_event list" where
  "way_up n steady system answered =
     [CommandArrives n steady,
      RobotThread n ResultQueued, RobotThread n (WriterTick steady system True), RobotThread n (WriterDrain True),
      RobotThread n (WriterDrain True), UplinkArrives n answered, UplinkArrives n answered]"

lemma addressed [simp]:
  "rc_robot_id (robot_command_for op i) = i" "rc_command_id (robot_command_for op i) = op_command_id op"
  "prc_robot_id (to_proto rc) = rc_robot_id rc" "prc_command_id (to_proto rc) = rc_command_id rc"
  "op_command_id (toDomainOperatorCommand cmd sp) = poc_command_id cmd"
  "op_targets (toDomainOperatorCommand cmd sp) = poc_targets cmd"
  by (simp_all add: robot_command_for_def to_proto_def toDomainOperatorCommand_def)

lemma went_down:
  assumes q: "quiet_link n i l r s" and cmd: "poc_set_parameters cmd = Some sp" "poc_targets cmd = [i]" "\<not> off i"
    and op: "op = toDomainOperatorCommand cmd sp"
    and s': "s' = fst (run system_step s (way_down n (length (sy_dispatch s)) cmd off t0))"
  shows "snd (run system_step s (way_down n (length (sy_dispatch s)) cmd off t0)) = [Commanded cmd]"
    "co_tracker (sy_core s') = onCommandSent (poc_command_id cmd) i (fst (onCommandSubmitted op off t0 (co_tracker (sy_core s))))"
    "map_of (sy_links s') n = Some (l\<lparr>ln_down := [to_proto (robot_command_for op i)]\<rparr>)"
    "map_of (gw_reactors (sy_gateway s')) n = Some r"
    "co_feeds (sy_core s') = co_feeds (sy_core s)" "co_store (sy_core s') = co_store (sy_core s)"
  using q unfolding s' op way_down_def quiet_link_def
  by (simp_all add: cmd operator_def dispatch_next_def put_dispatch_def at_gateway_def gateway_defs to_core_def put_link_def
      submitted_eq call_tracker_def nth_append OnWriteDone_def)

lemma went_up:
  assumes l: "map_of (sy_links s) n = Some l" "ln_down l = [p]" "ln_up l = []" "prc_set_parameters p = Some sp" "prc_robot_id p = i"
    and r: "map_of (gw_reactors (sy_gateway s)) n = Some r" "re_registered r" "re_reading r"
    and robot: "rs_id (ln_robot l) = i" "rs_outgoing (ln_robot l) = []" "rs_pending (ln_robot l) = None"
      "rs_reading (ln_robot l)" "rs_running (ln_robot l)" "rs_pc (ln_robot l) = AtTop"
    and s': "s' = fst (run system_step s (way_up n steady sys answered))"
  shows "snd (run system_step s (way_up n steady sys answered)) = [Executed i p (accepts sp)]"
    "co_tracker (sy_core s') = onCommandResult (to_domain_result (result_for i p (accepts sp))) answered (co_tracker (sy_core s))"
    "map_of (sy_links s') n = Some (l\<lparr>ln_down := [], ln_robot := (ln_robot l)\<lparr>rs_motion := fst (sim_applyParams steady sp (rs_motion (ln_robot l))), rs_seq := rs_seq (ln_robot l) + 1\<rparr>\<rparr>)"
    "co_feeds (sy_core s') = co_feeds (sy_core s)"
  using l r robot unfolding s' way_up_def
  by (simp_all add: at_gateway_def gateway_defs to_core_def put_link_def apply_command_def split_beta
      call_tracker_def)

section \<open>What the tracker shows of it\<close>

lemma step_retention: "ct_retention (co_tracker (fst (core_step s e))) = ct_retention (co_tracker s)"
  by (cases e) (auto simp: call_tracker_def put_feed_def retention_step split: option.split list.split simp del: tracker_step.simps)

definition sys_retention :: "c2_system \<Rightarrow> int" where
  "sys_retention s = ct_retention (co_tracker (sy_core s))"

lemma to_core_retention [simp]: "sys_retention (to_core e s) = sys_retention s"
  by (simp add: sys_retention_def step_retention del: core_step.simps)

lemma put_retention [simp]:
  "sys_retention (put_link n l s) = sys_retention s" "sys_retention (put_dispatch k d s) = sys_retention s"
  "sys_retention (s\<lparr>sy_gateway := g\<rparr>) = sys_retention s" "sys_retention (s\<lparr>sy_dispatch := ds\<rparr>) = sys_retention s"
  by (simp_all add: sys_retention_def put_dispatch_def)

lemma at_gateway_retention [simp]: "sys_retention (at_gateway now ev s) = sys_retention s"
proof -
  have "sys_retention (route now s x) = sys_retention s" for s x
    by (cases x) (auto split: option.split)
  then have "sys_retention (foldl (route now) s xs) = sys_retention s" for s xs
    by (induction xs arbitrary: s) simp_all
  then show ?thesis by (simp add: at_gateway_def split_beta Let_def)
qed

lemma system_step_retention: "sys_retention (fst (system_step s e)) = sys_retention s"
  by (cases e) (auto simp: operator_def dispatch_next_def Let_def split_beta
      split: option.split list.split simp del: grpc_ok.simps)

lemma system_retention: "sys_retention (fst (run system_step s es)) = sys_retention s"
  by (induction es arbitrary: s) (simp_all add: split_beta system_step_retention)

lemma reachable_retention: "ct_retention (co_tracker (sy_core (fst (run system_step new_system es)))) = RETENTION"
  using system_retention[of new_system es] by (simp add: sys_retention_def new_system_def new_core_def new_tracker_def)

text \<open>One target, answered: whatever is swept within the retention time, the outcome is the answer.\<close>

lemma answered_outcome:
  assumes inv: "tracker_inv t" and fresh: "map_of (ct_commands t) (op_command_id op) = None"
    and one: "op_targets op = [i]" "\<not> off i"
    and r: "cr_command_id r = op_command_id op" "cr_robot_id r = i" "cr_result r = (if ok then RESULT_APPLIED else RESULT_REJECTED)"
    and soon: "now - answered < ct_retention t * ns_per_ms"
  shows "outcome (sweepExpired now (onCommandResult r answered
      (onCommandSent (op_command_id op) i (fst (onCommandSubmitted op off t0 t))))) (op_command_id op) i =
    Some (if ok then CMD_APPLIED else CMD_REJECTED)"
proof -
  let ?t1 = "fst (onCommandSubmitted op off t0 t)"
  let ?t2 = "onCommandSent (op_command_id op) i ?t1"
  let ?t3 = "onCommandResult r answered ?t2"
  let ?c = "op_command_id op"
  define ts where "ts = (\<lparr>ts_state = CMD_SENT, ts_detail = ''''\<rparr>)"
  have inv3: "tracker_inv ?t3" by (intro result_inv sent_inv submit_inv inv)
  have c1: "map_of (ct_commands ?t1) ?c = Some \<lparr>tk_command_id = ?c, tk_expiry = op_expiry op, tk_payload = op_payload op,
      tk_targets = [(i, \<lparr>ts_state = CMD_PENDING, ts_detail = ''''\<rparr>)], tk_completed_at = None\<rparr>"
  proof -
    have "submitted_command op off t0 = \<lparr>tk_command_id = ?c, tk_expiry = op_expiry op, tk_payload = op_payload op,
        tk_targets = [(i, \<lparr>ts_state = CMD_PENDING, ts_detail = ''''\<rparr>)], tk_completed_at = None\<rparr>"
      using one by (simp add: submitted_command_def emplace_def born_def refreshCompletion_def)
    with fresh show ?thesis by (simp add: submitted_eq map_of_emplace)
  qed
  have c2: "map_of (ct_commands ?t2) ?c = Some \<lparr>tk_command_id = ?c, tk_expiry = op_expiry op, tk_payload = op_payload op,
      tk_targets = [(i, ts)], tk_completed_at = None\<rparr>"
    by (simp add: onCommandSent_def c1 ts_def)
  have c3: "map_of (ct_commands ?t3) ?c = Some \<lparr>tk_command_id = ?c, tk_expiry = op_expiry op, tk_payload = op_payload op,
      tk_targets = [(i, take_result r ts)], tk_completed_at = Some answered\<rparr>"
    by (auto simp: onCommandResult_def r c2 refreshCompletion_def take_result_def) (simp_all add: ts_def)
  have terminal: "ts_state (take_result r ts) = (if ok then CMD_APPLIED else CMD_REJECTED)"
    by (simp add: take_result_def r)
  have ret: "ct_retention ?t3 = ct_retention t"
    by (simp add: onCommandResult_def onCommandSent_def submitted_eq split: option.split)
  have "expire_target (take_result r ts) = take_result r ts" using terminal by (simp add: expire_target_def)
  then show ?thesis
    using soon terminal
    by (simp add: outcome_def map_of_swept[OF inv3] c3 ret retained_def expire_command_def refreshCompletion_def map_vals_def)
qed

section \<open>What the browser reads\<close>

lemma last_of_find: "distinct (map key xs) \<Longrightarrow> last_of (\<lambda>x. key x = k) xs = find (\<lambda>x. key x = k) xs"
proof (induction xs)
  case (Cons x xs)
  show ?case
  proof (cases "key x = k")
    case True
    with Cons.prems have "last_of (\<lambda>x. key x = k) xs = None" by (auto simp: last_of_None image_iff dest: sym)
    with True show ?thesis by simp
  next
    case False
    with Cons show ?thesis by (simp split: option.split)
  qed
qed simp

lemma reported_commands:
  assumes inv: "tracker_inv t" and f: "sw_commands f = toProtobufCommands (tracker_snapshot t)"
  shows "reported c i f = outcome t c i"
proof -
  have keys: "map cs_command_id (sw_commands f) = map fst (ct_commands t)"
    using inv by (auto simp: f toProtobufCommands_def tracker_snapshot_def tracker_inv_def)
  then have "distinct (map cs_command_id (sw_commands f))" using inv by (simp add: tracker_inv_def)
  moreover have "distinct (map tg_robot_id (cs_targets s))" if "s \<in> set (sw_commands f)" for s
  proof -
    from that obtain c tc where "(c, tc) \<in> set (ct_commands t)" and s: "map tg_robot_id (cs_targets s) = map fst (tk_targets tc)"
      by (auto simp: f toProtobufCommands_def tracker_snapshot_def comp_def split_beta)
    with inv show ?thesis by (auto simp: tracker_inv_def tracked_ok_def s)
  qed
  moreover have "s \<in> set xs" if "find p xs = Some s" for p s and xs :: "command_status list"
    using that by (auto simp: find_Some_iff)
  ultimately have "reported c i f = shown f c i"
    by (cases "find (\<lambda>s. cs_command_id s = c) (sw_commands f)") (simp_all add: reported_def shown_def last_of_find)
  with shown_commands[OF inv f] show ?thesis by simp
qed

section \<open>From the browser to the server\<close>

text \<open>What the documentation of the protocol loader promises of the stub (\<open>keepCase\<close>, \<open>oneofs\<close>): the
  fields of the object become the fields of the message, an absent optional field stays absent,
  and the payload is the one that is set.\<close>

definition read_set_parameters :: "(string \<times> jsnum) list \<Rightarrow> params" where
  "read_set_parameters o' =
     \<lparr>pr_speed = map_of o' ''speed'', pr_radius = map_of o' ''radius'', pr_center_x = map_of o' ''center_x'',
      pr_center_y = map_of o' ''center_y'', pr_theta = map_of o' ''theta''\<rparr>"

definition faithful_stub :: "(operator_command \<Rightarrow> proto_operator_command) \<Rightarrow> bool" where
  "faithful_stub ser \<longleftrightarrow> (\<forall>oc.
     poc_command_id (ser oc) = oc_command_id oc \<and> poc_timestamp (ser oc) = oc_timestamp oc \<and>
     poc_expiry (ser oc) = oc_expiry oc \<and> poc_targets (ser oc) = oc_targets oc \<and>
     poc_set_parameters (ser oc) = Some (read_set_parameters (oc_set_parameters oc)))"

lemma cleaned_parameters: "read_set_parameters (cleanParams (param_entries p)) = finite_params p"
proof -
  have step: "cleanParams ((k, js_opt v) # es) = (case finite_opt v of None \<Rightarrow> [] | Some n \<Rightarrow> [(k, n)]) @ cleanParams es"
    for k v es by (simp add: finite_opt_def split: option.split)
  show ?thesis
    by (simp add: read_set_parameters_def finite_params_def param_entries_def step split: option.split)
qed

lemma called_command:
  assumes "swarm_sendCommand now h intent = (h', c, [m])" "br_source b = GrpcSrc g"
    "on_text t b ws (Some (wire (enc_client_message m))) = Some (b', os)" "Transport (CallSendCommand oc) \<in> set os"
    "faithful_stub ser"
  shows "poc_command_id (ser oc) = c \<and> poc_targets (ser oc) = in_targets intent \<and>
    poc_set_parameters (ser oc) = Some (finite_params (in_params intent))"
proof -
  have m: "m = CommandMsg (intent\<lparr>in_command_id := Some c\<rparr>)"
    using assms(1) by (auto simp: swarm_sendCommand_def split_beta Let_def split: if_splits)
  have "finite_params (finite_params p) = finite_params p" for p
    by (simp add: finite_params_same finite_params_finite)
  moreover have "on_command t b ws (finite_intent (intent\<lparr>in_command_id := Some c\<rparr>)) = (b', os)"
    using assms(3) unfolding m client_text_read by simp
  with assms(2,4) have "oc_command_id oc = c" "oc_targets oc = in_targets intent"
    "oc_set_parameters oc = cleanParams (param_entries (finite_params (in_params intent)))"
    by (auto simp: finite_intent_def grpc_sendCommand_def issue_grpc_id_def split_beta command_defs)
  ultimately show ?thesis
    using assms(5) cleaned_parameters[of "finite_params (in_params intent)"] by (simp add: faithful_stub_def)
qed

section \<open>From the server to the browser\<close>

lemma feed_events:
  "list_all own_event es \<Longrightarrow> run system_step s (map Feed es) =
     (s\<lparr>sy_core := fst (run core_step (sy_core s) es)\<rparr>, map (\<lambda>(n, f). Displayed n f) (snd (run core_step (sy_core s) es)))"
proof (induction es arbitrary: s)
  case (Cons e es)
  from Cons.IH[of "to_core e s"] Cons.prems show ?case
    by (simp add: split_beta to_core_def del: core_step.simps)
qed simp

lemma round_displays:
  assumes "feed_in FeedTop m (sy_core s) = Some ft" "tracker_inv (co_tracker (sy_core s))"
  shows "\<exists>f. snd (run system_step s (map Feed (feed_round m system steady (store_size (co_store (sy_core s)))))) = [Displayed m f] \<and>
    (\<forall>c i. reported c i f = outcome (sweepExpired system (co_tracker (sy_core s))) c i \<and>
      shown f c i = outcome (sweepExpired system (co_tracker (sy_core s))) c i)"
proof -
  let ?a = "assemble system steady (ft_seq ft) (organs (sy_gateway s) (sy_core s))"
  have own: "list_all own_event (feed_round m system steady k)" for k by (simp add: feed_round_def list_all_iff)
  obtain co where "run core_step (sy_core s) (feed_round m system steady (store_size (co_store (sy_core s)))) = (co, [(m, snd ?a)])"
    using undisturbed_round[OF assms(1), of system steady "sy_gateway s"] by blast
  with feed_events[OF own] have "snd (run system_step s (map Feed (feed_round m system steady (store_size (co_store (sy_core s)))))) =
      [Displayed m (snd ?a)]" by simp
  moreover have commands: "sw_commands (snd ?a) = toProtobufCommands (tracker_snapshot (sweepExpired system (co_tracker (sy_core s))))"
    by (simp add: assemble_def organs_def Let_def)
  note reported_commands[OF sweep_inv[OF assms(2)] commands] shown_commands[OF sweep_inv[OF assms(2)] commands]
  ultimately show ?thesis by blast
qed

lemma reachable_tracker: "tracker_inv (co_tracker (sy_core (fst (run system_step new_system es))))"
  using system_run_inv[of es] by (simp add: system_inv_def tracker_true_def)

lemma audit_last:
  assumes "r \<in> set (in_targets intent)" "reported c r f = Some st"
  shows "map (\<lambda>x. map_of (ae_outcomes x) r)
      (audit_session [] (Record c intent stop ts # map (\<lambda>f. AuditFrame (Some f)) (fs @ [f]))) = [Some st]"
proof -
  have "audit_session [] (Record c intent stop ts # evs) = audit_session [new_entry c intent stop ts] evs" for evs
    by (simp add: audit_session_def record_command_def push_entry_def MAX_ENTRIES_def)
  with frames_outcome[OF keys_ok_new, of r c intent stop ts "fs @ [f]"] assms(2) show ?thesis
    by (simp add: new_entry_def last_known_def)
qed

section \<open>The trip on the server's side\<close>

lemma server_round_trip:
  assumes cmd: "poc_command_id cmd = c" "poc_set_parameters cmd = Some sp" "poc_targets cmd = [i]"
    and server: "s = fst (run system_step new_system es)" "map_of (ct_commands (co_tracker (sy_core s))) c = None"
      "quiet_link n i l r s" "\<not> off i" "feed_in FeedTop feed (sy_core s) = Some ft"
    and trip: "trip = way_down n (length (sy_dispatch s)) cmd off submitted @ way_up n steady sys answered"
    and s1: "s1 = fst (run system_step s trip)"
    and frame: "frame = map Feed (feed_round feed shown_at steady' (store_size (co_store (sy_core s1))))"
    and soon: "shown_at - answered < 10000000000"
  shows "\<exists>p f. snd (run system_step s trip) = [Commanded cmd, Executed i p (accepts sp)] \<and>
    map_option (\<lambda>l. rs_motion (ln_robot l)) (map_of (sy_links s1) n) = Some (fst (sim_applyParams steady sp (rs_motion (ln_robot l)))) \<and>
    snd (run system_step s1 frame) = [Displayed feed f] \<and>
    reported c i f = Some (if accepts sp then CMD_APPLIED else CMD_REJECTED) \<and> shown f c i = reported c i f"
proof -
  let ?t = "co_tracker (sy_core s)" and ?op = "toDomainOperatorCommand cmd sp"
  let ?p = "to_proto (robot_command_for ?op i)"
  define s0 where "s0 = fst (run system_step s (way_down n (length (sy_dispatch s)) cmd off submitted))"
  note down = went_down[OF server(3) cmd(2,3) server(4) refl s0_def]
  have quiet: "re_registered r" "re_reading r" "ln_up l = []" "rs_id (ln_robot l) = i" "rs_outgoing (ln_robot l) = []"
    "rs_pending (ln_robot l) = None" "rs_reading (ln_robot l)" "rs_running (ln_robot l)" "rs_pc (ln_robot l) = AtTop"
    using server(3) by (simp_all add: quiet_link_def)
  have at_s1: "s1 = fst (run system_step s0 (way_up n steady sys answered))"
    by (simp add: s1 trip s0_def run_append split_beta)
  have p: "prc_set_parameters ?p = Some sp" "prc_robot_id ?p = i" "prc_command_id ?p = c"
    by (rule sent_fields(3)[OF refl]) (simp_all add: cmd(1))
  let ?l = "l\<lparr>ln_down := [?p]\<rparr>"
  have at_l: "ln_down ?l = [?p]" "ln_up ?l = []" "rs_id (ln_robot ?l) = i" "rs_outgoing (ln_robot ?l) = []"
    "rs_pending (ln_robot ?l) = None" "rs_reading (ln_robot ?l)" "rs_running (ln_robot ?l)" "rs_pc (ln_robot ?l) = AtTop"
    using quiet by simp_all
  note up = went_up[OF down(3) at_l(1,2) p(1,2) down(4) quiet(1,2) at_l(3-8) at_s1]
  let ?r = "to_domain_result (result_for i ?p (accepts sp))"
  have r: "cr_command_id ?r = op_command_id ?op" "cr_robot_id ?r = i"
    "cr_result ?r = (if accepts sp then RESULT_APPLIED else RESULT_REJECTED)"
    by (simp_all add: to_domain_result_def result_for_def p(3) cmd(1) split: if_split)
  have inv: "tracker_inv ?t" unfolding server(1) by (rule reachable_tracker)
  have "ct_retention ?t = RETENTION" unfolding server(1) by (rule reachable_retention)
  with soon have soon': "shown_at - answered < ct_retention ?t * ns_per_ms" by (simp add: RETENTION_def)
  have fresh: "map_of (ct_commands ?t) (op_command_id ?op) = None" using server(2) by (simp add: cmd(1))
  have one: "op_targets ?op = [i]" by (simp add: cmd(3))
  have outcome: "outcome (sweepExpired shown_at (co_tracker (sy_core s1))) c i =
      Some (if accepts sp then CMD_APPLIED else CMD_REJECTED)"
    using answered_outcome[where off = off and ?t0.0 = submitted and ok = "accepts sp", OF inv fresh one server(4) r soon']
    by (simp add: up(2) down(2) cmd(1))
  have top: "feed_in FeedTop feed (sy_core s1) = Some ft" using server(5) by (simp add: feed_in_def up(4) down(5))
  have inv1: "tracker_inv (co_tracker (sy_core s1))"
    using reachable_tracker[of "es @ trip"] by (simp add: s1 server(1) run_append split_beta)
  obtain f where f: "snd (run system_step s1 frame) = [Displayed feed f]"
    "reported c i f = outcome (sweepExpired shown_at (co_tracker (sy_core s1))) c i" "shown f c i = reported c i f"
    using round_displays[OF top inv1, of shown_at steady'] unfolding frame by auto
  have "snd (run system_step s trip) = [Commanded cmd, Executed i ?p (accepts sp)]"
    using down(1) up(1) by (simp add: trip run_append split_beta s0_def)
  with f up(3) outcome show ?thesis by (intro exI[of _ ?p] exI[of _ f]) simp
qed

section \<open>Properties\<close>

text \<open>C2: The outcomes the operators see are true: in every interleaving of the robots, the links, the
  gateway, the dispatching calls, the callbacks and the feeds, if a frame shows a target APPLIED or
  REJECTED then that robot has read a command of that id, which an operator had addressed to it
  with exactly those parameters, and has applied or refused it, as the frame says; it refuses
  exactly a radius that is not positive.\<close>

theorem shown_outcomes_are_true:
  assumes "Displayed n f \<in> set (snd (run system_step new_system es))" "shown f c i = Some st"
    "st = CMD_APPLIED \<or> st = CMD_REJECTED"
  shows "\<exists>cmd sp p. Executed i p (st = CMD_APPLIED) \<in> set (snd (run system_step new_system es)) \<and>
    Commanded cmd \<in> set (snd (run system_step new_system es)) \<and>
    poc_command_id cmd = c \<and> i \<in> set (poc_targets cmd) \<and> poc_set_parameters cmd = Some sp \<and>
    prc_command_id p = c \<and> prc_set_parameters p = Some sp \<and> (st = CMD_APPLIED \<longleftrightarrow> accepts sp)"
proof -
  let ?os = "snd (run system_step new_system es)"
  have all: "list_all (out_true ?os) ?os" using system_run_inv[of es] by (simp add: system_inv_def)
  with assms(1) have "out_true ?os (Displayed n f)" by (auto simp: list_all_iff)
  with assms(2,3) have "executed ?os i c (st = CMD_APPLIED)" by auto
  then obtain p where p: "Executed i p (st = CMD_APPLIED) \<in> set ?os" "prc_command_id p = c"
    unfolding executed_def by blast
  with all have "out_true ?os (Executed i p (st = CMD_APPLIED))" by (auto simp: list_all_iff)
  then have o: "ordered ?os p" "prc_robot_id p = i" "st = CMD_APPLIED \<longleftrightarrow> command_accepted p" by auto
  from o(1) obtain cmd sp where cmd: "Commanded cmd \<in> set ?os" "poc_set_parameters cmd = Some sp"
    "prc_robot_id p \<in> set (poc_targets cmd)" "p = to_proto (robot_command_for (toDomainOperatorCommand cmd sp) (prc_robot_id p))"
    unfolding ordered_def by blast
  note sent = sent_fields[OF cmd(4)]
  have "command_accepted p \<longleftrightarrow> accepts sp" unfolding command_accepted_def sent(3) by simp
  with p cmd(1-3) o(2,3) sent(1,3) show ?thesis by (intro exI[of _ cmd] exI[of _ sp] exI[of _ p]) simp
qed

text \<open>C5: A robot executes only what operators asked of it: whatever it reads from its stream is the
  command of some operator that names it as a target, with the operator's id, times and
  parameters, although the links, the registry and the dispatching calls run concurrently and
  robots come and go.\<close>

theorem robots_obey_only_operators:
  assumes "Executed i p ok \<in> set (snd (run system_step new_system es))"
  shows "\<exists>cmd sp. Commanded cmd \<in> set (snd (run system_step new_system es)) \<and> i \<in> set (poc_targets cmd) \<and>
    poc_set_parameters cmd = Some sp \<and> p = to_proto (robot_command_for (toDomainOperatorCommand cmd sp) i)"
proof -
  let ?os = "snd (run system_step new_system es)"
  have "list_all (out_true ?os) ?os" using system_run_inv[of es] by (simp add: system_inv_def)
  with assms have "out_true ?os (Executed i p ok)" by (auto simp: list_all_iff)
  then have "ordered ?os p" "prc_robot_id p = i" by simp_all
  then show ?thesis unfolding ordered_def by blast
qed

text \<open>C1: The round trip of a command through the real system, on one schedule that nothing disturbs: a
  command that an operator issues in the browser for one robot, under an id the tracker does not know,
  is put through JSON and the bridge and the gRPC stub, tracked and dispatched by the server after any
  run, read by the robot at the end of a link on which nothing is under way, answered behind its next
  telemetry, and shown in the next frame, less than ten seconds after the answer. If it gives no
  radius or a positive one, each coordinate of the centre, the radius and the speed of the robot is
  then the finite value that was given, or else what it was; a given phase is the new phase, and
  without one a new speed or radius takes effect from the angle reached at that moment; and the
  browser's audit log shows the command APPLIED. Otherwise the motion is what it was and the log
  shows REJECTED.\<close>

theorem real_command_round_trip:
  assumes browser: "swarm_sendCommand now h intent = (h', c, [m])" "in_targets intent = [i]"
    and bridge: "br_source b = GrpcSrc g" "on_text t b ws (Some (wire (enc_client_message m))) = Some (b', os)"
      "Transport (CallSendCommand oc) \<in> set os" "faithful_stub ser"
    and server: "s = fst (run system_step new_system es)" "map_of (ct_commands (co_tracker (sy_core s))) c = None"
      "quiet_link n i l r s" "\<not> off i" "feed_in FeedTop feed (sy_core s) = Some ft"
    and trip: "trip = way_down n (length (sy_dispatch s)) (ser oc) off submitted @ way_up n steady sys answered"
    and s1: "s1 = fst (run system_step s trip)"
    and frame: "frame = map Feed (feed_round feed shown_at steady' (store_size (co_store (sy_core s1))))"
    and soon: "shown_at - answered < 10000000000"
  shows "(\<exists>mo. map_option (\<lambda>l. rs_motion (ln_robot l)) (map_of (sy_links s1) n) = Some mo \<and>
      (if accepts (finite_params (in_params intent))
       then moved_as_told steady (finite_params (in_params intent)) (rs_motion (ln_robot l)) mo
       else mo = rs_motion (ln_robot l))) \<and>
    (\<exists>f. snd (run system_step s1 frame) = [Displayed feed f] \<and>
      map (\<lambda>x. map_of (ae_outcomes x) i)
        (audit_session [] (Record c intent stop ts # map (\<lambda>f. AuditFrame (Some f)) (fs @ [f]))) =
      [Some (if accepts (finite_params (in_params intent)) then CMD_APPLIED else CMD_REJECTED)])"
proof -
  from called_command[OF browser(1) bridge] browser(2)
  have cmd: "poc_command_id (ser oc) = c" "poc_set_parameters (ser oc) = Some (finite_params (in_params intent))"
    "poc_targets (ser oc) = [i]" by simp_all
  note trip = server_round_trip[OF cmd server trip s1 frame soon]
  have motion: "let mo = fst (sim_applyParams steady p m) in
      if accepts p then moved_as_told steady p m mo else mo = m" for p m
    by (simp add: Let_def applied_as_told rejected_unchanged)
  from trip have "\<exists>mo. map_option (\<lambda>l. rs_motion (ln_robot l)) (map_of (sy_links s1) n) = Some mo \<and>
      (if accepts (finite_params (in_params intent))
       then moved_as_told steady (finite_params (in_params intent)) (rs_motion (ln_robot l)) mo
       else mo = rs_motion (ln_robot l))"
    using motion[unfolded Let_def] by blast
  moreover from trip browser(2) audit_last[of i intent c _ _ stop ts fs]
  have "\<exists>f. snd (run system_step s1 frame) = [Displayed feed f] \<and>
      map (\<lambda>x. map_of (ae_outcomes x) i)
        (audit_session [] (Record c intent stop ts # map (\<lambda>f. AuditFrame (Some f)) (fs @ [f]))) =
      [Some (if accepts (finite_params (in_params intent)) then CMD_APPLIED else CMD_REJECTED)]"
    by fastforce
  ultimately show ?thesis ..
qed

section \<open>An instance\<close>

definition demo_start :: "system_event list" where
  "demo_start = [RobotStarts ''R-01'' demo_motion, RobotThread 0 (WriterTick 0 0 True), RobotThread 0 (WriterDrain True),
     UplinkArrives 0 0, Feed (CoRecorded 0 0), Feed (CoSubscribe 5)]"

definition demo_server :: c2_system where
  "demo_server = fst (run system_step new_system demo_start)"

lemma demo_server_quiet:
  "quiet_link 0 ''R-01'' (the (map_of (sy_links demo_server) 0)) (the (map_of (gw_reactors (sy_gateway demo_server)) 0)) demo_server"
  "ct_commands (co_tracker (sy_core demo_server)) = []" "\<exists>ft. feed_in FeedTop 5 (sy_core demo_server) = Some ft"
  "sy_dispatch demo_server = []" "store_size (co_store (sy_core demo_server)) = 1"
  by (simp_all add: demo_server_def demo_start_def new_system_def new_core_def new_gateway_def new_robot_sim_def at_gateway_def
      gateway_defs put_link_def to_core_def quiet_link_def new_tracker_def feed_in_def put_feed_def sim_telemetry_def split_beta
      remove_nth_def to_domain_telemetry_def upsert_def emplace_def store_size_def)

definition demo_intent :: command_intent where
  "demo_intent = \<lparr>in_command_id = Some ''c'', in_targets = [''R-01''], in_params = no_params\<lparr>pr_speed := Some (Fin 20)\<rparr>\<rparr>"

definition demo_stub :: "operator_command \<Rightarrow> proto_operator_command" where
  "demo_stub oc = \<lparr>poc_command_id = oc_command_id oc, poc_timestamp = oc_timestamp oc, poc_expiry = oc_expiry oc,
     poc_targets = oc_targets oc, poc_set_parameters = Some (read_set_parameters (oc_set_parameters oc))\<rparr>"

definition demo_call :: operator_command where
  "demo_call = \<lparr>oc_command_id = ''c'', oc_timestamp = toProtoTimestamp 7, oc_expiry = toProtoTimestamp 5007,
     oc_targets = [''R-01''], oc_set_parameters = cleanParams (param_entries (in_params demo_intent))\<rparr>"

definition demo_trip :: "system_event list" where
  "demo_trip = way_down 0 (length (sy_dispatch demo_server)) (demo_stub demo_call) (\<lambda>_. False) 1 @ way_up 0 2 2 3"

theorem real_command_round_trip_witness:
  "\<exists>f. snd (run system_step (fst (run system_step demo_server demo_trip))
        (map Feed (feed_round 5 4 4 (store_size (co_store (sy_core (fst (run system_step demo_server demo_trip)))))))) =
      [Displayed 5 f] \<and>
    map (\<lambda>x. map_of (ae_outcomes x) ''R-01'')
      (audit_session [] (Record ''c'' demo_intent False 0 # map (\<lambda>f. AuditFrame (Some f)) ([] @ [f]))) = [Some CMD_APPLIED]"
proof -
  let ?h = "set_socket 0 OPEN mounted_swarm"
  let ?b = "new_bridge default_args"
  let ?m = "CommandMsg demo_intent"
  let ?on = "on_command 7 ?b 1 (finite_intent demo_intent)"
  have send: "swarm_sendCommand 0 ?h demo_intent = (?h, ''c'', [?m])"
    by (simp add: swarm_sendCommand_def issue_web_id_def ws_current_def set_socket_def mounted_swarm_def connect_def demo_intent_def)
  have src: "br_source ?b = GrpcSrc (new_grpc_source (case ag_target default_args of Some t \<Rightarrow> t | None \<Rightarrow> ''undefined''))"
    by (simp add: new_bridge_def default_args_def)
  have read: "on_text 7 ?b 1 (Some (wire (enc_client_message ?m))) = Some (fst ?on, snd ?on)"
    unfolding client_text_read by simp
  have same: "finite_params (in_params demo_intent) = in_params demo_intent"
    by (simp add: demo_intent_def finite_params_same params_finite_def no_params_def)
  have call: "Transport (CallSendCommand demo_call) \<in> set (snd ?on)"
    by (simp add: src split_beta command_defs grpc_sendCommand_def finite_intent_def same issue_grpc_id_def demo_call_def COMMAND_EXPIRY_MS_def)
      (simp add: demo_intent_def)
  have stub: "faithful_stub demo_stub" by (simp add: faithful_stub_def demo_stub_def)
  have target: "in_targets demo_intent = [''R-01'']" by (simp add: demo_intent_def)
  have new: "map_of (ct_commands (co_tracker (sy_core demo_server))) ''c'' = None" by (simp add: demo_server_quiet(2))
  obtain ft where ft: "feed_in FeedTop 5 (sy_core demo_server) = Some ft" using demo_server_quiet(3) by blast
  have acc: "accepts (finite_params (in_params demo_intent))"
    unfolding same by (simp add: demo_intent_def accepts_def no_params_def)
  have online: "\<not> (\<lambda>_. False) ''R-01''" by simp
  have soon: "(4::int) - 3 < 10000000000" by simp
  from real_command_round_trip[OF send target src read call stub demo_server_def new demo_server_quiet(1) online ft
      demo_trip_def refl refl soon, of 4 False 0 "[]"] acc
  show ?thesis by (simp only: if_True)
qed

definition demo_run :: "system_event list" where
  "demo_run = demo_start @ demo_trip @
     map Feed (feed_round 5 4 4 (store_size (co_store (sy_core (fst (run system_step demo_server demo_trip))))))"

lemma demo_run_outputs:
  "\<exists>p f. {Commanded (demo_stub demo_call), Executed ''R-01'' p True, Displayed 5 f} \<subseteq> set (snd (run system_step new_system demo_run)) \<and>
    shown f ''c'' ''R-01'' = Some CMD_APPLIED"
proof -
  obtain ft where ft: "feed_in FeedTop 5 (sy_core demo_server) = Some ft" using demo_server_quiet(3) by blast
  have same: "read_set_parameters (oc_set_parameters demo_call) = in_params demo_intent"
    unfolding demo_call_def operator_command.select_convs cleaned_parameters
    by (simp add: demo_intent_def finite_params_same params_finite_def no_params_def)
  have cmd: "poc_command_id (demo_stub demo_call) = ''c''" "poc_set_parameters (demo_stub demo_call) = Some (in_params demo_intent)"
    "poc_targets (demo_stub demo_call) = [''R-01'']"
    by (simp_all add: demo_stub_def same) (simp_all add: demo_call_def)
  have new: "map_of (ct_commands (co_tracker (sy_core demo_server))) ''c'' = None" by (simp add: demo_server_quiet(2))
  have acc: "accepts (in_params demo_intent)" by (simp add: demo_intent_def accepts_def no_params_def)
  have online: "\<not> (\<lambda>_. False) ''R-01''" and soon: "(4::int) - 3 < 10000000000" by simp_all
  from server_round_trip[OF cmd demo_server_def new demo_server_quiet(1) online ft demo_trip_def refl refl soon, of 4] acc
  show ?thesis by (fastforce simp: demo_run_def run_append split_beta demo_server_def)
qed

theorem shown_outcomes_are_true_witness:
  "\<exists>p. Executed ''R-01'' p True \<in> set (snd (run system_step new_system demo_run)) \<and> prc_command_id p = ''c''"
proof -
  obtain f where "Displayed 5 f \<in> set (snd (run system_step new_system demo_run))" "shown f ''c'' ''R-01'' = Some CMD_APPLIED"
    using demo_run_outputs by blast
  from shown_outcomes_are_true[OF this] show ?thesis by auto
qed

theorem robots_obey_only_operators_witness:
  "\<exists>cmd. Commanded cmd \<in> set (snd (run system_step new_system demo_run)) \<and> ''R-01'' \<in> set (poc_targets cmd)"
proof -
  obtain p where "Executed ''R-01'' p True \<in> set (snd (run system_step new_system demo_run))"
    using demo_run_outputs by blast
  from robots_obey_only_operators[OF this] show ?thesis by blast
qed

end
