(* ===== verification/C2Faults.thy ===== *)
theory C2Faults
  imports EndToEnd
begin

text \<open>
  What the real system does when a robot restarts, answers late or is new, across the components
  that are each as specified: the robot's numbering, the store, the watchdog, the tracker, the feed
  and the alerts of the client. And what an operator may rely on: the ghost of a silent robot.
\<close>

section \<open>The server's organs in any run\<close>

definition core_ok :: "c2_core \<Rightarrow> bool" where
  "core_ok s \<longleftrightarrow> own_ids (co_store s) \<and> distinct (map fst (co_store s)) \<and>
     wd_stale_after (co_watchdog s) = STALE_AFTER \<and> wd_lost_after (co_watchdog s) = LOST_AFTER"

lemma core_ok_step: "core_ok s \<Longrightarrow> core_ok (fst (core_step s e))"
  by (cases e)
    (auto simp: core_ok_def own_ids_upsert distinct_upsert call_tracker_def put_feed_def split: option.split list.split)

interpretation core_organs: io_machine core_step core_ok "\<lambda>_. True"
  by unfold_locales (simp_all add: core_ok_step list_all_iff)

lemma core_ok_run: "core_ok (fst (run core_step new_core es))"
  by (rule core_organs.run_inv) (simp add: core_ok_def new_core_def new_watchdog_def own_ids_def)

text \<open>What a frame shows of a robot.\<close>

definition frame_robot :: "string \<Rightarrow> swarm_state \<Rightarrow> robot_state option" where
  "frame_robot i f = find (\<lambda>r. rb_id r = i) (sw_robots f)"

lemma rb_id_toProtobuf [simp]: "rb_id (toProtobufRobot w now t) = rt_robot_id t"
  by (simp add: toProtobufRobot_def toProtobufTelemetry_def Let_def)

lemma assembled_robots:
  assumes "own_ids (c2_store c2)" "distinct (map fst (c2_store c2))"
  shows "frame_robot i (snd (assemble system steady q c2)) =
      map_option (toProtobufRobot (c2_watchdog c2) steady) (map_of (c2_store c2) i)"
    "map rb_id (sw_robots (snd (assemble system steady q c2))) = map fst (c2_store c2)"
proof -
  have ids: "rt_robot_id t = k" if "(k, t) \<in> set (c2_store c2)" for k t using assms that by (auto simp: own_ids_def)
  then have "find (\<lambda>r. rb_id r = i) (map (toProtobufRobot (c2_watchdog c2) steady) (map snd m)) =
      map_option (toProtobufRobot (c2_watchdog c2) steady) (map_of m i)" if "set m \<subseteq> set (c2_store c2)" for m
    using that by (induction m) auto
  then show "frame_robot i (snd (assemble system steady q c2)) =
      map_option (toProtobufRobot (c2_watchdog c2) steady) (map_of (c2_store c2) i)"
    by (simp add: frame_robot_def assemble_def Let_def toProtobufRobots_def store_snapshot_def)
  show "map rb_id (sw_robots (snd (assemble system steady q c2))) = map fst (c2_store c2)"
    using ids by (auto simp: assemble_def Let_def toProtobufRobots_def store_snapshot_def)
qed

section \<open>A robot that restarts\<close>

text \<open>The callbacks of a link that delivers these messages at these times.\<close>

definition heard :: "(proto_telemetry \<times> int) list \<Rightarrow> c2_server \<Rightarrow> c2_server" where
  "heard ts c2 = foldl (\<lambda>c2 (t, now). on_telemetry now (to_domain_telemetry t) c2) c2 ts"

lemma heard_snoc: "heard (ts @ [(t, now)]) c2 = on_telemetry now (to_domain_telemetry t) (heard ts c2)"
  by (simp add: heard_def)

lemma upsert_stale:
  "map_of s i = Some u \<Longrightarrow> rt_robot_id t = i \<longrightarrow> rt_seq t \<le> rt_seq u \<Longrightarrow> map_of (fst (upsert t s)) i = Some u"
  by (auto simp: map_of_upsert store_latest_def not_less split: option.split)

lemma heard_store:
  assumes "map_of (c2_store c2) i = Some u" "\<forall>(t, now) \<in> set ts. pt_robot_id t = i \<longrightarrow> pt_seq t \<le> rt_seq u"
  shows "map_of (c2_store (heard ts c2)) i = Some u"
  using assms(2)
proof (induction ts rule: rev_induct)
  case Nil
  with assms(1) show ?case by (simp add: heard_def)
next
  case (snoc x ts)
  then show ?case by (cases x) (auto simp: heard_snoc on_telemetry_def to_domain_telemetry_def intro!: upsert_stale)
qed

lemma heard_watchdog:
  "wd_stale_after (c2_watchdog (heard ts c2)) = wd_stale_after (c2_watchdog c2)"
  "wd_lost_after (c2_watchdog (heard ts c2)) = wd_lost_after (c2_watchdog c2)"
  "ts \<noteq> [] \<Longrightarrow> map_of (wd_last_rx (c2_watchdog (heard ts c2))) (pt_robot_id (fst (last ts))) = Some (snd (last ts))"
proof -
  show "wd_stale_after (c2_watchdog (heard ts c2)) = wd_stale_after (c2_watchdog c2)"
    "wd_lost_after (c2_watchdog (heard ts c2)) = wd_lost_after (c2_watchdog c2)"
    by (induction ts rule: rev_induct) (auto simp: heard_def on_telemetry_def)
  assume "ts \<noteq> []"
  then show "map_of (wd_last_rx (c2_watchdog (heard ts c2))) (pt_robot_id (fst (last ts))) = Some (snd (last ts))"
    by (cases ts rule: rev_cases) (auto simp: heard_def on_telemetry_def to_domain_telemetry_def)
qed

text \<open>A robot numbers its telemetry from zero.\<close>

lemma restarted_numbers:
  assumes "t \<in> set (telemetry_of (snd (run sim_step (new_robot_sim i x0 y0 R V th started) es)))"
    "length (telemetry_of (snd (run sim_step (new_robot_sim i x0 y0 R V th started) es))) \<le> Suc (unat k)"
  shows "pt_seq t \<le> k"
proof -
  let ?ts = "telemetry_of (snd (run sim_step (new_robot_sim i x0 y0 R V th started) es))"
  have zero: "rs_seq (new_robot_sim i x0 y0 R V th started) = 0" by (simp add: new_robot_sim_def)
  have "pt_seq t \<in> set (map pt_seq ?ts)" using assms(1) by simp
  then obtain j where j: "j < length ?ts" "pt_seq t = of_nat j" unfolding telemetry_run zero by auto
  with assms(2) have "j \<le> unat k" by simp
  moreover have "unat (word_of_nat j :: 64 word) \<le> j" by (simp add: unat_of_nat take_bit_nat_less_eq_self)
  ultimately show ?thesis unfolding j(2) word_le_nat_alt by simp
qed

lemma sim_ids: "t \<in> set (telemetry_of (snd (run sim_step s es))) \<Longrightarrow> pt_robot_id t = rs_id s"
proof (induction es arbitrary: s)
  case (Cons e es)
  have "pt_robot_id t = rs_id s" if "t \<in> set (telemetry_of (snd (sim_step s e)))"
    using that by (cases e) (auto simp: split_beta sim_telemetry_def split: if_splits option.splits list.splits)
  with Cons show ?case by (auto simp: split_beta)
qed simp

lemma frame_of_heard:
  assumes store: "own_ids (c2_store c2)" "distinct (map fst (c2_store c2))"
    and u: "map_of (c2_store c2) i = Some u"
    and rx: "map_of (wd_last_rx (c2_watchdog c2)) i = Some rx" "wd_stale_after (c2_watchdog c2) = STALE_AFTER"
      "wd_lost_after (c2_watchdog c2) = LOST_AFTER" "steady - rx < 1500000000"
  shows "map_option (\<lambda>r. (rb_telemetry r, rb_link_status r)) (frame_robot i (snd (assemble system steady q c2))) =
    Some (toProtobufTelemetry u, LINK_LIVE)"
proof -
  have "rt_robot_id u = i" using store(1) u by (simp add: own_ids_def)
  moreover have "lh_status (wd_classify (c2_watchdog c2) i steady) = LIVE"
    using classify_exact[OF rx(1)] rx(2-4) by (simp add: STALE_AFTER_def LOST_AFTER_def)
  ultimately show ?thesis by (simp add: assembled_robots[OF store] u toProtobufRobot_def Let_def)
qed

lemma heard_store_ok:
  "own_ids (c2_store c2) \<and> distinct (map fst (c2_store c2)) \<Longrightarrow>
     own_ids (c2_store (heard ts c2)) \<and> distinct (map fst (c2_store (heard ts c2)))"
  by (induction ts rule: rev_induct) (auto simp: heard_def on_telemetry_def own_ids_upsert distinct_upsert)

section \<open>A robot that is new\<close>

lemma round_frame:
  assumes "core_ok s" "feed_in FeedTop n s = Some ft"
  shows "\<exists>s' f. run core_step s (feed_round n system steady (store_size (co_store s))) = (s', [(n, f)]) \<and>
    co_store s' = co_store s \<and> co_watchdog s' = co_watchdog s \<and> co_stored s' = co_stored s \<and>
    (\<exists>ft'. feed_in FeedTop n s' = Some ft') \<and> core_ok s' \<and>
    (\<forall>i. frame_robot i f = map_option (toProtobufRobot (co_watchdog s) steady) (map_of (co_store s) i)) \<and>
    distinct (map rb_id (sw_robots f))"
proof -
  let ?c2 = "organs new_gateway s"
  let ?f = "snd (assemble system steady (ft_seq ft) ?c2)"
  let ?es = "feed_round n system steady (store_size (co_store s))"
  obtain s' where s': "run core_step s ?es = (s', [(n, ?f)])"
    "organs new_gateway s' = fst (assemble system steady (ft_seq ft) ?c2)" "\<exists>ft'. feed_in FeedTop n s' = Some ft'"
    using undisturbed_round[OF assms(2), of system steady new_gateway] by blast
  have stored: "co_stored (fst (run core_step s es)) = co_stored s"
    if "\<forall>e \<in> set es. \<forall>t k now. e \<noteq> CoStored t \<and> e \<noteq> CoRecorded k now" for es
    using that
  proof (induction es arbitrary: s)
    case (Cons e es)
    then have "co_stored (fst (core_step s e)) = co_stored s"
      by (cases e) (auto simp: call_tracker_def put_feed_def split: option.split list.split)
    with Cons show ?case by (simp add: split_beta)
  qed simp
  have "co_stored s' = co_stored s" using stored[of ?es] s'(1) by (simp add: feed_round_def)
  moreover have "core_ok s'" using core_organs.run_inv[OF assms(1), of ?es] s'(1) by simp
  moreover have "co_store s' = co_store s" "co_watchdog s' = co_watchdog s"
    using s'(2) by (simp_all add: organs_def assemble_def Let_def)
  moreover have "own_ids (c2_store ?c2)" "distinct (map fst (c2_store ?c2))"
    using assms(1) by (simp_all add: core_ok_def organs_def)
  note robots = assembled_robots[OF this]
  have "frame_robot i ?f = map_option (toProtobufRobot (co_watchdog s) steady) (map_of (co_store s) i)" for i
    by (simp only: robots(1)) (simp add: organs_def)
  moreover have "distinct (map rb_id (sw_robots ?f))"
    using assms(1) by (simp only: robots(2)) (simp add: core_ok_def organs_def)
  ultimately show ?thesis using s'(1,3) by blast
qed

lemma robot_in_frame:
  "frame_robot i f = Some r \<Longrightarrow> distinct (map rb_id (sw_robots f)) \<Longrightarrow> frames_obs (link_obs i) (f, now) = [rb_link_status r]"
proof -
  assume "frame_robot i f = Some r" and d: "distinct (map rb_id (sw_robots f))"
  then have r: "r \<in> set (sw_robots f)" "rb_id r = i" by (auto simp: frame_robot_def find_Some_iff)
  with obs_of_member[OF d r(1), of "link_obs i"] show ?thesis by (simp add: frames_obs_def link_obs_def)
qed

section \<open>A robot that is silent\<close>

text \<open>The telemetry of a robot as the operator's client sees it, and a robot of the bridge's simulator in
  the same motion.\<close>

definition seen_telemetry :: "robot_sim \<Rightarrow> int \<Rightarrow> int \<Rightarrow> telemetry" where
  "seen_telemetry s now_steady now_system = toProtobufTelemetry (to_domain_telemetry (sim_telemetry s now_steady now_system))"

definition twin :: "motion_state \<Rightarrow> int \<Rightarrow> fake_robot" where
  "twin m now = \<lparr>fr_id = '''', fr_cx = mo_cx m, fr_cy = mo_cy m, fr_R = mo_radius m, fr_V = mo_speed m,
     fr_theta0 = mo_phase m now, fr_frozen = False, fr_cycle = False\<rparr>"

lemma twin_motion: "motion_ok m \<Longrightarrow> same_motion (twin m now) 0 m now \<and> live_ok (twin m now)"
proof -
  assume ok: "motion_ok m"
  from mo_phase_finite[OF ok] obtain p where "mo_phase m now = Fin p" by (auto simp: is_finite_iff)
  with ok show ?thesis
    by (elim motion_okE) (simp add: same_motion_def twin_def fake_phase_def live_ok_def robot_finite_def)
qed

lemma ghost_fields:
  "tl_x t = tl_x t' \<Longrightarrow> tl_y t = tl_y t' \<Longrightarrow> tl_heading t = tl_heading t' \<Longrightarrow> tl_speed t = tl_speed t' \<Longrightarrow>
     tl_radius t = tl_radius t' \<Longrightarrow> ghostPosMeters t age = ghostPosMeters t' age"
  by (simp add: ghostPosMeters_def)

text \<open>The frames around a robot's first telemetry: one between its storing and its recording, one
  after both.\<close>

lemma frames_around_arrival:
  assumes ok: "core_ok s" and feed: "feed_in FeedTop n s = Some ft" and idle: "co_stored s = []"
    and new: "map_of (co_store s) i = None" "rt_robot_id t = i" and k: "k = Suc (store_size (co_store s))"
  obtains f f' where "map snd (snd (run core_step s
      (CoStored t # feed_round n system now k @ CoRecorded 0 arrival # feed_round n system' later k))) = [f, f']"
    "frame_robot i f = Some (toProtobufRobot (co_watchdog s) now t)" "distinct (map rb_id (sw_robots f))"
    "frame_robot i f' = Some (toProtobufRobot (wd_record i arrival (co_watchdog s)) later t)" "distinct (map rb_id (sw_robots f'))"
proof -
  let ?s1 = "s\<lparr>co_store := co_store s @ [(i, t)], co_stored := [i]\<rparr>"
  have up: "fst (upsert t (co_store s)) = co_store s @ [(i, t)]"
    using new by (simp add: upsert_def emplace_def)
  then have s1: "core_step s (CoStored t) = (?s1, [])" using idle new(2) by simp
  have ok1: "core_ok ?s1" using core_ok_step[OF ok, of "CoStored t"] by (simp add: s1 del: core_step.simps)
  have k1: "k = store_size (co_store ?s1)" by (simp add: k store_size_def)
  have lookup: "([i \<mapsto> t] ++ map_of (co_store s)) i = Some t" using new(1) by (simp add: map_add_def)
  have "feed_in FeedTop n ?s1 = Some ft" using feed by (simp add: feed_in_def)
  from round_frame[OF ok1 this, of system now] obtain s2 f where
    "run core_step ?s1 (feed_round n system now (store_size (co_store ?s1))) = (s2, [(n, f)])"
    "co_store s2 = co_store ?s1" "co_watchdog s2 = co_watchdog ?s1" "co_stored s2 = co_stored ?s1" "core_ok s2"
    "\<exists>ft. feed_in FeedTop n s2 = Some ft"
    "\<forall>j. frame_robot j f = map_option (toProtobufRobot (co_watchdog ?s1) now) (map_of (co_store ?s1) j)"
    "distinct (map rb_id (sw_robots f))" by (elim exE conjE) (rule that, (assumption | rule exI)+)
  then have f: "run core_step ?s1 (feed_round n system now k) = (s2, [(n, f)])"
    "co_store s2 = co_store ?s1" "co_watchdog s2 = co_watchdog s" "co_stored s2 = [i]" "core_ok s2"
    "\<exists>ft. feed_in FeedTop n s2 = Some ft" "\<And>j. frame_robot j f = map_option (toProtobufRobot (co_watchdog s) now) (map_of (co_store ?s1) j)"
    "distinct (map rb_id (sw_robots f))" by (simp_all add: k1)
  let ?s3 = "s2\<lparr>co_watchdog := wd_record i arrival (co_watchdog s), co_stored := []\<rparr>"
  have s3: "core_step s2 (CoRecorded 0 arrival) = (?s3, [])" using f(3,4) by (simp add: remove_nth_def)
  have ok3: "core_ok ?s3" using core_ok_step[OF f(5), of "CoRecorded 0 arrival"] by (simp add: s3 del: core_step.simps)
  obtain ft3 where "feed_in FeedTop n ?s3 = Some ft3" using f(6) by (auto simp: feed_in_def)
  from round_frame[OF ok3 this, of system' later] obtain s4 f' where
    "run core_step ?s3 (feed_round n system' later (store_size (co_store ?s3))) = (s4, [(n, f')])"
    "\<forall>j. frame_robot j f' = map_option (toProtobufRobot (co_watchdog ?s3) later) (map_of (co_store ?s3) j)"
    "distinct (map rb_id (sw_robots f'))" by (elim exE conjE) (rule that, assumption+)
  then have f': "run core_step ?s3 (feed_round n system' later k) = (s4, [(n, f')])"
    "\<And>j. frame_robot j f' = map_option (toProtobufRobot (wd_record i arrival (co_watchdog s)) later) (map_of (co_store ?s1) j)"
    "distinct (map rb_id (sw_robots f'))"
    using f(2) by (simp_all add: k1)
  have frames: "map snd (snd (run core_step s
      (CoStored t # feed_round n system now k @ CoRecorded 0 arrival # feed_round n system' later k))) = [f, f']"
    using f(1) f'(1) by (simp add: s1 s3 run_append del: core_step.simps)
  show ?thesis by (rule that[OF frames _ f(8) _ f'(3)]) (simp_all add: f(7) f'(2) lookup)
qed

section \<open>Properties\<close>

text \<open>C30: The ghost and the orbit that the client draws are those of the real robot: from one telemetry
  of a robot with finite motion, whatever commands have shaped it, the extrapolated position at any
  age is the one the robot's own motion model has that much later, to the nanosecond, and the
  centre recovered is the robot's.\<close>

theorem real_ghost_is_true_position:
  assumes "motion_ok (rs_motion s)"
  shows "ghostPosMeters (seen_telemetry s now system) age =
      (fst (computePosition (rs_motion s) (now + age * 1000000)),
       fst (snd (computePosition (rs_motion s) (now + age * 1000000)))) \<and>
    orbitCenterMeters (tl_x (seen_telemetry s now system)) (tl_y (seen_telemetry s now system))
      (tl_radius (seen_telemetry s now system)) (tl_heading (seen_telemetry s now system)) =
      (mo_cx (rs_motion s), mo_cy (rs_motion s))"
proof -
  let ?m = "rs_motion s" and ?r = "twin (rs_motion s) now" and ?t = "seen_telemetry s now system"
  from twin_motion[OF assms, of now] have same: "same_motion ?r 0 ?m now" and live: "live_ok ?r" by simp_all
  from live have r: "robot_finite ?r" "\<not> fr_frozen ?r" "\<not> fr_cycle ?r" by (simp_all add: live_ok_def)
  let ?f = "\<lambda>e. rb_telemetry (fake_robotState e 0 ?r)"
  note pos = same_motion_position[OF same r(2,3), of 0]
  have fields: "tl_x ?t = tl_x (?f 0)" "tl_y ?t = tl_y (?f 0)" "tl_heading ?t = tl_heading (?f 0)"
    "tl_speed ?t = tl_speed (?f 0)" "tl_radius ?t = tl_radius (?f 0)"
    using pos live_state[OF r(2,3), of 0 0]
    by (simp_all add: seen_telemetry_def sim_telemetry_def to_domain_telemetry_def toProtobufTelemetry_def split_beta)
      (simp_all add: twin_def Let_def)
  have "same_motion ?r (of_int age / 1000) ?m (now + age * 1000000)"
    using same_motion_later[OF same r(1), of "age * 1000000"] by simp
  from same_motion_position[OF this r(2,3), of 0] fake_motion.dead_reckoning[OF live, of 0 0 age]
  have ghost: "ghostPosMeters ?t age = (fst (computePosition ?m (now + age * 1000000)), fst (snd (computePosition ?m (now + age * 1000000))))"
    by (simp add: ghost_fields[OF fields])
  have center: "fr_cx ?r = mo_cx ?m" "fr_cy ?r = mo_cy ?m" by (simp_all add: twin_def)
  from conjunct1[OF center_of_telemetry[OF r(1,2) order_refl, of 0]] ghost show ?thesis
    unfolding fields center by simp
qed

text \<open>C36: A robot that restarts is frozen on every screen although its link is LIVE: it numbers its
  telemetry from zero again and the store keeps the highest number, so the frames show the last
  position of the old process until the new one has sent as many messages as the old one had.\<close>

theorem restarted_robot_frozen:
  assumes "s = fst (run core_step new_core es)" "map_of (co_store s) i = Some u"
    and "ts = telemetry_of (snd (run sim_step (new_robot_sim i x0 y0 R V th started) rs))"
    and "ts \<noteq> []" "length ts \<le> Suc (unat (rt_seq u))" "length at_times = length ts" "steady - last at_times < 1500000000"
  shows "map_option (\<lambda>r. (rb_telemetry r, rb_link_status r))
      (frame_robot i (snd (assemble system steady q (heard (zip ts at_times) (organs g s))))) =
    Some (toProtobufTelemetry u, LINK_LIVE)"
proof -
  let ?h = "heard (zip ts at_times) (organs g s)"
  have ok: "core_ok s" unfolding assms(1) by (rule core_ok_run)
  then have store: "own_ids (c2_store ?h) \<and> distinct (map fst (c2_store ?h))"
    by (intro heard_store_ok) (simp add: core_ok_def organs_def)
  have id: "pt_robot_id t = i" if "t \<in> set ts" for t
    using sim_ids[OF that[unfolded assms(3)]] by (simp add: new_robot_sim_def)
  have "pt_seq t \<le> rt_seq u" if "t \<in> set ts" for t
    using restarted_numbers[OF that[unfolded assms(3)] assms(5)[unfolded assms(3)]] .
  then have "\<forall>(t, now) \<in> set (zip ts at_times). pt_robot_id t = i \<longrightarrow> pt_seq t \<le> rt_seq u"
    by (auto dest: set_zip_leftD)
  moreover have "map_of (c2_store (organs g s)) i = Some u" using assms(2) by (simp add: organs_def)
  ultimately have u: "map_of (c2_store ?h) i = Some u" by (rule heard_store[rotated])
  have "at_times \<noteq> []" using assms(4,6) by auto
  with assms(4,6) have "zip ts at_times \<noteq> []" "last (zip ts at_times) = (last ts, last at_times)"
    by (simp_all add: last_zip zip_eq_Nil_iff)
  with heard_watchdog(3)[of "zip ts at_times" "organs g s"] id[of "last ts"] assms(4)
  have rx: "map_of (wd_last_rx (c2_watchdog ?h)) i = Some (last at_times)" by simp
  from frame_of_heard[OF conjunct1[OF store] conjunct2[OF store] u rx] ok assms(7) show ?thesis
    by (simp add: heard_watchdog core_ok_def organs_def)
qed

text \<open>C38: A command that has expired is executed all the same if it is still on its way: the robot does
  not look at the expiry, its motion changes, and its answer changes nothing: the operator goes on
  seeing EXPIRED.\<close>

theorem expired_command_still_executes:
  assumes "map_of (sy_links s) n = Some l" "ln_down l = [p]" "ln_up l = []"
    "prc_robot_id p = i" "prc_command_id p = c" "prc_set_parameters p = Some sp"
    and "map_of (gw_reactors (sy_gateway s)) n = Some r" "re_registered r" "re_reading r"
    and "rs_id (ln_robot l) = i" "rs_outgoing (ln_robot l) = []" "rs_pending (ln_robot l) = None"
      "rs_reading (ln_robot l)" "rs_running (ln_robot l)" "rs_pc (ln_robot l) = AtTop"
    and "outcome (co_tracker (sy_core s)) c i = Some CMD_EXPIRED"
    and "s' = fst (run system_step s (way_up n steady sys answered))"
  shows "snd (run system_step s (way_up n steady sys answered)) = [Executed i p (accepts sp)] \<and>
    map_option (\<lambda>l. rs_motion (ln_robot l)) (map_of (sy_links s') n) =
      Some (fst (sim_applyParams steady sp (rs_motion (ln_robot l)))) \<and>
    co_tracker (sy_core s') = co_tracker (sy_core s)"
proof -
  note up = went_up[OF assms(1,2,3,6,4,7-15,17)]
  have "onCommandResult (to_domain_result (result_for i p (accepts sp))) answered (co_tracker (sy_core s)) = co_tracker (sy_core s)"
    using assms(5,16) by (auto simp: onCommandResult_def outcome_def to_domain_result_def result_for_def bind_eq_Some_conv split: option.split)
  with up show ?thesis by simp
qed

text \<open>C37: The ids are taken on trust: a command under an id that is still tracked, for a robot that the first
  command was not addressed to, is dispatched all the same, and the robot executes and answers it;
  but the tracker is left exactly as it was, so that no frame ever shows the robot among the targets
  of that id, nor what it did.\<close>

theorem reused_id_executes_unseen:
  assumes "quiet_link n i l r s" "poc_set_parameters cmd = Some sp" "poc_targets cmd = [i]" "\<not> off i"
    and "map_of (ct_commands (co_tracker (sy_core s))) (poc_command_id cmd) = Some tc" "map_of (tk_targets tc) i = None"
    and "s' = fst (run system_step s (way_down n (length (sy_dispatch s)) cmd off t0 @ way_up n steady sys answered))"
  shows "(\<exists>p. snd (run system_step s (way_down n (length (sy_dispatch s)) cmd off t0 @ way_up n steady sys answered)) =
      [Commanded cmd, Executed i p (accepts sp)]) \<and>
    map_option (\<lambda>l. rs_motion (ln_robot l)) (map_of (sy_links s') n) =
      Some (fst (sim_applyParams steady sp (rs_motion (ln_robot l)))) \<and>
    co_tracker (sy_core s') = co_tracker (sy_core s)"
proof -
  define s0 where "s0 = fst (run system_step s (way_down n (length (sy_dispatch s)) cmd off t0))"
  note down = went_down[OF assms(1-4) refl s0_def]
  let ?p = "to_proto (robot_command_for (toDomainOperatorCommand cmd sp) i)"
  have quiet: "re_registered r" "re_reading r" "ln_up (l\<lparr>ln_down := [?p]\<rparr>) = []" "ln_down (l\<lparr>ln_down := [?p]\<rparr>) = [?p]"
    "rs_id (ln_robot (l\<lparr>ln_down := [?p]\<rparr>)) = i" "rs_outgoing (ln_robot (l\<lparr>ln_down := [?p]\<rparr>)) = []"
    "rs_pending (ln_robot (l\<lparr>ln_down := [?p]\<rparr>)) = None" "rs_reading (ln_robot (l\<lparr>ln_down := [?p]\<rparr>))"
    "rs_running (ln_robot (l\<lparr>ln_down := [?p]\<rparr>))" "rs_pc (ln_robot (l\<lparr>ln_down := [?p]\<rparr>)) = AtTop"
    using assms(1) by (simp_all add: quiet_link_def)
  have p: "prc_set_parameters ?p = Some sp" "prc_robot_id ?p = i"
    by (rule sent_fields(3)[OF refl]) simp
  have s': "s' = fst (run system_step s0 (way_up n steady sys answered))"
    by (simp add: assms(7) s0_def run_append split_beta)
  note up = went_up[OF down(3) quiet(4,3) p down(4) quiet(1,2) quiet(5-10) s']
  let ?t = "co_tracker (sy_core s)" and ?c = "poc_command_id cmd"
  have "fst (onCommandSubmitted (toDomainOperatorCommand cmd sp) off t0 ?t) = ?t"
    using assms(5) by (simp add: submitted_eq emplace_def)
  moreover have "onCommandSent ?c i ?t = ?t" using assms(5,6) by (simp add: onCommandSent_def)
  ultimately have sent: "co_tracker (sy_core s0) = ?t" by (simp add: down(2))
  have "co_tracker (sy_core s') = ?t"
    using assms(5,6) unfolding up(2) sent by (simp add: onCommandResult_def to_domain_result_def result_for_def)
  moreover have "snd (run system_step s (way_down n (length (sy_dispatch s)) cmd off t0 @ way_up n steady sys answered)) =
      [Commanded cmd, Executed i ?p (accepts sp)]"
    using down(1) up(1) by (simp add: run_append split_beta s0_def)
  ultimately show ?thesis using up(3) by simp
qed

text \<open>C39: A robot that appears may be shown LOST at first, with an age of -1, and announced as
  recovered: its telemetry is stored before its arrival is recorded, and a frame can be made in
  between. The client then raises an alert for a loss that never was.\<close>

theorem new_robot_flashes_lost:
  assumes "s = fst (run core_step new_core es)" "feed_in FeedTop n s = Some ft" "co_stored s = []"
    and "map_of (co_store s) i = None" "map_of (wd_last_rx (co_watchdog s)) i = None"
    and "rt_robot_id t = i" "later - arrival < 1500000000" "k = Suc (store_size (co_store s))"
  shows "\<exists>f f'. map snd (snd (run core_step s
      (CoStored t # feed_round n system now k @ CoRecorded 0 arrival # feed_round n system' later k))) = [f, f'] \<and>
    map_option (\<lambda>r. (rb_link_status r, rb_age_ms r)) (frame_robot i f) = Some (LINK_LOST, -1) \<and>
    map_option rb_link_status (frame_robot i f') = Some LINK_LIVE \<and>
    concat (map (sev_of LinkAlert i) (snd (ingest_all inside new_engine [(f, u), (f', u')]))) = [Info]"
proof -
  have ok: "core_ok s" unfolding assms(1) by (rule core_ok_run)
  let ?r = "toProtobufRobot (co_watchdog s) now t" and ?r' = "toProtobufRobot (wd_record i arrival (co_watchdog s)) later t"
  from frames_around_arrival[OF ok assms(2,3,4,6,8), of system now arrival system' later] obtain f f' where
    f: "map snd (snd (run core_step s
      (CoStored t # feed_round n system now k @ CoRecorded 0 arrival # feed_round n system' later k))) = [f, f']"
    "frame_robot i f = Some ?r" "distinct (map rb_id (sw_robots f))"
    "frame_robot i f' = Some ?r'" "distinct (map rb_id (sw_robots f'))" .
  have lost: "rb_link_status ?r = LINK_LOST" "rb_age_ms ?r = -1"
    using assms(5,6) by (simp_all add: toProtobufRobot_def wd_classify_def)
  have "lh_status (wd_classify (wd_record i arrival (co_watchdog s)) i later) = LIVE"
    using ok assms(7) by (intro fresh_telemetry_is_live) (simp_all add: core_ok_def STALE_AFTER_def LOST_AFTER_def)
  then have live: "rb_link_status ?r' = LINK_LIVE" using assms(6) by (simp add: toProtobufRobot_def Let_def)
  have "concat (map (sev_of LinkAlert i) (snd (ingest_all inside new_engine [(f, u), (f', u')]))) = [Info]"
    using robot_in_frame[OF f(2,3)] robot_in_frame[OF f(4,5)]
      link_frame.run_refines[where i = i and inside = inside and s = new_engine and es = "[(f, u), (f', u')]"]
    by (simp add: ingest_all_def new_engine_def lost live)
  with f lost live show ?thesis by auto
qed

section \<open>Instances\<close>

definition demo_sim :: robot_sim where
  "demo_sim = new_robot_sim ''R-01'' (Fin 0) (Fin 0) (Fin 80) (Fin 14) (Fin 0) 0"

lemma demo_sim_motion [simp]: "rs_motion demo_sim = demo_motion"
  by (simp add: demo_sim_def new_robot_sim_def demo_motion_def)

theorem real_ghost_is_true_position_witness:
  "ghostPosMeters (seen_telemetry demo_sim 0 0) 2000 =
     (fst (computePosition demo_motion 2000000000), fst (snd (computePosition demo_motion 2000000000)))"
  using real_ghost_is_true_position[of demo_sim 0 0 2000] by (simp add: demo_motion_ok)

theorem restarted_robot_frozen_witness:
  "map_option (\<lambda>r. (rb_telemetry r, rb_link_status r))
     (frame_robot ''R-01'' (snd (assemble 8 8 0
        (heard [(sim_telemetry demo_sim 7 7, 7)] (organs new_gateway (fst (run core_step new_core [CoStored (demo_sample ''R-01'' 5)]))))))) =
   Some (toProtobufTelemetry (demo_sample ''R-01'' 5), LINK_LIVE)"
proof -
  let ?ts = "telemetry_of (snd (run sim_step demo_sim [WriterTick 7 7 True]))"
  have ts: "?ts = [sim_telemetry demo_sim 7 7]" by (simp add: demo_sim_def new_robot_sim_def)
  have "map_of (co_store (fst (run core_step new_core [CoStored (demo_sample ''R-01'' 5)]))) ''R-01'' = Some (demo_sample ''R-01'' 5)"
    by (simp add: new_core_def upsert_def emplace_def)
  from restarted_robot_frozen[OF refl this demo_sim_def[THEN arg_cong[where f = "\<lambda>s. telemetry_of (snd (run sim_step s [WriterTick 7 7 True]))"]],
      of "[7]" 8 8 0 new_gateway]
  show ?thesis by (simp add: ts del: run.simps)
qed

theorem new_robot_flashes_lost_witness:
  "\<exists>f f'. map_option (\<lambda>r. (rb_link_status r, rb_age_ms r)) (frame_robot ''R-01'' f) = Some (LINK_LOST, -1) \<and>
     map_option rb_link_status (frame_robot ''R-01'' f') = Some LINK_LIVE \<and>
     concat (map (sev_of LinkAlert ''R-01'') (snd (ingest_all (\<lambda>_ _. True) new_engine [(f, 1), (f', 2)]))) = [Info]"
proof -
  let ?s = "fst (run core_step new_core [CoSubscribe 0])"
  obtain ft where ft: "feed_in FeedTop 0 ?s = Some ft" by (simp add: new_core_def put_feed_def feed_in_def)
  have s: "co_stored ?s = []" "map_of (co_store ?s) ''R-01'' = None" "map_of (wd_last_rx (co_watchdog ?s)) ''R-01'' = None"
    by (simp_all add: new_core_def put_feed_def new_watchdog_def)
  have t: "rt_robot_id (demo_sample ''R-01'' 0) = ''R-01''" and soon: "(6::int) - 5 < 1500000000" by simp_all
  from new_robot_flashes_lost[OF refl ft s t soon refl, of 4 4 6 "\<lambda>_ _. True" 1 2] show ?thesis by blast
qed

text \<open>A command that expires on the stream to the robot.\<close>

definition demo_late :: "system_event list" where
  "demo_late = way_down 0 0 (demo_stub demo_call) (\<lambda>_. False) 1 @ map Feed (feed_round 5 5007000000 4 1)"

definition late_system :: c2_system where
  "late_system = fst (run system_step demo_server demo_late)"

lemma late_system_facts:
  defines "p \<equiv> to_proto (robot_command_for (toDomainOperatorCommand (demo_stub demo_call) (in_params demo_intent)) ''R-01'')"
    and "l \<equiv> the (map_of (sy_links demo_server) 0)" and "r \<equiv> the (map_of (gw_reactors (sy_gateway demo_server)) 0)"
  shows "map_of (sy_links late_system) 0 = Some (l\<lparr>ln_down := [p]\<rparr>)" "map_of (gw_reactors (sy_gateway late_system)) 0 = Some r"
    "outcome (co_tracker (sy_core late_system)) ''c'' ''R-01'' = Some CMD_EXPIRED"
proof -
  have same: "read_set_parameters (oc_set_parameters demo_call) = in_params demo_intent"
    unfolding demo_call_def operator_command.select_convs cleaned_parameters
    by (simp add: demo_intent_def finite_params_same params_finite_def no_params_def)
  have cmd: "poc_set_parameters (demo_stub demo_call) = Some (in_params demo_intent)" "poc_targets (demo_stub demo_call) = [''R-01'']"
    "poc_command_id (demo_stub demo_call) = ''c''" "toDomainTimestamp (poc_expiry (demo_stub demo_call)) = 5007000000"
    by (simp_all add: demo_stub_def same) (simp_all add: demo_call_def toDomainTimestamp_def toProtoTimestamp_def js_rem_def)
  have k: "length (sy_dispatch demo_server) = 0" by (simp add: demo_server_quiet(4))
  define s0 where "s0 = fst (run system_step demo_server (way_down 0 0 (demo_stub demo_call) (\<lambda>_. False) 1))"
  note down = went_down[where off = "\<lambda>_. False" and ?t0.0 = 1, OF demo_server_quiet(1) cmd(1,2) _ refl, of s0, unfolded k, folded s0_def, simplified]
  have own: "list_all own_event (feed_round 5 5007000000 4 1)" by (simp add: feed_round_def)
  have late: "late_system = s0\<lparr>sy_core := fst (run core_step (sy_core s0) (feed_round 5 5007000000 4 1))\<rparr>"
    by (simp add: late_system_def demo_late_def run_append split_beta s0_def[symmetric] feed_events[OF own] del: One_nat_def)
  show "map_of (sy_links late_system) 0 = Some (l\<lparr>ln_down := [p]\<rparr>)" by (simp add: late down(3) l_def p_def)
  show "map_of (gw_reactors (sy_gateway late_system)) 0 = Some r" by (simp add: late down(4) r_def)
  obtain ft where "feed_in FeedTop 5 (sy_core s0) = Some ft"
    using demo_server_quiet(3) by (auto simp: feed_in_def down(5))
  moreover have "store_size (co_store (sy_core s0)) = 1" by (simp add: down(6) demo_server_quiet(5))
  ultimately have "organs new_gateway (sy_core late_system) = fst (assemble 5007000000 4 (ft_seq ft) (organs new_gateway (sy_core s0)))"
    using undisturbed_round[of 5 "sy_core s0" ft 5007000000 4 new_gateway] by (auto simp: late)
  from arg_cong[where f = c2_tracker, OF this]
  have tracker: "co_tracker (sy_core late_system) = sweepExpired 5007000000 (co_tracker (sy_core s0))"
    by (simp add: organs_def assemble_def Let_def)
  have fields: "op_command_id (toDomainOperatorCommand cmd sp) = poc_command_id cmd"
    "op_targets (toDomainOperatorCommand cmd sp) = poc_targets cmd"
    "op_expiry (toDomainOperatorCommand cmd sp) = toDomainTimestamp (poc_expiry cmd)" for cmd sp
    by (simp_all add: toDomainOperatorCommand_def)
  have "ct_retention (co_tracker (sy_core demo_server)) = RETENTION" unfolding demo_server_def by (rule reachable_retention)
  then show "outcome (co_tracker (sy_core late_system)) ''c'' ''R-01'' = Some CMD_EXPIRED"
    unfolding tracker down(2)
    by (simp add: RETENTION_def submitted_eq demo_server_quiet(2) emplace_def submitted_command_def fields cmd born_def refreshCompletion_def
        onCommandSent_def sweepExpired_def map_vals_def expire_command_def expire_target_def retained_def outcome_def)
qed

theorem expired_command_still_executes_witness:
  "\<exists>p. outcome (co_tracker (sy_core late_system)) ''c'' ''R-01'' = Some CMD_EXPIRED \<and>
     snd (run system_step late_system (way_up 0 6007000000 6007000000 6007000000)) = [Executed ''R-01'' p True]"
proof -
  let ?p = "to_proto (robot_command_for (toDomainOperatorCommand (demo_stub demo_call) (in_params demo_intent)) ''R-01'')"
  let ?l = "(the (map_of (sy_links demo_server) 0))\<lparr>ln_down := [?p]\<rparr>"
  have quiet: "re_registered (the (map_of (gw_reactors (sy_gateway demo_server)) 0))"
    "re_reading (the (map_of (gw_reactors (sy_gateway demo_server)) 0))" "ln_down ?l = [?p]" "ln_up ?l = []"
    "rs_id (ln_robot ?l) = ''R-01''" "rs_outgoing (ln_robot ?l) = []" "rs_pending (ln_robot ?l) = None"
    "rs_reading (ln_robot ?l)" "rs_running (ln_robot ?l)" "rs_pc (ln_robot ?l) = AtTop"
    using demo_server_quiet(1) by (simp_all add: quiet_link_def)
  have p: "prc_robot_id ?p = ''R-01''" "prc_command_id ?p = ''c''" "prc_set_parameters ?p = Some (in_params demo_intent)"
    by (simp_all add: demo_stub_def demo_call_def sent_fields(3)[OF refl])
  have "accepts (in_params demo_intent)" by (simp add: demo_intent_def accepts_def no_params_def)
  with expired_command_still_executes[OF late_system_facts(1) quiet(3,4) p late_system_facts(2) quiet(1,2,5-10) late_system_facts(3) refl,
      of 6007000000 6007000000 6007000000] late_system_facts(3)
  show ?thesis by auto
qed

text \<open>The id of a command to a robot that is not there, used again.\<close>

definition first_use :: proto_operator_command where
  "first_use = \<lparr>poc_command_id = ''c'', poc_timestamp = toProtobufTimestamp 0, poc_expiry = toProtobufTimestamp 5000000000,
     poc_targets = [''R-02''], poc_set_parameters = Some no_params\<rparr>"

definition second_use :: proto_operator_command where
  "second_use = first_use\<lparr>poc_targets := [''R-01''], poc_set_parameters := Some (no_params\<lparr>pr_speed := Some (Fin 20)\<rparr>)\<rparr>"

definition used_system :: c2_system where
  "used_system = fst (run system_step demo_server [Operator first_use (\<lambda>_. False) 1])"

lemma used_system_facts:
  "quiet_link 0 ''R-01'' (the (map_of (sy_links demo_server) 0)) (the (map_of (gw_reactors (sy_gateway demo_server)) 0)) used_system"
  "\<exists>tc. map_of (ct_commands (co_tracker (sy_core used_system))) ''c'' = Some tc \<and> map_of (tk_targets tc) ''R-01'' = None"
proof -
  show "quiet_link 0 ''R-01'' (the (map_of (sy_links demo_server) 0)) (the (map_of (gw_reactors (sy_gateway demo_server)) 0)) used_system"
    using demo_server_quiet(1) by (simp add: used_system_def operator_def first_use_def to_core_def quiet_link_def Let_def)
  show "\<exists>tc. map_of (ct_commands (co_tracker (sy_core used_system))) ''c'' = Some tc \<and> map_of (tk_targets tc) ''R-01'' = None"
    by (simp add: used_system_def operator_def first_use_def to_core_def call_tracker_def submitted_eq Let_def emplace_def
        demo_server_quiet(2) submitted_command_def refreshCompletion_def toDomainOperatorCommand_def)
qed

theorem reused_id_executes_unseen_witness:
  "\<exists>p. snd (run system_step used_system (way_down 0 (length (sy_dispatch used_system)) second_use (\<lambda>_. False) 2 @ way_up 0 3 3 3)) =
     [Commanded second_use, Executed ''R-01'' p True]"
proof -
  obtain tc where tc: "map_of (ct_commands (co_tracker (sy_core used_system))) (poc_command_id second_use) = Some tc"
    "map_of (tk_targets tc) ''R-01'' = None"
    using used_system_facts(2) by (auto simp: second_use_def first_use_def)
  have cmd: "poc_set_parameters second_use = Some (no_params\<lparr>pr_speed := Some (Fin 20)\<rparr>)" "poc_targets second_use = [''R-01'']"
    "\<not> (\<lambda>_. False) ''R-01''" by (simp_all add: second_use_def)
  have "accepts (no_params\<lparr>pr_speed := Some (Fin 20)\<rparr>)" by (simp add: accepts_def no_params_def)
  with conjunct1[OF reused_id_executes_unseen[OF used_system_facts(1) cmd tc refl, of 2 3 3 3]] show ?thesis by simp
qed

end
