(* ===== verification/OperatorGui.thy ===== *)
theory OperatorGui
  imports OperatorFeed JsString
begin

text \<open>
  \<open>src/gui/operator_gui\<close>: the desktop client of the operators, in C#. \<open>MainViewModel\<close> is a record of its
  fields; the view models of the robots are objects that the collections \<open>Robots\<close> and \<open>SelectedRobots\<close>
  and the dictionary \<open>_byId\<close> share, one per id, so the id stands for the reference and
  \<open>mw_robots\<close> holds the objects in the order of \<open>Robots\<close>. The handler that \<open>ApplyFrame\<close> attaches to a
  robot is called when \<open>IsSelected\<close> changes, inside the assignment. Everything runs on the
  dispatcher's thread, one event at a time. A \<open>double\<close> is a \<open>jsnum\<close>; the messages are those of the
  protocol file, as the server's.
\<close>

section \<open>View models\<close>

record robot_vm =
  vm_X :: jsnum
  vm_Y :: jsnum
  vm_CanvasX :: jsnum
  vm_CanvasY :: jsnum
  vm_Heading :: jsnum
  vm_Speed :: jsnum
  vm_Radius :: jsnum
  vm_Status :: string
  vm_Age :: int
  vm_IsSelected :: bool
  vm_WorldTrail :: "(jsnum \<times> jsnum) list"
  vm_Trail :: "(jsnum \<times> jsnum) list"

definition new_robot_vm :: robot_vm where
  "new_robot_vm =
     \<lparr>vm_X = Fin 0, vm_Y = Fin 0, vm_CanvasX = Fin 0, vm_CanvasY = Fin 0, vm_Heading = Fin 0, vm_Speed = Fin 0,
      vm_Radius = Fin 0, vm_Status = ''PENDING'', vm_Age = 0, vm_IsSelected = False, vm_WorldTrail = [], vm_Trail = []\<rparr>"

text \<open>A command's row is its id and its chips, a chip a robot and the label of its state.\<close>

record main_vm =
  mw_robots :: "(string \<times> robot_vm) list"
  mw_commands :: "(string \<times> (string \<times> string) list) list"
  mw_StatusText :: string
  mw_Scale :: jsnum
  mw_CenterX :: jsnum
  mw_CenterY :: jsnum
  mw_VW :: jsnum
  mw_VH :: jsnum
  mw_CommandSpeed :: jsnum
  mw_CommandSpeedEdited :: bool
  mw_CommandRadius :: jsnum
  mw_CommandRadiusEdited :: bool
  mw_SelectedRobots :: "string list"
  mw_LiveCount :: nat
  mw_StaleCount :: nat
  mw_LostCount :: nat

definition new_main_vm :: "string \<Rightarrow> main_vm" where
  "new_main_vm feed =
     \<lparr>mw_robots = [], mw_commands = [], mw_StatusText = ''feed: '' @ feed,
      mw_Scale = Fin (6 / 10), mw_CenterX = Fin 300, mw_CenterY = Fin 0, mw_VW = Fin 800, mw_VH = Fin 450,
      mw_CommandSpeed = Fin 0, mw_CommandSpeedEdited = False, mw_CommandRadius = Fin 0, mw_CommandRadiusEdited = False,
      mw_SelectedRobots = [], mw_LiveCount = 0, mw_StaleCount = 0, mw_LostCount = 0\<rparr>"

section \<open>The command panel and the selection\<close>

text \<open>\<open>user\<close> is whether the operator typed the value or the code put it there.\<close>

definition SetCommandSpeed :: "jsnum \<Rightarrow> bool \<Rightarrow> main_vm \<Rightarrow> main_vm" where
  "SetCommandSpeed v user m =
     m\<lparr>mw_CommandSpeed := v, mw_CommandSpeedEdited := mw_CommandSpeedEdited m \<or> user\<rparr>"

definition SetCommandRadius :: "jsnum \<Rightarrow> bool \<Rightarrow> main_vm \<Rightarrow> main_vm" where
  "SetCommandRadius v user m =
     m\<lparr>mw_CommandRadius := v, mw_CommandRadiusEdited := mw_CommandRadiusEdited m \<or> user\<rparr>"

definition first_selected :: "main_vm \<Rightarrow> robot_vm option" where
  "first_selected m = (case mw_SelectedRobots m of i # _ \<Rightarrow> map_of (mw_robots m) i | [] \<Rightarrow> None)"

definition update_panel :: "main_vm \<Rightarrow> main_vm" where
  "update_panel m =
     (case first_selected m of
        Some r \<Rightarrow> SetCommandRadius (vm_Radius r) False (SetCommandSpeed (vm_Speed r) False m)
      | None \<Rightarrow> m)"

text \<open>The setter of \<open>IsSelected\<close>: nothing if the value is the same, else the handler is called.\<close>

definition on_IsSelected :: "string \<Rightarrow> bool \<Rightarrow> main_vm \<Rightarrow> main_vm" where
  "on_IsSelected i selected m =
     update_panel
       (m\<lparr>mw_SelectedRobots :=
          (if selected
           then (if i \<in> set (mw_SelectedRobots m) then mw_SelectedRobots m else mw_SelectedRobots m @ [i])
           else remove1 i (mw_SelectedRobots m))\<rparr>)"

definition set_IsSelected :: "bool \<Rightarrow> string \<Rightarrow> main_vm \<Rightarrow> main_vm" where
  "set_IsSelected selected i m =
     (case map_of (mw_robots m) i of
        None \<Rightarrow> m
      | Some r \<Rightarrow>
          (if vm_IsSelected r = selected then m
           else on_IsSelected i selected
                  (m\<lparr>mw_robots := AList.update i (r\<lparr>vm_IsSelected := selected\<rparr>) (mw_robots m)\<rparr>)))"

definition SetSelection :: "string list \<Rightarrow> main_vm \<Rightarrow> main_vm" where
  "SetSelection robots m =
     (let m1 = foldl (\<lambda>m i. set_IsSelected (i \<in> set robots) i m) m (map fst (mw_robots m))
      in update_panel (m1\<lparr>mw_CommandSpeedEdited := False, mw_CommandRadiusEdited := False\<rparr>))"

definition ToggleSelection :: "string \<Rightarrow> main_vm \<Rightarrow> main_vm" where
  "ToggleSelection i m =
     (case map_of (mw_robots m) i of Some r \<Rightarrow> set_IsSelected (\<not> vm_IsSelected r) i m | None \<Rightarrow> m)"

section \<open>The picture\<close>

definition WorldToCanvas :: "main_vm \<Rightarrow> jsnum \<Rightarrow> jsnum \<Rightarrow> jsnum \<times> jsnum" where
  "WorldToCanvas m x y =
     ((x - mw_CenterX m) * mw_Scale m + mw_VW m / Fin 2, (mw_CenterY m - y) * mw_Scale m + mw_VH m / Fin 2)"

definition RebuildTrail :: "main_vm \<Rightarrow> robot_vm \<Rightarrow> robot_vm" where
  "RebuildTrail m r = r\<lparr>vm_Trail := map (\<lambda>(x, y). WorldToCanvas m x y) (vm_WorldTrail r)\<rparr>"

definition Math_Min :: "jsnum \<Rightarrow> jsnum \<Rightarrow> jsnum" where
  "Math_Min a b = (if a = NaN \<or> b = NaN then NaN else if a \<le> b then a else b)"

definition Math_Max :: "jsnum \<Rightarrow> jsnum \<Rightarrow> jsnum" where
  "Math_Max a b = (if a = NaN \<or> b = NaN then NaN else if a \<le> b then b else a)"

definition double_MaxValue :: real where "double_MaxValue = 2 ^ 1024 - 2 ^ 971"

definition FitAll :: "main_vm \<Rightarrow> main_vm" where
  "FitAll m =
     (if mw_robots m = [] then m
      else
        (let robots = map snd (mw_robots m);
             minX = foldl (\<lambda>a r. Math_Min a (vm_X r)) (Fin double_MaxValue) robots;
             maxX = foldl (\<lambda>a r. Math_Max a (vm_X r)) (Fin (- double_MaxValue)) robots;
             minY = foldl (\<lambda>a r. Math_Min a (vm_Y r)) (Fin double_MaxValue) robots;
             maxY = foldl (\<lambda>a r. Math_Max a (vm_Y r)) (Fin (- double_MaxValue)) robots;
             worldWidth = Math_Max (maxX - minX) (Fin 1);
             worldHeight = Math_Max (maxY - minY) (Fin 1);
             m1 = m\<lparr>mw_Scale := Math_Min (mw_VW m / worldWidth) (mw_VH m / worldHeight) * Fin (9 / 10),
                    mw_CenterX := (minX + maxX) / Fin 2, mw_CenterY := (minY + maxY) / Fin 2\<rparr>
         in m1\<lparr>mw_robots := map_vals (\<lambda>r. let (cx, cy) = WorldToCanvas m1 (vm_X r) (vm_Y r)
               in RebuildTrail m1 (r\<lparr>vm_CanvasX := cx, vm_CanvasY := cy\<rparr>)) (mw_robots m1)\<rparr>))"

section \<open>Frames\<close>

fun StatusLabel :: "link_status \<Rightarrow> string" where
  "StatusLabel LINK_LIVE = ''LIVE''"
| "StatusLabel LINK_STALE = ''STALE''"
| "StatusLabel LINK_LOST = ''LOST''"
| "StatusLabel _ = ''?''"

fun CmdStateLabel :: "command_state \<Rightarrow> string" where
  "CmdStateLabel CMD_PENDING = ''PENDING''"
| "CmdStateLabel CMD_SENT = ''SENT''"
| "CmdStateLabel CMD_APPLIED = ''APPLIED''"
| "CmdStateLabel CMD_REJECTED = ''REJECTED''"
| "CmdStateLabel CMD_EXPIRED = ''EXPIRED''"
| "CmdStateLabel CMD_ROBOT_OFFLINE = ''OFFLINE''"
| "CmdStateLabel _ = ''?''"

text \<open>In the generated class a robot's telemetry may be null.\<close>

record gui_robot =
  gr_Telemetry :: "telemetry option"
  gr_LinkStatus :: link_status
  gr_AgeMs :: int

definition add_trail :: "jsnum \<times> jsnum \<Rightarrow> (jsnum \<times> jsnum) list \<Rightarrow> (jsnum \<times> jsnum) list" where
  "add_trail p trail = (let t = trail @ [p] in if length t > 50 then tl t else t)"

definition show_robot :: "main_vm \<Rightarrow> telemetry \<Rightarrow> gui_robot \<Rightarrow> robot_vm \<Rightarrow> robot_vm" where
  "show_robot m tel rs v =
     (let (cx, cy) = WorldToCanvas m (tl_x tel) (tl_y tel)
      in RebuildTrail m
           (v\<lparr>vm_X := tl_x tel, vm_Y := tl_y tel, vm_CanvasX := cx, vm_CanvasY := cy, vm_Heading := tl_heading tel,
              vm_Speed := tl_speed tel, vm_Radius := tl_radius tel, vm_Status := StatusLabel (gr_LinkStatus rs),
              vm_Age := gr_AgeMs rs, vm_WorldTrail := add_trail (tl_x tel, tl_y tel) (vm_WorldTrail v)\<rparr>))"

definition apply_robot :: "main_vm \<Rightarrow> gui_robot \<Rightarrow> main_vm" where
  "apply_robot m rs =
     (case gr_Telemetry rs of
        None \<Rightarrow> m
      | Some tel \<Rightarrow>
          (let v = (case map_of (mw_robots m) (tl_robot_id tel) of Some v \<Rightarrow> v | None \<Rightarrow> new_robot_vm)
           in m\<lparr>mw_robots := AList.update (tl_robot_id tel) (show_robot m tel rs v) (mw_robots m)\<rparr>))"

definition status_count :: "string \<Rightarrow> main_vm \<Rightarrow> nat" where
  "status_count s m = length (filter (\<lambda>(_, r). vm_Status r = s) (mw_robots m))"

definition apply_command_row ::
  "(string \<times> (string \<times> string) list) list \<Rightarrow> command_status \<Rightarrow> (string \<times> (string \<times> string) list) list"
where
  "apply_command_row rows cs =
     (let (rows1, chips) = (case map_of rows (cs_command_id cs) of
            Some chips \<Rightarrow> (rows, chips) | None \<Rightarrow> ((cs_command_id cs, []) # rows, []))
      in AList.update (cs_command_id cs)
           (foldl (\<lambda>chips ts. AList.update (tg_robot_id ts) (CmdStateLabel (tg_state ts)) chips) chips (cs_targets cs))
           rows1)"

definition ApplyFrame :: "gui_robot list \<Rightarrow> command_status list \<Rightarrow> main_vm \<Rightarrow> main_vm" where
  "ApplyFrame robots commands m =
     (let m1 = foldl apply_robot m robots;
          m2 = m1\<lparr>mw_StatusText := nat_str (length (mw_robots m1)) @ '' robots '' @ middot @ '' '' @
                    nat_str (length robots) @ '' in frame''\<rparr>;
          m3 = m2\<lparr>mw_LiveCount := status_count ''LIVE'' m2, mw_StaleCount := status_count ''STALE'' m2,
                  mw_LostCount := status_count ''LOST'' m2\<rparr>
      in m3\<lparr>mw_commands := foldl apply_command_row (mw_commands m3) commands\<rparr>)"

section \<open>Sending a command\<close>

text \<open>The clock counts ticks of 100 ns, here from the Unix epoch.\<close>

definition FromDateTime :: "int \<Rightarrow> timestamp" where
  "FromDateTime ticks = \<lparr>seconds = ticks div 10000000, nanos = ticks mod 10000000 * 100\<rparr>"

definition gui_Apply :: "string \<Rightarrow> int \<Rightarrow> int \<Rightarrow> main_vm \<Rightarrow> proto_operator_command" where
  "gui_Apply guid now1 now2 m =
     \<lparr>poc_command_id = guid, poc_timestamp = FromDateTime now1, poc_expiry = FromDateTime (now2 + 10 * 10000000),
      poc_targets = mw_SelectedRobots m,
      poc_set_parameters = Some
        (case first_selected m of
           None \<Rightarrow> no_params
         | Some _ \<Rightarrow> no_params\<lparr>pr_speed := (if mw_CommandSpeedEdited m then Some (mw_CommandSpeed m) else None),
                              pr_radius := (if mw_CommandRadiusEdited m then Some (mw_CommandRadius m) else None)\<rparr>)\<rparr>"

definition SendAsync_result :: "string \<Rightarrow> string + accepted \<Rightarrow> main_vm \<Rightarrow> main_vm" where
  "SendAsync_result guid answer m =
     (case answer of
        Inr a \<Rightarrow> m\<lparr>mw_StatusText := ''cmd '' @ take 8 guid @ '' '' @ arrow @ '' accepted='' @
                     (if ac_accepted a then ''True'' else ''False'') @ '' '' @ ac_detail a\<rparr>
      | Inl ex \<Rightarrow> m\<lparr>mw_StatusText := ''send failed: '' @ ex\<rparr>)"

section \<open>Events\<close>

text \<open>A click on a dot with or without the control key; the two-way binding of the roster, which
  assigns \<open>IsSelected\<close> itself; text typed into the panel, at the moment its binding assigns the
  value (when the field loses the focus); the buttons, of which Apply is enabled
  while a robot is selected; and what the feed brings.\<close>

datatype gui_event =
    FrameArrives "gui_robot list" "command_status list"
  | FeedEnds
  | FeedFails string
  | DotClick string bool
  | RosterSelects string bool
  | TypesSpeed jsnum
  | TypesRadius jsnum
  | PressesFitAll
  | PressesApply string int int
  | Answered string "string + accepted"

fun gui_step :: "main_vm \<Rightarrow> gui_event \<Rightarrow> main_vm \<times> proto_operator_command list" where
  "gui_step m (FrameArrives robots commands) = (ApplyFrame robots commands m, [])"
| "gui_step m FeedEnds = (m\<lparr>mw_StatusText := ''feed ended''\<rparr>, [])"
| "gui_step m (FeedFails ex) = (m\<lparr>mw_StatusText := ''feed error: '' @ ex\<rparr>, [])"
| "gui_step m (DotClick i ctrl) =
     (if map_of (mw_robots m) i = None then m
      else if ctrl then ToggleSelection i m else SetSelection [i] m, [])"
| "gui_step m (RosterSelects i selected) = (set_IsSelected selected i m, [])"
| "gui_step m (TypesSpeed v) = (SetCommandSpeed v True m, [])"
| "gui_step m (TypesRadius v) = (SetCommandRadius v True m, [])"
| "gui_step m PressesFitAll = (FitAll m, [])"
| "gui_step m (PressesApply guid now1 now2) = (m, if mw_SelectedRobots m = [] then [] else [gui_Apply guid now1 now2 m])"
| "gui_step m (Answered guid answer) = (SendAsync_result guid answer m, [])"

section \<open>The selection\<close>

text \<open>The two views of the selection agree: \<open>SelectedRobots\<close> lists, once each, the robots whose
  \<open>IsSelected\<close> is set.\<close>

definition highlighted :: "main_vm \<Rightarrow> string \<Rightarrow> bool" where
  "highlighted m i \<longleftrightarrow> pred_option vm_IsSelected (map_of (mw_robots m) i) \<and> map_of (mw_robots m) i \<noteq> None"

definition gui_inv :: "main_vm \<Rightarrow> bool" where
  "gui_inv m \<longleftrightarrow> distinct (map fst (mw_robots m)) \<and> distinct (mw_SelectedRobots m) \<and>
     (\<forall>i. i \<in> set (mw_SelectedRobots m) \<longleftrightarrow> highlighted m i)"

lemma highlighted_update [simp]:
  "highlighted (m\<lparr>mw_robots := AList.update i r robots\<rparr>) j =
     (if j = i then vm_IsSelected r else highlighted (m\<lparr>mw_robots := robots\<rparr>) j)"
  by (simp add: highlighted_def)

lemma highlighted_cong: "mw_robots m' = mw_robots m \<Longrightarrow> highlighted m' = highlighted m"
  by (simp add: highlighted_def fun_eq_iff)

lemma update_panel_fields [simp]:
  "mw_robots (update_panel m) = mw_robots m" "mw_SelectedRobots (update_panel m) = mw_SelectedRobots m"
  "mw_commands (update_panel m) = mw_commands m"
  "mw_CommandSpeedEdited (update_panel m) = mw_CommandSpeedEdited m"
  "mw_CommandRadiusEdited (update_panel m) = mw_CommandRadiusEdited m"
  by (simp_all add: update_panel_def SetCommandSpeed_def SetCommandRadius_def split: option.split)

lemma gui_inv_panel [simp]: "gui_inv (update_panel m) = gui_inv m"
  by (simp add: gui_inv_def highlighted_cong[of "update_panel m" m])

lemma gui_inv_cong:
  "mw_robots m' = mw_robots m \<Longrightarrow> mw_SelectedRobots m' = mw_SelectedRobots m \<Longrightarrow> gui_inv m' = gui_inv m"
  by (simp add: gui_inv_def highlighted_cong[of m' m])

lemma selection_step:
  assumes "gui_inv m" "map_of (mw_robots m) i = Some r" "vm_IsSelected r \<noteq> b"
  shows "gui_inv (on_IsSelected i b (m\<lparr>mw_robots := AList.update i (r\<lparr>vm_IsSelected := b\<rparr>) (mw_robots m)\<rparr>))"
proof -
  let ?m = "m\<lparr>mw_robots := AList.update i (r\<lparr>vm_IsSelected := b\<rparr>) (mw_robots m),
    mw_SelectedRobots := (if b then (if i \<in> set (mw_SelectedRobots m) then mw_SelectedRobots m else mw_SelectedRobots m @ [i])
      else remove1 i (mw_SelectedRobots m))\<rparr>"
  have lit: "highlighted ?m j = (if j = i then b else highlighted m j)" for j
    by (simp add: highlighted_def)
  have "highlighted m i = vm_IsSelected r" using assms(2) by (simp add: highlighted_def)
  with assms(1,3) have "gui_inv ?m"
    unfolding gui_inv_def lit by (auto simp: distinct_update)
  then show ?thesis by (cases b; cases "i \<in> set (mw_SelectedRobots m)") (simp_all add: on_IsSelected_def)
qed

lemma set_IsSelected_inv [inv_intros]: "gui_inv m \<Longrightarrow> gui_inv (set_IsSelected b i m)"
  by (auto simp: set_IsSelected_def selection_step simp del: map_of_eq_Some_iff split: option.split)

lemma set_IsSelected_other:
  "mw_commands (set_IsSelected b i m) = mw_commands m"
  "mw_CommandSpeedEdited (set_IsSelected b i m) = mw_CommandSpeedEdited m"
  "mw_CommandRadiusEdited (set_IsSelected b i m) = mw_CommandRadiusEdited m"
  by (simp_all add: set_IsSelected_def on_IsSelected_def split: option.split)

lemma selected_after:
  assumes "gui_inv m" "map_of (mw_robots m) i \<noteq> None"
  shows "set (mw_SelectedRobots (set_IsSelected b i m)) =
    (if b then insert i (set (mw_SelectedRobots m)) else set (mw_SelectedRobots m) - {i})"
proof -
  obtain r where r: "map_of (mw_robots m) i = Some r" using assms(2) by blast
  then have "i \<in> set (mw_SelectedRobots m) \<longleftrightarrow> vm_IsSelected r" "distinct (mw_SelectedRobots m)"
    using assms(1) by (simp_all add: gui_inv_def highlighted_def)
  with r show ?thesis by (auto simp: set_IsSelected_def on_IsSelected_def)
qed

lemma known_after [simp]: "map_of (mw_robots (set_IsSelected b i m)) j = None \<longleftrightarrow> map_of (mw_robots m) j = None"
  by (auto simp: set_IsSelected_def on_IsSelected_def split: option.split)

lemma keys_after [simp]: "map fst (mw_robots (set_IsSelected b i m)) = map fst (mw_robots m)"
  by (auto simp: set_IsSelected_def on_IsSelected_def update_keys dest: map_of_SomeD intro: rev_image_eqI split: option.split)

lemma distinct_singleton: "set xs = {x} \<Longrightarrow> distinct xs \<Longrightarrow> xs = [x]"
  by (cases xs; cases "tl xs") auto

lemma fold_select:
  assumes "gui_inv m" "\<forall>i \<in> set is. map_of (mw_robots m) i \<noteq> None"
  shows "let m' = foldl (\<lambda>m i. set_IsSelected (P i) i m) m is in
    gui_inv m' \<and> map fst (mw_robots m') = map fst (mw_robots m) \<and> mw_commands m' = mw_commands m \<and>
    set (mw_SelectedRobots m') = {i \<in> set is. P i} \<union> (set (mw_SelectedRobots m) - set is)"
  using assms
proof (induction "is" arbitrary: m)
  case (Cons i "is")
  let ?m1 = "set_IsSelected (P i) i m"
  have "gui_inv ?m1" "\<forall>j \<in> set is. map_of (mw_robots ?m1) j \<noteq> None"
    using Cons.prems by (auto intro: inv_intros)
  from Cons.IH[OF this] Cons.prems selected_after[of m i "P i"] show ?case
    by (auto simp: Let_def set_IsSelected_other split: if_splits)
qed simp

lemma SetSelection_selects:
  assumes "gui_inv m" "map_of (mw_robots m) i \<noteq> None"
  shows "gui_inv (SetSelection [i] m) \<and> mw_SelectedRobots (SetSelection [i] m) = [i] \<and>
    mw_commands (SetSelection [i] m) = mw_commands m"
proof -
  let ?ks = "map fst (mw_robots m)"
  let ?m1 = "foldl (\<lambda>m j. set_IsSelected (j \<in> set [i]) j m) m ?ks"
  have known: "map_of (mw_robots m) j \<noteq> None" if "j \<in> set ?ks" for j
    using that by (simp add: map_of_eq_None_iff)
  from fold_select[OF assms(1), of ?ks "\<lambda>j. j \<in> set [i]"] known
  have m1: "gui_inv ?m1" "mw_commands ?m1 = mw_commands m"
    "set (mw_SelectedRobots ?m1) = {j \<in> set ?ks. j \<in> set [i]} \<union> (set (mw_SelectedRobots m) - set ?ks)"
    by (simp_all add: Let_def)
  have "map_of (mw_robots m) j \<noteq> None" if "j \<in> set (mw_SelectedRobots m)" for j
    using assms(1) that by (simp add: gui_inv_def highlighted_def)
  then have "set (mw_SelectedRobots m) \<subseteq> set ?ks" by (auto simp: map_of_eq_None_iff)
  moreover have "i \<in> set ?ks" using assms(2) by (simp add: map_of_eq_None_iff)
  ultimately have "set (mw_SelectedRobots ?m1) = {i}" using m1(3) by auto
  moreover have "distinct (mw_SelectedRobots ?m1)" using m1(1) by (simp add: gui_inv_def)
  ultimately have "mw_SelectedRobots ?m1 = [i]"
    by (rule distinct_singleton)
  moreover have "gui_inv (?m1\<lparr>mw_CommandSpeedEdited := False, mw_CommandRadiusEdited := False\<rparr>) = gui_inv ?m1"
    by (rule gui_inv_cong) simp_all
  ultimately show ?thesis
    using m1(1,2) unfolding SetSelection_def Let_def gui_inv_panel update_panel_fields by simp
qed

section \<open>Every session\<close>

lemma show_robot_selected [simp]: "vm_IsSelected (show_robot m tel rs v) = vm_IsSelected v"
  by (simp add: show_robot_def RebuildTrail_def split_beta)

lemma apply_robot_inv [inv_intros]:
  assumes "gui_inv m"
  shows "gui_inv (apply_robot m rs)"
proof (cases "gr_Telemetry rs")
  case (Some tel)
  let ?i = "tl_robot_id tel" and ?v = "case map_of (mw_robots m) (tl_robot_id tel) of Some v \<Rightarrow> v | None \<Rightarrow> new_robot_vm"
  have "vm_IsSelected ?v = highlighted m ?i"
    by (simp add: highlighted_def new_robot_vm_def split: option.split)
  moreover have "apply_robot m rs = m\<lparr>mw_robots := AList.update ?i (show_robot m tel rs ?v) (mw_robots m)\<rparr>"
    using Some by (simp add: apply_robot_def Let_def)
  ultimately show ?thesis
    using assms by (auto simp: gui_inv_def distinct_update)
qed (use assms in \<open>simp add: apply_robot_def\<close>)

lemma ApplyFrame_inv [inv_intros]:
  assumes "gui_inv m"
  shows "gui_inv (ApplyFrame robots commands m)"
proof -
  have "gui_inv (foldl apply_robot m robots)"
    using assms by (induction robots arbitrary: m) (simp_all add: apply_robot_inv)
  then show ?thesis
    unfolding ApplyFrame_def Let_def by (simp add: gui_inv_def highlighted_def)
qed

definition placed :: "main_vm \<Rightarrow> robot_vm \<Rightarrow> robot_vm" where
  "placed m r = (let (cx, cy) = WorldToCanvas m (vm_X r) (vm_Y r) in RebuildTrail m (r\<lparr>vm_CanvasX := cx, vm_CanvasY := cy\<rparr>))"

lemma placed_selected [simp]: "vm_IsSelected (placed m r) = vm_IsSelected r"
  by (simp add: placed_def RebuildTrail_def split_beta)

lemma FitAll_robots:
  obtains scale cx cy where "mw_robots m \<noteq> [] \<Longrightarrow>
    FitAll m = m\<lparr>mw_Scale := scale, mw_CenterX := cx, mw_CenterY := cy,
      mw_robots := map_vals (placed (m\<lparr>mw_Scale := scale, mw_CenterX := cx, mw_CenterY := cy\<rparr>)) (mw_robots m)\<rparr>"
  by (simp add: FitAll_def Let_def placed_def[abs_def] map_vals_def)

lemma FitAll_inv [inv_intros]:
  assumes "gui_inv m"
  shows "gui_inv (FitAll m)"
proof (cases "mw_robots m = []")
  case True
  with assms show ?thesis by (simp add: FitAll_def)
next
  case False
  obtain scale cx cy where fit: "FitAll m = m\<lparr>mw_Scale := scale, mw_CenterX := cx, mw_CenterY := cy,
      mw_robots := map_vals (placed (m\<lparr>mw_Scale := scale, mw_CenterX := cx, mw_CenterY := cy\<rparr>)) (mw_robots m)\<rparr>"
    using FitAll_robots[of m] False by metis
  have "highlighted (FitAll m) = highlighted m"
    by (auto simp: fun_eq_iff highlighted_def fit option.pred_map comp_def)
  with assms show ?thesis by (simp add: gui_inv_def) (simp add: fit)
qed

lemma gui_step_inv: "gui_inv m \<Longrightarrow> gui_inv (fst (gui_step m e))"
  by (cases e)
    (auto simp: ToggleSelection_def SetSelection_selects SetCommandSpeed_def SetCommandRadius_def SendAsync_result_def
      gui_inv_cong[of "m\<lparr>mw_StatusText := _\<rparr>" m]
      split: option.split sum.split intro: inv_intros elim: gui_inv_cong[THEN iffD2, rotated 2])

interpretation desktop: io_machine gui_step gui_inv "\<lambda>_. True"
  by unfold_locales (simp_all add: gui_step_inv list_all_iff)

lemma new_main_inv: "gui_inv (new_main_vm feed)"
  by (simp add: new_main_vm_def gui_inv_def highlighted_def)

section \<open>Fit All\<close>

lemma Math_Fin [simp]:
  "Math_Min (Fin a) (Fin b) = Fin (min a b)" "Math_Max (Fin a) (Fin b) = Fin (max a b)"
  by (simp_all add: Math_Min_def Math_Max_def min_def max_def)

lemma fold_Math_Min:
  assumes "list_all (\<lambda>r. is_finite (f r)) rs"
  shows "\<exists>k. foldl (\<lambda>a r. Math_Min a (f r)) (Fin a) rs = Fin k \<and> k \<le> a \<and> (\<forall>r \<in> set rs. Fin k \<le> f r)"
  using assms
proof (induction rs arbitrary: a)
  case (Cons r rs)
  then obtain v where v: "f r = Fin v" by (auto simp: is_finite_iff)
  from Cons.IH[of "min a v"] Cons.prems v show ?case by force
qed simp

lemma fold_Math_Max:
  assumes "list_all (\<lambda>r. is_finite (f r)) rs"
  shows "\<exists>k. foldl (\<lambda>a r. Math_Max a (f r)) (Fin a) rs = Fin k \<and> a \<le> k \<and> (\<forall>r \<in> set rs. f r \<le> Fin k)"
  using assms
proof (induction rs arbitrary: a)
  case (Cons r rs)
  then obtain v where v: "f r = Fin v" by (auto simp: is_finite_iff)
  from Cons.IH[of "max a v"] Cons.prems v show ?case by force
qed simp

text \<open>One axis: with a scale of at most nine tenths of the window over the extent, the middle of the
  extent in the middle of the window, everything in the extent lies within the margins.\<close>

lemma within_margins:
  fixes lo hi x w s :: real
  assumes "lo \<le> x" "x \<le> hi" "0 < w" "0 \<le> s" "s \<le> w / max (hi - lo) 1 * (9 / 10)"
  shows "\<bar>(x - (lo + hi) / 2) * s\<bar> \<le> w * (9 / 20)"
proof -
  define e where "e = max (hi - lo) 1"
  have e: "hi - lo \<le> e" "0 < e" by (simp_all add: e_def)
  have "\<bar>x - (lo + hi) / 2\<bar> \<le> e / 2" using assms(1,2) e(1) by (auto simp: abs_le_iff field_simps)
  moreover have "\<bar>(x - (lo + hi) / 2) * s\<bar> = \<bar>x - (lo + hi) / 2\<bar> * s" using assms(4) by (simp add: abs_mult)
  ultimately have "\<bar>(x - (lo + hi) / 2) * s\<bar> \<le> e / 2 * s" using mult_right_mono[OF _ assms(4)] by metis
  also have "\<dots> \<le> e / 2 * (w / e * (9 / 10))" using assms(5) e(2) by (intro mult_left_mono) (auto simp: e_def)
  also have "\<dots> = w * (9 / 20)" using e(2) by simp
  finally show ?thesis .
qed

text \<open>\<open>VW\<close> and \<open>VH\<close> are never set to the size of the canvas, which is at most 544 units wide when the
  window opens: what lies within these margins is not always in sight.\<close>

lemma FitAll_fits:
  assumes fin: "list_all (\<lambda>r. is_finite (vm_X r) \<and> is_finite (vm_Y r)) (map snd (mw_robots m))"
    and window: "mw_VW m = Fin w" "mw_VH m = Fin h" "0 < w" "0 < h" and r: "(i, r) \<in> set (mw_robots (FitAll m))"
  shows "\<exists>x y. vm_CanvasX r = Fin x \<and> vm_CanvasY r = Fin y \<and> \<bar>x - w / 2\<bar> \<le> w * (9 / 20) \<and> \<bar>y - h / 2\<bar> \<le> h * (9 / 20)"
proof -
  have ne: "mw_robots m \<noteq> []" using r by (auto simp: FitAll_def)
  let ?rs = "map snd (mw_robots m)"
  have fx: "list_all (\<lambda>r. is_finite (vm_X r)) ?rs" and fy: "list_all (\<lambda>r. is_finite (vm_Y r)) ?rs"
    using fin by (simp_all add: list_all_iff)
  obtain x0 x1 where x: "foldl (\<lambda>a r. Math_Min a (vm_X r)) (Fin double_MaxValue) ?rs = Fin x0" "\<forall>r \<in> set ?rs. Fin x0 \<le> vm_X r"
    "foldl (\<lambda>a r. Math_Max a (vm_X r)) (Fin (- double_MaxValue)) ?rs = Fin x1" "\<forall>r \<in> set ?rs. vm_X r \<le> Fin x1"
    using fold_Math_Min[OF fx, of double_MaxValue] fold_Math_Max[OF fx, of "- double_MaxValue"] by blast
  obtain y0 y1 where y: "foldl (\<lambda>a r. Math_Min a (vm_Y r)) (Fin double_MaxValue) ?rs = Fin y0" "\<forall>r \<in> set ?rs. Fin y0 \<le> vm_Y r"
    "foldl (\<lambda>a r. Math_Max a (vm_Y r)) (Fin (- double_MaxValue)) ?rs = Fin y1" "\<forall>r \<in> set ?rs. vm_Y r \<le> Fin y1"
    using fold_Math_Min[OF fy, of double_MaxValue] fold_Math_Max[OF fy, of "- double_MaxValue"] by blast
  define s where "s = min (w / max (x1 - x0) 1) (h / max (y1 - y0) 1) * (9 / 10)"
  define m1 where "m1 = m\<lparr>mw_Scale := Fin s, mw_CenterX := Fin ((x0 + x1) / 2), mw_CenterY := Fin ((y0 + y1) / 2)\<rparr>"
  have nonzero: "max d 1 \<noteq> 0" for d :: real by (simp add: max_def)
  have "FitAll m = m1\<lparr>mw_robots := map_vals (placed m1) (mw_robots m)\<rparr>"
    using ne window(1,2)
    by (simp add: FitAll_def Let_def x(1,3) y(1,3) nonzero m1_def s_def placed_def[abs_def] map_vals_def)
  with r obtain r0 where r0: "r0 \<in> set ?rs" "r = placed m1 r0" by (auto simp: map_vals_def image_iff) force
  obtain a b where ab: "vm_X r0 = Fin a" "vm_Y r0 = Fin b"
    using fin r0(1) by (auto simp: list_all_iff is_finite_iff)
  with x(2,4) y(2,4) r0(1) have in_extent: "x0 \<le> a" "a \<le> x1" "y0 \<le> b" "b \<le> y1" by fastforce+
  have s: "0 \<le> s" "s \<le> w / max (x1 - x0) 1 * (9 / 10)" "s \<le> h / max (y1 - y0) 1 * (9 / 10)"
    using window(3,4) unfolding s_def by (intro mult_nonneg_nonneg mult_right_mono min.cobounded1 min.cobounded2; simp)+
  have "vm_CanvasX r = Fin ((a - (x0 + x1) / 2) * s + w / 2)" "vm_CanvasY r = Fin (((y0 + y1) / 2 - b) * s + h / 2)"
    using window(1,2) by (simp_all add: r0(2) placed_def WorldToCanvas_def RebuildTrail_def ab m1_def)
  moreover have "\<bar>((y0 + y1) / 2 - b) * s\<bar> = \<bar>(b - (y0 + y1) / 2) * s\<bar>"
    by (metis abs_minus_commute abs_mult)
  ultimately show ?thesis
    using within_margins[OF in_extent(1,2) window(3) s(1,2)] within_margins[OF in_extent(3,4) window(4) s(1,3)] by simp
qed

section \<open>The feeds\<close>

text \<open>\<open>GrpcFeed\<close> hands on the frames of the server; \<open>FakeFeed\<close> makes its own, six robots on circles.\<close>

definition GrpcFeed_frame :: "swarm_state \<Rightarrow> gui_event" where
  "GrpcFeed_frame f =
     FrameArrives (map (\<lambda>r. \<lparr>gr_Telemetry = Some (rb_telemetry r), gr_LinkStatus = rb_link_status r, gr_AgeMs = rb_age_ms r\<rparr>)
       (sw_robots f)) (sw_commands f)"

definition FakeFeed_robot :: "real \<Rightarrow> nat \<Rightarrow> gui_robot" where
  "FakeFeed_robot t i =
     \<lparr>gr_Telemetry = Some
        \<lparr>tl_robot_id = ''R'' @ nat_str (i + 1), tl_seq = 0, tl_timestamp = None,
         tl_x = Fin ((real i + 1) * 100 + 10 * cos (1 / 10 * t)), tl_y = Fin ((real i + 1) * 100 + 10 * sin (1 / 10 * t)),
         tl_heading = Fin 0, tl_speed = Fin 0, tl_radius = Fin 0\<rparr>,
      gr_LinkStatus = LINK_LIVE, gr_AgeMs = 0\<rparr>"

definition FakeFeed_frame :: "nat \<Rightarrow> gui_event" where
  "FakeFeed_frame n = FrameArrives (map (FakeFeed_robot (5 / 10 * real (Suc n))) [0 ..< 6]) []"

definition FakeFeed_SendCommand :: "proto_operator_command \<Rightarrow> accepted" where
  "FakeFeed_SendCommand cmd = \<lparr>ac_command_id = poc_command_id cmd, ac_accepted = True, ac_detail = ''fake (no-op)''\<rparr>"

definition same_ignoring_case :: "string \<Rightarrow> string \<Rightarrow> bool" where
  "same_ignoring_case a b \<longleftrightarrow> to_upper a = to_upper b"

definition useGrpc :: "string list \<Rightarrow> string option \<Rightarrow> bool" where
  "useGrpc args env \<longleftrightarrow> (\<exists>a \<in> set args. same_ignoring_case a ''--grpc'') \<or>
     (case env of Some e \<Rightarrow> same_ignoring_case e ''grpc'' | None \<Rightarrow> False)"

section \<open>The window keeps its size\<close>

fun frame_finite :: "gui_event \<Rightarrow> bool" where
  "frame_finite (FrameArrives robots _) =
     list_all (\<lambda>rs. pred_option (\<lambda>tel. is_finite (tl_x tel) \<and> is_finite (tl_y tel)) (gr_Telemetry rs)) robots"
| "frame_finite _ = True"

lemma fake_frame_finite: "frame_finite (FakeFeed_frame n)"
  by (simp add: FakeFeed_frame_def FakeFeed_robot_def list_all_iff)

definition window_inv :: "main_vm \<Rightarrow> bool" where
  "window_inv m \<longleftrightarrow> mw_VW m = Fin 800 \<and> mw_VH m = Fin 450 \<and>
     (\<forall>r \<in> snd ` set (mw_robots m). is_finite (vm_X r) \<and> is_finite (vm_Y r))"

lemma window_update:
  "window_inv m \<Longrightarrow> is_finite (vm_X r) \<Longrightarrow> is_finite (vm_Y r) \<Longrightarrow>
     window_inv (m\<lparr>mw_robots := AList.update i r (mw_robots m)\<rparr>)"
  by (auto simp: window_inv_def dest!: in_set_update)

lemma window_fields:
  "mw_VW m' = mw_VW m \<Longrightarrow> mw_VH m' = mw_VH m \<Longrightarrow> mw_robots m' = mw_robots m \<Longrightarrow> window_inv m \<Longrightarrow> window_inv m'"
  by (simp add: window_inv_def)

lemma update_panel_window [simp]: "mw_VW (update_panel m) = mw_VW m" "mw_VH (update_panel m) = mw_VH m"
  by (simp_all add: update_panel_def SetCommandSpeed_def SetCommandRadius_def split: option.split)

lemma set_IsSelected_window: "window_inv m \<Longrightarrow> window_inv (set_IsSelected b i m)"
proof (cases "map_of (mw_robots m) i")
  case (Some r)
  assume w: "window_inv m"
  have "r \<in> snd ` set (mw_robots m)" using map_of_SomeD[OF Some] by force
  with w have "window_inv (m\<lparr>mw_robots := AList.update i (r\<lparr>vm_IsSelected := b\<rparr>) (mw_robots m)\<rparr>)"
    by (intro window_update) (auto simp: window_inv_def)
  with w Some show ?thesis
    by (auto simp: set_IsSelected_def on_IsSelected_def elim: window_fields[rotated 3])
qed (simp add: set_IsSelected_def)

lemma SetSelection_window: "window_inv m \<Longrightarrow> window_inv (SetSelection is m)"
proof -
  assume w: "window_inv m"
  have "window_inv (foldl (\<lambda>m i. set_IsSelected (P i) i m) m js)" for P js
    using w by (induction js arbitrary: m) (simp_all add: set_IsSelected_window)
  from this[of "\<lambda>i. i \<in> set is" "map fst (mw_robots m)"] show ?thesis
    unfolding SetSelection_def Let_def by (rule window_fields[rotated 3]) simp_all
qed

lemma apply_robot_window:
  assumes "window_inv m" "pred_option (\<lambda>tel. is_finite (tl_x tel) \<and> is_finite (tl_y tel)) (gr_Telemetry rs)"
  shows "window_inv (apply_robot m rs)"
  using assms
  by (cases "gr_Telemetry rs")
    (simp_all add: apply_robot_def Let_def window_update show_robot_def RebuildTrail_def split_beta)

lemma ApplyFrame_window:
  assumes "window_inv m" "frame_finite (FrameArrives robots commands)"
  shows "window_inv (ApplyFrame robots commands m)"
proof -
  have "window_inv (foldl apply_robot m robots)"
    using assms by (induction robots arbitrary: m) (simp_all add: apply_robot_window)
  then show ?thesis by (auto simp: ApplyFrame_def Let_def elim!: window_fields[rotated 3])
qed

lemma FitAll_window: "window_inv m \<Longrightarrow> window_inv (FitAll m)"
proof (cases "mw_robots m = []")
  case False
  assume w: "window_inv m"
  obtain scale cx cy where fit: "FitAll m = m\<lparr>mw_Scale := scale, mw_CenterX := cx, mw_CenterY := cy,
      mw_robots := map_vals (placed (m\<lparr>mw_Scale := scale, mw_CenterX := cx, mw_CenterY := cy\<rparr>)) (mw_robots m)\<rparr>"
    using FitAll_robots[of m] False by metis
  with w show ?thesis
    by (auto simp: window_inv_def map_vals_def placed_def RebuildTrail_def split_beta)
qed (simp add: FitAll_def)

lemma gui_step_window: "window_inv m \<Longrightarrow> frame_finite e \<Longrightarrow> window_inv (fst (gui_step m e))"
  by (cases e)
    (auto simp: ToggleSelection_def SetSelection_window SetCommandSpeed_def SetCommandRadius_def SendAsync_result_def
      set_IsSelected_window ApplyFrame_window FitAll_window simp del: frame_finite.simps
      split: option.split sum.split elim: window_fields[rotated 3])

interpretation desktop_window: guarded_machine gui_step window_inv frame_finite "\<lambda>_. True"
  by unfold_locales (simp add: gui_step_window list_all_iff)

lemma new_main_window: "window_inv (new_main_vm feed)"
  by (simp add: window_inv_def new_main_vm_def)

section \<open>The chips\<close>

definition chip :: "main_vm \<Rightarrow> string \<Rightarrow> string \<Rightarrow> string option" where
  "chip m c i = Option.bind (map_of (mw_commands m) c) (\<lambda>chips. map_of chips i)"

text \<open>Everything a list of commands reports, in order.\<close>

definition reports :: "command_status list \<Rightarrow> ((string \<times> string) \<times> command_state) list" where
  "reports commands = concat (map (\<lambda>s. map (\<lambda>t. ((cs_command_id s, tg_robot_id t), tg_state t)) (cs_targets s)) commands)"

definition last_report :: "string \<Rightarrow> string \<Rightarrow> ((string \<times> string) \<times> command_state) list \<Rightarrow> command_state option" where
  "last_report c i rs = map_option snd (last_of (\<lambda>r. fst r = (c, i)) rs)"

fun event_reports :: "gui_event \<Rightarrow> ((string \<times> string) \<times> command_state) list" where
  "event_reports (FrameArrives _ commands) = reports commands"
| "event_reports _ = []"

lemma reports_simps:
  "reports [] = []" "reports (xs @ ys) = reports xs @ reports ys"
  "reports [s] = map (\<lambda>t. ((cs_command_id s, tg_robot_id t), tg_state t)) (cs_targets s)"
  by (simp_all add: reports_def)

lemma last_report_simps [simp]:
  "last_report c i [] = None"
  "last_report c i (rs @ qs) = (case last_report c i qs of Some s \<Rightarrow> Some s | None \<Rightarrow> last_report c i rs)"
  by (simp_all add: last_report_def last_of_append split: option.split)

lemma chips_of_row:
  "map_of (foldl (\<lambda>chips ts. AList.update (tg_robot_id ts) (CmdStateLabel (tg_state ts)) chips) chips ts) i =
     (case last_report c i (map (\<lambda>t. ((c, tg_robot_id t), tg_state t)) ts) of
        Some s \<Rightarrow> Some (CmdStateLabel s) | None \<Rightarrow> map_of chips i)"
  by (induction ts rule: rev_induct) (auto simp: last_report_def last_of_append split: option.split)

lemma row_reports: "last_report c i (map (\<lambda>t. ((c', tg_robot_id t), tg_state t)) ts) =
  (if c' = c then last_report c i (map (\<lambda>t. ((c, tg_robot_id t), tg_state t)) ts) else None)"
  by (auto simp: last_report_def last_of_None)

lemma chip_row:
  "Option.bind (map_of (apply_command_row rows cs) c) (\<lambda>chips. map_of chips i) =
     (case last_report c i (reports [cs]) of
        Some s \<Rightarrow> Some (CmdStateLabel s) | None \<Rightarrow> Option.bind (map_of rows c) (\<lambda>chips. map_of chips i))"
  using row_reports[of c i "cs_command_id cs" "cs_targets cs"]
  by (cases "cs_command_id cs = c")
    (simp_all add: apply_command_row_def reports_def Let_def chips_of_row[where c = c] split: option.split)

lemma chips_of_frame:
  "Option.bind (map_of (foldl apply_command_row rows commands) c) (\<lambda>chips. map_of chips i) =
     (case last_report c i (reports commands) of
        Some s \<Rightarrow> Some (CmdStateLabel s) | None \<Rightarrow> Option.bind (map_of rows c) (\<lambda>chips. map_of chips i))"
proof (induction commands rule: rev_induct)
  case Nil
  then show ?case by (simp add: reports_def)
next
  case (snoc cs commands)
  then show ?case by (simp add: chip_row reports_simps(2) split: option.split)
qed

lemma apply_robots_commands: "mw_commands (foldl apply_robot m robots) = mw_commands m"
  by (induction robots arbitrary: m) (simp_all add: apply_robot_def Let_def split: option.split)

lemma SetSelection_commands: "mw_commands (SetSelection is m) = mw_commands m"
proof -
  have "mw_commands (foldl (\<lambda>m i. set_IsSelected (P i) i m) m js) = mw_commands m" for P js
    by (induction js arbitrary: m) (simp_all add: set_IsSelected_other)
  then show ?thesis by (simp add: SetSelection_def Let_def)
qed

lemma step_commands:
  "chip (fst (gui_step m e)) c i =
     (case last_report c i (event_reports e) of Some s \<Rightarrow> Some (CmdStateLabel s) | None \<Rightarrow> chip m c i)"
  by (cases e)
    (simp_all add: chip_def ApplyFrame_def Let_def apply_robots_commands chips_of_frame ToggleSelection_def SetSelection_commands
      set_IsSelected_other SetCommandSpeed_def SetCommandRadius_def SendAsync_result_def FitAll_def
      split: option.split sum.split)

lemma session_chips:
  "chip (fst (run gui_step m es)) c i =
     (case last_report c i (concat (map event_reports es)) of Some s \<Rightarrow> Some (CmdStateLabel s) | None \<Rightarrow> chip m c i)"
  by (induction es arbitrary: m) (auto simp: split_beta step_commands split: option.split)

section \<open>Colours\<close>

fun StatusToBrush :: "string \<Rightarrow> string" where
  "StatusToBrush s =
     (if s = ''LIVE'' then ''#3fb950'' else if s = ''STALE'' then ''#d29922'' else if s = ''LOST'' then ''#f85149''
      else ''#8b949e'')"

fun CmdStateToBrush :: "string \<Rightarrow> string" where
  "CmdStateToBrush s =
     (if s = ''PENDING'' then ''#8b949e'' else if s = ''SENT'' then ''#58a6ff'' else if s = ''APPLIED'' then ''#3fb950''
      else if s = ''REJECTED'' then ''#f85149'' else if s = ''EXPIRED'' then ''#d29922'' else if s = ''OFFLINE'' then ''#6e7681''
      else ''#8b949e'')"

text \<open>The palettes of the two clients agree on everything but the chip of a robot that is offline.\<close>

theorem palettes_agree:
  "StatusToBrush (StatusLabel s) = STATUS_COLOR s \<and>
   (CmdStateToBrush (CmdStateLabel c) = CMD_COLOR c \<longleftrightarrow> c \<noteq> CMD_ROBOT_OFFLINE)"
  by (cases s; cases c) simp_all

section \<open>Properties\<close>

lemma gui_session_inv: "gui_inv (fst (run gui_step (new_main_vm feed) es))"
  by (rule desktop.run_inv[OF new_main_inv])

lemma FromDateTime_ticks: "toDomainTimestamp (FromDateTime ticks) = ticks * 100"
  by (simp add: toDomainTimestamp_def FromDateTime_def) (use div_mult_mod_eq[of ticks 10000000] in linarith)

lemma desktop_command:
  assumes "m = fst (run gui_step (new_main_vm feed) es)" "cmd \<in> set (snd (gui_step m e))"
  shows "\<exists>guid t1 t2. e = PressesApply guid t1 t2 \<and> poc_command_id cmd = guid \<and>
    poc_targets cmd \<noteq> [] \<and> distinct (poc_targets cmd) \<and> (\<forall>i. i \<in> set (poc_targets cmd) \<longleftrightarrow> highlighted m i) \<and>
    poc_set_parameters cmd = Some (no_params
      \<lparr>pr_speed := (if mw_CommandSpeedEdited m then Some (mw_CommandSpeed m) else None),
       pr_radius := (if mw_CommandRadiusEdited m then Some (mw_CommandRadius m) else None)\<rparr>) \<and>
    toDomainTimestamp (poc_expiry cmd) - toDomainTimestamp (poc_timestamp cmd) = 10000000000 + (t2 - t1) * 100"
proof -
  from assms(2) obtain guid t1 t2 where e: "e = PressesApply guid t1 t2" by (cases e) auto
  with assms(2) have cmd: "mw_SelectedRobots m \<noteq> []" "cmd = gui_Apply guid t1 t2 m" by (auto split: if_splits)
  have inv: "gui_inv m" unfolding assms(1) by (rule gui_session_inv)
  from cmd(1) obtain i "is" where i: "mw_SelectedRobots m = i # is" by (cases "mw_SelectedRobots m") auto
  with inv have "highlighted m i" by (auto simp: gui_inv_def)
  with i have "first_selected m \<noteq> None" by (auto simp: first_selected_def highlighted_def)
  with inv e cmd show ?thesis
    by (auto simp: gui_Apply_def gui_inv_def FromDateTime_ticks)
qed

text \<open>C11: The desktop client commands what it highlights: in every session a command leaves only by a press
  of Apply, its targets are exactly the robots drawn as selected, each once and at least one, it
  carries the speed or the radius of the panel exactly if that field has been edited, and it is
  valid for ten seconds.\<close>

theorem desktop_commands_highlighted:
  assumes "m = fst (run gui_step (new_main_vm feed) es)" "cmd \<in> set (snd (gui_step m e))"
  shows "\<exists>guid t1 t2. e = PressesApply guid t1 t2 \<and> poc_command_id cmd = guid \<and>
    poc_targets cmd \<noteq> [] \<and> distinct (poc_targets cmd) \<and> (\<forall>i. i \<in> set (poc_targets cmd) \<longleftrightarrow> highlighted m i) \<and>
    poc_set_parameters cmd = Some (no_params
      \<lparr>pr_speed := (if mw_CommandSpeedEdited m then Some (mw_CommandSpeed m) else None),
       pr_radius := (if mw_CommandRadiusEdited m then Some (mw_CommandRadius m) else None)\<rparr>) \<and>
    toDomainTimestamp (poc_expiry cmd) - toDomainTimestamp (poc_timestamp cmd) = 10000000000 + (t2 - t1) * 100"
  using assms by (rule desktop_command)

text \<open>What the operator typed does not survive a change of the selection, and yet counts as edited:
  with a robot selected and a speed typed, adding a further robot to the selection in the roster puts
  the first robot's own speed into the panel, and Apply commands that speed to all of them. Without
  the further click it is the typed speed that is commanded.\<close>

theorem typed_speed_replaced:
  assumes "m = fst (run gui_step (new_main_vm feed) es)" "mw_SelectedRobots m = a # as"
    and "map_of (mw_robots m) a = Some r" "map_of (mw_robots m) j = Some q" "\<not> vm_IsSelected q"
  shows "map (\<lambda>cmd. (poc_targets cmd, Option.bind (poc_set_parameters cmd) pr_speed))
      (snd (run gui_step m [TypesSpeed v, RosterSelects j True, PressesApply guid t1 t2])) = [(a # as @ [j], Some (vm_Speed r))] \<and>
    map (\<lambda>cmd. (poc_targets cmd, Option.bind (poc_set_parameters cmd) pr_speed))
      (snd (run gui_step m [TypesSpeed v, PressesApply guid t1 t2])) = [(a # as, Some v)]"
proof -
  have inv: "gui_inv m" unfolding assms(1) by (rule gui_session_inv)
  have "\<not> highlighted m j" using assms(4,5) by (simp add: highlighted_def)
  with inv assms(2) have j: "j \<notin> set (a # as)" by (auto simp: gui_inv_def)
  then have "j \<noteq> a" "j \<notin> set as" by auto
  with assms(2-5) show ?thesis
    by (simp add: SetCommandSpeed_def ToggleSelection_def set_IsSelected_def on_IsSelected_def update_panel_def
        first_selected_def SetCommandRadius_def gui_Apply_def)
qed

text \<open>C25: Fit All brings every robot into the window: after any session with finite positions every dot lies
  in the middle nine tenths of the 800 by 450 units that the program takes for the window, in each
  direction.\<close>

theorem fit_all_fits:
  assumes "list_all frame_finite es" "m = fst (run gui_step (new_main_vm feed) (es @ [PressesFitAll]))"
    "(i, r) \<in> set (mw_robots m)"
  shows "\<exists>x y. vm_CanvasX r = Fin x \<and> vm_CanvasY r = Fin y \<and> 40 \<le> x \<and> x \<le> 760 \<and> 45 / 2 \<le> y \<and> y \<le> 855 / 2"
proof -
  let ?m = "fst (run gui_step (new_main_vm feed) es)"
  have m: "m = FitAll ?m" by (simp add: assms(2) run_append split_beta)
  have w: "window_inv ?m" using desktop_window.run_keeps[OF new_main_window assms(1)] by blast
  then have "list_all (\<lambda>r. is_finite (vm_X r) \<and> is_finite (vm_Y r)) (map snd (mw_robots ?m))"
    "mw_VW ?m = Fin 800" "mw_VH ?m = Fin 450" by (auto simp: window_inv_def list_all_iff)
  from FitAll_fits[OF this _ _ assms(3)[unfolded m]] obtain x y where
    "vm_CanvasX r = Fin x" "vm_CanvasY r = Fin y" "\<bar>x - 400\<bar> \<le> 360" "\<bar>y - 225\<bar> \<le> 405 / 2" by auto
  then show ?thesis by (intro exI[of _ x] exI[of _ y] conjI) (assumption | linarith)+
qed

text \<open>The chips of the desktop client show, in every session, the label of the last state that any
  frame reported for that command and robot, and nothing else; a command the server has dropped
  stays listed.\<close>

theorem desktop_chips_last_reported:
  "chip (fst (run gui_step (new_main_vm feed) es)) c i =
     map_option CmdStateLabel (last_report c i (concat (map event_reports es)))"
  by (simp add: session_chips) (simp add: chip_def new_main_vm_def split: option.split)

section \<open>Instances\<close>

definition demo_dot :: "string \<Rightarrow> real \<Rightarrow> real \<Rightarrow> gui_robot" where
  "demo_dot i x v =
     \<lparr>gr_Telemetry = Some \<lparr>tl_robot_id = i, tl_seq = 0, tl_timestamp = None, tl_x = Fin x, tl_y = Fin 0,
        tl_heading = Fin 0, tl_speed = Fin v, tl_radius = Fin 80\<rparr>,
      gr_LinkStatus = LINK_LIVE, gr_AgeMs = 0\<rparr>"

definition demo_desk :: "gui_event list" where
  "demo_desk = [FrameArrives [demo_dot ''R-01'' 0 14, demo_dot ''R-02'' 1000 12] [], DotClick ''R-01'' False]"

definition desk_after :: "gui_event list \<Rightarrow> main_vm" where
  "desk_after es = fst (run gui_step (new_main_vm ''FakeFeed'') es)"

lemmas gui_defs = desk_after_def demo_desk_def demo_dot_def ApplyFrame_def apply_robot_def show_robot_def RebuildTrail_def
  WorldToCanvas_def SetSelection_def set_IsSelected_def on_IsSelected_def update_panel_def first_selected_def
  SetCommandSpeed_def SetCommandRadius_def new_main_vm_def new_robot_vm_def add_trail_def Let_def

lemma demo_desk_facts:
  "mw_SelectedRobots (desk_after demo_desk) = [''R-01'']"
  "\<exists>r. map_of (mw_robots (desk_after demo_desk)) ''R-01'' = Some r \<and> vm_Speed r = Fin 14"
  "\<exists>q. map_of (mw_robots (desk_after demo_desk)) ''R-02'' = Some q \<and> \<not> vm_IsSelected q"
  by (simp_all add: gui_defs)

theorem desktop_commands_highlighted_witness:
  "highlighted (desk_after demo_desk) ''R-01'' \<and> poc_targets (gui_Apply ''guid'' 7 8 (desk_after demo_desk)) = [''R-01'']"
proof -
  let ?cmd = "gui_Apply ''guid'' 7 8 (desk_after demo_desk)"
  have "?cmd \<in> set (snd (gui_step (desk_after demo_desk) (PressesApply ''guid'' 7 8)))" by (simp add: demo_desk_facts(1))
  from desktop_commands_highlighted[OF desk_after_def this] have "\<forall>i. i \<in> set (poc_targets ?cmd) \<longleftrightarrow> highlighted (desk_after demo_desk) i"
    by blast
  moreover have "poc_targets ?cmd = [''R-01'']" by (simp add: gui_Apply_def demo_desk_facts(1))
  ultimately show ?thesis by (metis list.set_intros(1))
qed

theorem typed_speed_replaced_witness:
  "map (\<lambda>cmd. (poc_targets cmd, Option.bind (poc_set_parameters cmd) pr_speed))
     (snd (run gui_step (desk_after demo_desk) [TypesSpeed (Fin 20), RosterSelects ''R-02'' True, PressesApply ''guid'' 7 8])) =
   [([''R-01'', ''R-02''], Some (Fin 14))]"
proof -
  obtain r q where r: "map_of (mw_robots (desk_after demo_desk)) ''R-01'' = Some r" "vm_Speed r = Fin 14"
    and q: "map_of (mw_robots (desk_after demo_desk)) ''R-02'' = Some q" "\<not> vm_IsSelected q"
    using demo_desk_facts(2,3) by blast
  from conjunct1[OF typed_speed_replaced[OF desk_after_def demo_desk_facts(1) r(1) q, of "Fin 20" "''guid''" 7 8]] r(2)
  show ?thesis by (simp only: append.simps)
qed

theorem fit_all_fits_witness:
  "\<exists>r x y. map_of (mw_robots (desk_after (demo_desk @ [PressesFitAll]))) ''R-02'' = Some r \<and>
     vm_CanvasX r = Fin x \<and> vm_CanvasY r = Fin y \<and> x = 760 \<and> x \<le> 760 \<and> 45 / 2 \<le> y \<and> y \<le> 855 / 2"
proof -
  have fin: "list_all frame_finite demo_desk" by (simp add: demo_desk_def demo_dot_def)
  obtain r where r: "map_of (mw_robots (desk_after (demo_desk @ [PressesFitAll]))) ''R-02'' = Some r" "vm_CanvasX r = Fin 760"
    by (simp add: gui_defs FitAll_def map_vals_def double_MaxValue_def)
  from fit_all_fits[OF fin desk_after_def map_of_SomeD[OF r(1)]] r show ?thesis by auto
qed

end
