(* ===== verification/DesktopTrip.thy ===== *)
theory DesktopTrip
  imports C2Faults OperatorGui
begin

text \<open>
  The desktop client (\<open>OperatorGui\<close>) in front of the server and the robots (\<open>C2System\<close>): its command is
  the message the server gets, its feed the frames the server displays. Here no text format lies
  between.
\<close>

section \<open>What a frame reports\<close>

lemma last_report_row:
  "last_report c i (map (\<lambda>t. ((c, tg_robot_id t), tg_state t)) ts) = map_option tg_state (last_of (\<lambda>t. tg_robot_id t = i) ts)"
  by (induction ts) (auto simp: last_report_def split: option.splits)

lemma last_report_commands:
  "Option.bind (last_of (\<lambda>s. cs_command_id s = c) cs) (\<lambda>s. map_option tg_state (last_of (\<lambda>t. tg_robot_id t = i) (cs_targets s))) =
     Some st \<Longrightarrow> last_report c i (reports cs) = Some st"
proof (induction cs rule: rev_induct)
  case (snoc s cs)
  show ?case
  proof (cases "cs_command_id s = c")
    case True
    with snoc.prems show ?thesis by (auto simp: last_of_append reports_simps last_report_row bind_eq_Some_conv)
  next
    case False
    then have "last_report c i (reports [s]) = None" by (auto simp: reports_simps last_report_def last_of_None)
    with False snoc show ?thesis by (simp add: reports_simps(2) last_of_append)
  qed
qed simp

lemma reported_is_last_report: "reported c i f = Some st \<Longrightarrow> last_report c i (reports (sw_commands f)) = Some st"
  by (rule last_report_commands) (simp add: reported_def split: option.splits)

section \<open>What a command of the panel does\<close>

lemma panel_command_motion:
  assumes "sp = no_params\<lparr>pr_speed := v, pr_radius := R\<rparr>" "mo' = fst (sim_applyParams now sp mo)"
  shows "mo_cx mo' = mo_cx mo \<and> mo_cy mo' = mo_cy mo \<and>
    (if accepts sp then mo_speed mo' = (case v of Some x \<Rightarrow> x | None \<Rightarrow> mo_speed mo) \<and>
       mo_radius mo' = (case R of Some x \<Rightarrow> x | None \<Rightarrow> mo_radius mo) else mo' = mo)"
  unfolding assms(2) by (cases v; cases R) (simp_all add: assms(1) sim_applyParams_def accepts_def no_params_def)

section \<open>Properties\<close>

text \<open>C6: The round trip from the desktop: a command that a press of Apply sends to one robot, in any session
  of the client, tracked and dispatched by the server of any run, read by the robot at the end of a
  quiet link, answered behind its next telemetry and shown in the next frame within ten seconds,
  changes the robot's speed and radius as the edited fields say, leaves its centre alone, and turns
  the robot's chip to APPLIED, or to REJECTED (with the motion unchanged) if the radius is not
  positive, whatever the client has shown before.\<close>

theorem desktop_round_trip:
  assumes desk: "m = fst (run gui_step (new_main_vm name) es0)" "snd (gui_step m e) = [cmd]" "poc_targets cmd = [i]"
    and sp: "poc_set_parameters cmd = Some sp"
    and server: "s = fst (run system_step new_system es)" "map_of (ct_commands (co_tracker (sy_core s))) (poc_command_id cmd) = None"
      "quiet_link n i l r s" "\<not> off i" "feed_in FeedTop feed (sy_core s) = Some ft"
    and trip: "trip = way_down n (length (sy_dispatch s)) cmd off submitted @ way_up n steady sys answered"
    and s1: "s1 = fst (run system_step s trip)"
    and frame: "frame = map Feed (feed_round feed shown_at steady' (store_size (co_store (sy_core s1))))"
    and soon: "shown_at - answered < 10000000000"
  shows "highlighted m i \<and> (\<exists>mo. map_option (\<lambda>l. rs_motion (ln_robot l)) (map_of (sy_links s1) n) = Some mo \<and>
      mo = fst (sim_applyParams steady sp (rs_motion (ln_robot l))) \<and>
      mo_cx mo = mo_cx (rs_motion (ln_robot l)) \<and> mo_cy mo = mo_cy (rs_motion (ln_robot l)) \<and>
      (accepts sp \<longrightarrow>
        mo_speed mo = (if mw_CommandSpeedEdited m then mw_CommandSpeed m else mo_speed (rs_motion (ln_robot l))) \<and>
        mo_radius mo = (if mw_CommandRadiusEdited m then mw_CommandRadius m else mo_radius (rs_motion (ln_robot l)))) \<and>
      (\<not> accepts sp \<longrightarrow> mo = rs_motion (ln_robot l))) \<and>
    (\<exists>f. snd (run system_step s1 frame) = [Displayed feed f] \<and>
      chip (fst (gui_step m' (GrpcFeed_frame f))) (poc_command_id cmd) i =
        Some (if accepts sp then ''APPLIED'' else ''REJECTED''))"
proof -
  have "cmd \<in> set (snd (gui_step m e))" using desk(2) by simp
  from desktop_command[OF desk(1) this] have
    targets: "\<forall>j. j \<in> set (poc_targets cmd) \<longleftrightarrow> highlighted m j" and
    panel: "poc_set_parameters cmd = Some (no_params
      \<lparr>pr_speed := (if mw_CommandSpeedEdited m then Some (mw_CommandSpeed m) else None),
       pr_radius := (if mw_CommandRadiusEdited m then Some (mw_CommandRadius m) else None)\<rparr>)"
    by blast+
  from targets have i: "highlighted m i" by (metis desk(3) list.set_intros(1))
  note sp' = panel[unfolded sp option.inject]
  let ?mo = "fst (sim_applyParams steady sp (rs_motion (ln_robot l)))"
  from server_round_trip[OF refl sp desk(3) server trip s1 frame soon] obtain f where
    f: "map_option (\<lambda>l. rs_motion (ln_robot l)) (map_of (sy_links s1) n) = Some (fst (sim_applyParams steady sp (rs_motion (ln_robot l))))"
    "snd (run system_step s1 frame) = [Displayed feed f]"
    "reported (poc_command_id cmd) i f = Some (if accepts sp then CMD_APPLIED else CMD_REJECTED)" by blast
  have "chip (fst (gui_step m' (GrpcFeed_frame f))) (poc_command_id cmd) i = Some (if accepts sp then ''APPLIED'' else ''REJECTED'')"
    using reported_is_last_report[OF f(3)] unfolding step_commands by (simp add: GrpcFeed_frame_def)
  moreover have "mo_cx ?mo = mo_cx (rs_motion (ln_robot l)) \<and> mo_cy ?mo = mo_cy (rs_motion (ln_robot l)) \<and>
    (accepts sp \<longrightarrow>
      mo_speed ?mo = (if mw_CommandSpeedEdited m then mw_CommandSpeed m else mo_speed (rs_motion (ln_robot l))) \<and>
      mo_radius ?mo = (if mw_CommandRadiusEdited m then mw_CommandRadius m else mo_radius (rs_motion (ln_robot l)))) \<and>
    (\<not> accepts sp \<longrightarrow> ?mo = rs_motion (ln_robot l))"
    using panel_command_motion[OF sp' refl, of steady "rs_motion (ln_robot l)"] by (simp split: if_splits)
  ultimately show ?thesis using i f(1,2) by blast
qed

section \<open>Instance\<close>

definition desk_state :: main_vm where
  "desk_state = desk_after (demo_desk @ [TypesSpeed (Fin 20)])"

definition desk_command :: proto_operator_command where
  "desk_command = gui_Apply ''c'' 10 10 desk_state"

definition desk_trip :: "system_event list" where
  "desk_trip = way_down 0 (length (sy_dispatch demo_server)) desk_command (\<lambda>_. False) 1 @ way_up 0 2 2 3"

lemma desk_facts:
  "mw_SelectedRobots desk_state = [''R-01'']" "poc_command_id desk_command = ''c''" "poc_targets desk_command = [''R-01'']"
  "poc_set_parameters desk_command = Some (no_params\<lparr>pr_speed := Some (Fin 20)\<rparr>)"
  by (simp_all add: desk_command_def gui_Apply_def desk_state_def) (simp_all add: gui_defs no_params_def)

theorem desktop_round_trip_witness:
  "\<exists>f. snd (run system_step (fst (run system_step demo_server desk_trip))
        (map Feed (feed_round 5 4 4 (store_size (co_store (sy_core (fst (run system_step demo_server desk_trip)))))))) =
      [Displayed 5 f] \<and>
    chip (fst (gui_step desk_state (GrpcFeed_frame f))) ''c'' ''R-01'' = Some ''APPLIED''"
proof -
  have press: "snd (gui_step desk_state (PressesApply ''c'' 10 10)) = [desk_command]"
    by (simp add: desk_facts(1) desk_command_def)
  have m: "desk_state = fst (run gui_step (new_main_vm ''FakeFeed'') (demo_desk @ [TypesSpeed (Fin 20)]))"
    by (simp only: desk_state_def desk_after_def)
  have new: "map_of (ct_commands (co_tracker (sy_core demo_server))) (poc_command_id desk_command) = None"
    by (simp add: demo_server_quiet(2))
  obtain ft where ft: "feed_in FeedTop 5 (sy_core demo_server) = Some ft" using demo_server_quiet(3) by blast
  have online: "\<not> (\<lambda>_. False) ''R-01''" by simp
  have soon: "(4::int) - 3 < 10000000000" by simp
  have acc: "accepts (no_params\<lparr>pr_speed := Some (Fin 20)\<rparr>)" by (simp add: accepts_def no_params_def)
  from desktop_round_trip[OF m press desk_facts(3,4) demo_server_def new demo_server_quiet(1) online ft
      desk_trip_def refl refl soon, of 4 desk_state] acc
  show ?thesis by (simp only: desk_facts(2) if_True)
qed

end
