(* ===== verification/BlockingGateway.thy ===== *)
theory BlockingGateway
  imports RobotGateway
begin

text \<open>
  \<open>src/core/grpc_robot_gateway.cpp\<close>: the older gateway of the core, with a reader and a writer thread
  per link, which the server no longer constructs. Its translation is the same code as the callback
  gateway's. A step is what one thread does between two waits; the writer holds the lock of the
  link while it drains the queue, so that a drain is one step. It keeps the contract that
  \<open>RobotGateway\<close> states for both.
\<close>

section \<open>State and operations\<close>

text \<open>A link is the state shared by its two threads, with the id of its robot: whether the stop of the
  writer has been requested (which the reader does when the stream has ended) and whether the
  writer still runs. The registry refers weakly to the states, which live while their call of
  \<open>Link\<close> does; a state that is gone is not in \<open>bg_links\<close>.\<close>

record blocking_link =
  bl_robot_id :: string
  bl_outgoing :: "proto_robot_command list"
  bl_stop :: bool
  bl_writer :: bool

record blocking_gateway =
  bg_registry :: "(string \<times> nat) list"
  bg_links :: "(nat \<times> blocking_link) list"
  bg_next :: nat

definition new_blocking_gateway :: blocking_gateway where
  "new_blocking_gateway = \<lparr>bg_registry = [], bg_links = [], bg_next = 0\<rparr>"

definition put_blocking :: "nat \<Rightarrow> blocking_link \<Rightarrow> blocking_gateway \<Rightarrow> blocking_gateway" where
  "put_blocking n l g = g\<lparr>bg_links := AList.update n l (bg_links g)\<rparr>"

definition blocking_lookup :: "blocking_gateway \<Rightarrow> string \<Rightarrow> (nat \<times> blocking_link) option" where
  "blocking_lookup g i =
     Option.bind (map_of (bg_registry g) i) (\<lambda>n. map_option (\<lambda>l. (n, l)) (map_of (bg_links g) n))"

definition blocking_SendCommand :: "robot_command \<Rightarrow> blocking_gateway \<Rightarrow> blocking_gateway \<times> bool" where
  "blocking_SendCommand cmd g =
     (case blocking_lookup g (rc_robot_id cmd) of
        Some (n, l) \<Rightarrow> (put_blocking n (l\<lparr>bl_outgoing := bl_outgoing l @ [to_proto cmd]\<rparr>) g, True)
      | None \<Rightarrow> (g, False))"

text \<open>The start of \<open>Link\<close> with what the first read brought.\<close>

definition blocking_Link :: "uplink option \<Rightarrow> blocking_gateway \<Rightarrow> blocking_gateway \<times> gateway_out list" where
  "blocking_Link up g =
     (case up of
        Some (UpTelemetry t) \<Rightarrow>
          (let n = bg_next g; i = pt_robot_id t in
           (put_blocking n \<lparr>bl_robot_id = i, bl_outgoing = [], bl_stop = False, bl_writer = True\<rparr>
              (g\<lparr>bg_registry := emplace i n (bg_registry g), bg_next := Suc n\<rparr>),
            deliver (UpTelemetry t)))
      | _ \<Rightarrow> (g, []))"

text \<open>The inner loop of the writer, given which of its writes succeed; whether it goes on is the
  second component.\<close>

fun drain :: "nat \<Rightarrow> proto_robot_command list \<Rightarrow> bool list \<Rightarrow> proto_robot_command list \<times> bool \<times> gateway_out list" where
  "drain n [] oks = ([], True, [])"
| "drain n (p # q) (False # oks) = (q, False, [StartWrite n p])"
| "drain n (p # q) oks = (let (q', alive, os) = drain n q (tl oks) in (q', alive, StartWrite n p # os))"

text \<open>A further read of the reader, a drain of the writer, its end (after a stop), and the end of \<open>Link\<close>,
  once the writer has been joined.\<close>

datatype blocking_event =
    BlockingLink "uplink option"
  | BlockingRead nat "uplink option"
  | BlockingDrain nat "bool list"
  | BlockingStops nat
  | BlockingJoin nat
  | BlockingSend robot_command

fun blocking_step :: "blocking_gateway \<Rightarrow> blocking_event \<Rightarrow> blocking_gateway \<times> gateway_out list" where
  "blocking_step g (BlockingLink up) = blocking_Link up g"
| "blocking_step g (BlockingRead n up) =
     (case map_of (bg_links g) n of
        Some l \<Rightarrow>
          (if bl_stop l then (g, [])
           else (case up of Some u \<Rightarrow> (g, deliver u) | None \<Rightarrow> (put_blocking n (l\<lparr>bl_stop := True\<rparr>) g, [])))
      | None \<Rightarrow> (g, []))"
| "blocking_step g (BlockingDrain n oks) =
     (case map_of (bg_links g) n of
        Some l \<Rightarrow>
          (if bl_writer l then
             (let (q, alive, os) = drain n (bl_outgoing l) oks
              in (put_blocking n (l\<lparr>bl_outgoing := q, bl_writer := alive \<and> \<not> bl_stop l\<rparr>) g, os))
           else (g, []))
      | None \<Rightarrow> (g, []))"
| "blocking_step g (BlockingStops n) =
     (case map_of (bg_links g) n of
        Some l \<Rightarrow> (if bl_stop l then put_blocking n (l\<lparr>bl_writer := False\<rparr>) g else g, []) | None \<Rightarrow> (g, []))"
| "blocking_step g (BlockingJoin n) =
     (case map_of (bg_links g) n of
        Some l \<Rightarrow>
          (if bl_stop l \<and> \<not> bl_writer l
           then g\<lparr>bg_registry := AList.delete (bl_robot_id l) (bg_registry g), bg_links := AList.delete n (bg_links g)\<rparr>
           else g, [])
      | None \<Rightarrow> (g, []))"
| "blocking_step g (BlockingSend cmd) = (let (g', ok) = blocking_SendCommand cmd g in (g', [SendReturns ok]))"

section \<open>The registry refers to live links\<close>

definition blocking_inv :: "blocking_gateway \<Rightarrow> bool" where
  "blocking_inv g \<longleftrightarrow>
     (\<forall>i n. map_of (bg_registry g) i = Some n \<longrightarrow> (\<exists>l. map_of (bg_links g) n = Some l \<and> bl_robot_id l = i)) \<and>
     (\<forall>n l. map_of (bg_links g) n = Some l \<longrightarrow> n < bg_next g)"

lemma put_blocking_fields [simp]:
  "bg_registry (put_blocking n l g) = bg_registry g" "bg_next (put_blocking n l g) = bg_next g"
  "map_of (bg_links (put_blocking n l g)) = (map_of (bg_links g))(n \<mapsto> l)"
  by (simp_all add: put_blocking_def)

lemma blocking_entry:
  assumes "blocking_inv g" "map_of (bg_registry g) i = Some n"
  obtains l where "map_of (bg_links g) n = Some l" "bl_robot_id l = i"
  using assms by (auto simp: blocking_inv_def)

lemma blocking_inv_put:
  assumes "blocking_inv g" "map_of (bg_links g) n = Some l" "bl_robot_id l' = bl_robot_id l"
  shows "blocking_inv (put_blocking n l' g)"
proof -
  have "bl_robot_id l' = i" if "map_of (bg_registry g) i = Some n" for i
    using blocking_entry[OF assms(1) that] assms(2,3) by (metis option.inject)
  with assms(1,2) show ?thesis unfolding blocking_inv_def by auto
qed

lemma blocking_inv_link: "blocking_inv g \<Longrightarrow> blocking_inv (fst (blocking_Link up g))"
proof -
  assume inv: "blocking_inv g"
  have "m \<noteq> bg_next g" if "map_of (bg_registry g) i = Some m" for i m
    using inv that unfolding blocking_inv_def by blast
  with inv show ?thesis
    by (auto simp: blocking_Link_def Let_def blocking_inv_def map_of_emplace less_Suc_eq
        split: option.split uplink.split if_splits)
qed

lemma blocking_inv_join:
  assumes inv: "blocking_inv g" and l: "map_of (bg_links g) n = Some l"
  shows "blocking_inv (g\<lparr>bg_registry := AList.delete (bl_robot_id l) (bg_registry g), bg_links := AList.delete n (bg_links g)\<rparr>)"
proof -
  have "m \<noteq> n" if "map_of (bg_registry g) i = Some m" "i \<noteq> bl_robot_id l" for i m
    using blocking_entry[OF inv that(1)] l that(2) by (metis option.inject)
  with inv show ?thesis by (auto simp: blocking_inv_def delete_conv' split: if_splits)
qed

lemma blocking_send_inv: "blocking_inv g \<Longrightarrow> blocking_inv (fst (blocking_SendCommand c g))"
  by (auto simp: blocking_SendCommand_def blocking_lookup_def bind_eq_Some_conv split: option.split intro: blocking_inv_put)

lemma blocking_inv_step: "blocking_inv g \<Longrightarrow> blocking_inv (fst (blocking_step g e))"
  by (cases e)
    (auto simp: blocking_inv_link blocking_inv_join blocking_send_inv Let_def split_beta
      split: option.split intro: blocking_inv_put)

interpretation blocking_machine: io_machine blocking_step blocking_inv "\<lambda>_. True"
  by unfold_locales (simp_all add: blocking_inv_step list_all_iff)

lemma new_blocking_inv: "blocking_inv new_blocking_gateway"
  by (simp add: blocking_inv_def new_blocking_gateway_def)

section \<open>The contract\<close>

definition blocking_queued :: "blocking_gateway \<Rightarrow> string \<Rightarrow> proto_robot_command list option" where
  "blocking_queued g i = map_option (\<lambda>(n, l). bl_outgoing l) (blocking_lookup g i)"

interpretation blocking: command_gateway blocking_SendCommand blocking_inv blocking_queued
proof
  show "blocking_inv (fst (blocking_SendCommand c g))" if "blocking_inv g" for c g
    by (rule blocking_send_inv[OF that])
next
  show "snd (blocking_SendCommand c g) = (blocking_queued g (rc_robot_id c) \<noteq> None)" for c g
    by (auto simp: blocking_SendCommand_def blocking_queued_def split: option.split)
next
  fix g c i assume g: "blocking_inv g"
  show "blocking_queued (fst (blocking_SendCommand c g)) i =
    (if rc_robot_id c = i then map_option (\<lambda>q. q @ [to_proto c]) (blocking_queued g i) else blocking_queued g i)"
  proof (cases "map_of (bg_registry g) (rc_robot_id c)")
    case (Some n)
    with g obtain l where l: "map_of (bg_links g) n = Some l" "bl_robot_id l = rc_robot_id c" by (rule blocking_entry)
    have "m \<noteq> n" if "map_of (bg_registry g) i = Some m" "i \<noteq> rc_robot_id c" for m
      using blocking_entry[OF g that(1)] l that(2) by (metis option.inject)
    with Some l(1) show ?thesis
      by (auto simp: blocking_SendCommand_def blocking_queued_def blocking_lookup_def split: bind_splits)
  qed (auto simp: blocking_SendCommand_def blocking_queued_def blocking_lookup_def)
qed

section \<open>Properties\<close>

text \<open>The two gateways hold the same commands: whatever either has been through, if the link of a robot
  has nothing queued in both, then after the same commands it holds the same in both.\<close>

theorem gateways_agree:
  assumes "gateway_run g os" "callback_queued g i = Some []"
    "blocking_queued (fst (run blocking_step new_blocking_gateway es)) i = Some []"
  shows "callback_queued (foldl (\<lambda>g c. fst (callback_send c g)) g cs) i =
    blocking_queued (foldl (\<lambda>g c. fst (blocking_SendCommand c g)) (fst (run blocking_step new_blocking_gateway es)) cs) i"
proof -
  have "callback_good g" using gateway_run_inv[OF assms(1)] by (simp add: callback_good_def gateway_inv_def)
  moreover have "blocking_inv (fst (run blocking_step new_blocking_gateway es))"
    by (rule blocking_machine.run_inv[OF new_blocking_inv])
  ultimately show ?thesis using assms(2,3) by (simp add: callback.all_queued blocking.all_queued)
qed

text \<open>But not the same faults: when a write fails the writer thread ends and nothing is told, so the
  robot stays registered, and until its stream ends every command is accepted and none is ever
  written.\<close>

fun link_lives :: "nat \<Rightarrow> string \<Rightarrow> blocking_event \<Rightarrow> bool" where
  "link_lives n i (BlockingRead m up) = (m = n \<longrightarrow> up \<noteq> None)"
| "link_lives n i (BlockingJoin m) = (m = n)"
| "link_lives n i _ = True"

definition writer_dead :: "nat \<Rightarrow> string \<Rightarrow> blocking_gateway \<Rightarrow> bool" where
  "writer_dead n i g \<longleftrightarrow> map_of (bg_registry g) i = Some n \<and> (\<exists>l. map_of (bg_links g) n = Some l \<and> \<not> bl_writer l \<and> \<not> bl_stop l) \<and> n < bg_next g"

lemma drain_writes: "StartWrite m p \<in> set (snd (snd (drain n q oks))) \<Longrightarrow> m = n"
  by (induction n q oks rule: drain.induct) (auto simp: split_beta Let_def split: if_splits)

lemma no_write_delivered [simp]: "StartWrite n p \<notin> set (deliver u)"
  by (cases u) simp_all

lemma dead_step:
  "writer_dead n i g \<Longrightarrow> link_lives n i e \<Longrightarrow>
     writer_dead n i (fst (blocking_step g e)) \<and> (\<forall>p. StartWrite n p \<notin> set (snd (blocking_step g e)))"
  by (cases e)
    (auto simp: writer_dead_def blocking_Link_def Let_def map_of_emplace blocking_SendCommand_def blocking_lookup_def
      bind_eq_Some_conv split_beta dest: drain_writes split: option.splits uplink.splits)

theorem dead_writer_swallows_commands:
  assumes "map_of (bg_registry g) i = Some n" "map_of (bg_links g) n = Some l" "bl_writer l" "\<not> bl_stop l" "n < bg_next g"
    "bl_outgoing l \<noteq> []" "list_all (link_lives n i) es" "rc_robot_id cmd = i"
    "run blocking_step g (BlockingDrain n [False] # es) = (g', os)"
  shows "snd (blocking_SendCommand cmd g') \<and> (\<forall>p. StartWrite n p \<in> set os \<longrightarrow> p = hd (bl_outgoing l))"
proof -
  let ?g = "fst (blocking_step g (BlockingDrain n [False]))"
  obtain p q where q: "bl_outgoing l = p # q" using assms(6) by (cases "bl_outgoing l") auto
  have dead: "writer_dead n i ?g" and out: "snd (blocking_step g (BlockingDrain n [False])) = [StartWrite n p]"
    using assms(1-5) by (simp_all add: q writer_dead_def)
  have "writer_dead n i (fst (run blocking_step s es)) \<and> (\<forall>p. StartWrite n p \<notin> set (snd (run blocking_step s es)))"
    if "writer_dead n i s" for s
    using that assms(7)
  proof (induction es arbitrary: s)
    case (Cons e es)
    from dead_step[OF Cons.prems(1)] Cons show ?case by (simp add: split_beta del: blocking_step.simps)
  qed simp
  from this[OF dead] assms(9) out have "writer_dead n i g'" "set os = {StartWrite n p} \<union> (set os - {StartWrite n p})"
    "\<forall>p'. StartWrite n p' \<in> set os \<longrightarrow> p' = p"
    by (auto simp: split_beta simp del: blocking_step.simps)
  with assms(8) show ?thesis
    by (auto simp: writer_dead_def blocking_SendCommand_def blocking_lookup_def q)
qed

end
