(* ===== verification/Spec2Isabelle.thy ===== *)
theory Spec2Isabelle
  imports Gateway Fixtures MapLayers EngineTests App DesktopTrip EndToEnd BlockingGateway
begin

text \<open>
  A verification library for the Emperor swarm C2 system: its web operator client, the
  TypeScript programs under \<open>src/gui/react-spike\<close> (the gateway process \<open>bridge/src\<close> and the
  browser application \<open>web/src\<close>), the C++ system it operates, the C2 server (\<open>src/core\<close>,
  \<open>src/c2_server\<close>) and the robots (\<open>src/robot_sim\<close>), and the desktop client in C# (\<open>src/gui/operator_gui\<close>).

  The program. A robot runs a motion model, streams telemetry to the server and answers the
  commands it reads. The server keeps the latest telemetry of every robot (track store), the time
  it was last heard (link watchdog) and the lifecycle of every command at every target (command
  tracker); its gateway keeps the registry of linked robots with one reactor per link; its operator
  feed assembles a frame five times a second for every subscriber and dispatches commands. On the
  operator's side a source produces frames (\<open>SwarmState\<close>: the robots with their link status, and
  the tracked commands) and accepts commands. The bridge fronts one source, either the gRPC
  client of the real server or a simulator, and fans its frames and status out to browsers over
  WebSockets. In the browser, \<open>useSwarm\<close> keeps the connection, the last frame and the position
  trails; \<open>useAlerts\<close> runs the alert engine on every frame; \<open>useCommandAudit\<close> logs the commands
  issued in the session with their outcomes; \<open>App\<close> holds the operator's state and the gate that
  confirms wide commands; \<open>MapView\<close> draws robots, trails, orbits and coasting ghosts.

  The theories, in the order they build on each other:

  \<^item> \<open>Prelude\<close>: \<open>Map\<close> and \<open>Set\<close> of JavaScript as lists in insertion order, \<open>run\<close> (an operation
    that emits output, threaded over a list of inputs) and the interfaces several components share,
    as locales: \<open>io_machine\<close> (an invariant of a machine), \<open>history_machine\<close> (an invariant that
    relates the state to everything emitted), \<open>guarded_machine\<close> (an invariant that needs good
    inputs), \<open>simulation\<close> (a machine refines a specification), \<open>fair_progress\<close> (a component that
    arrives once its environment is calm and pays what it owes), \<open>bounded_log\<close> (a capped log
    refines the unbounded history), \<open>id_minter\<close> (fresh command ids).
  \<^item> \<open>JsNum\<close>, \<open>JsString\<close>: the numbers (reals, both infinities, NaN) and the string functions the
    code calls, with \<open>Number\<close>, number printing and \<open>toFixed\<close>.
  \<^item> \<open>WireTypes\<close>: \<open>types.ts\<close> of both packages and \<open>viz.ts\<close>.
  \<^item> \<open>Source\<close>, \<open>FakeSource\<close>, \<open>GrpcSource\<close>: \<open>source.ts\<close> as a locale, and its two providers
    \<open>fakeSource.ts\<close> and \<open>grpcSource.ts\<close>.
  \<^item> \<open>Bridge\<close>: \<open>index.ts\<close>, the gateway as a machine over socket, transport and timer events.
  \<^item> \<open>Json\<close>, \<open>Codec\<close>: JSON values, what sending does to them, and an encoder and a decoder for every
    message, as interpretations of the locales \<open>codec\<close> and \<open>exact_codec\<close>. \<open>Gateway\<close>: how the bridge
    reads an arbitrary JSON value, exceptions included, and the typing of what it sends.
  \<^item> \<open>AlertEngine\<close>, \<open>UseAlerts\<close>, \<open>UseSwarm\<close>, \<open>UseCommandAudit\<close>: the files of those names.
  \<^item> \<open>Geo\<close>: \<open>geo.ts\<close> and \<open>mission.ts\<close>. \<open>Fixtures\<close>: \<open>scripts/generate_fixtures.mjs\<close>, the mission
    and its buffers. \<open>Orbit\<close> and \<open>MapView\<close>: \<open>MapView.tsx\<close>, the pure geometry and the component;
    \<open>MapLayers\<close>: its map style, colour expressions and the calls of the load handler.
  \<^item> \<open>Vdom\<close>, \<open>Panels\<close>: rendered trees with handlers and event bubbling; the seven panels.
  \<^item> \<open>App\<close>: \<open>App.tsx\<close> and \<open>CommandPanel.tsx\<close>.
  \<^item> \<open>EngineTests\<close>: the cases of \<open>alertEngine.test.ts\<close>, run on the model.
  \<^item> \<open>CoreTypes\<close>: \<open>core/robot_types.hpp\<close>, time and hash maps. \<open>TrackStore\<close>, \<open>LinkWatchdog\<close>,
    \<open>CommandTracker\<close>: the organs of the files of those names; \<open>TrackStore\<close> also as the steps
    between its two levels of locks.
  \<^item> \<open>RobotGateway\<close>: \<open>core/grpc_robot_callback_gateway.cpp\<close> and \<open>core/grpc_robot_reactor.cpp\<close>.
    \<open>BlockingGateway\<close>: \<open>core/grpc_robot_gateway.cpp\<close>, its predecessor, which the server no longer uses.
    The locale \<open>command_gateway\<close> is what both promise to who sends commands.
    \<open>RobotSim\<close>: \<open>robot_sim/main.cpp\<close>, the motion model and the two threads.
  \<^item> \<open>OperatorFeed\<close>: \<open>c2_server/operator_feed_service.cpp\<close> and the callbacks of \<open>c2_server/main.cpp\<close>,
    each handler as if alone. \<open>C2Threads\<close>: the same as threads that interleave between locks.
    \<open>C2System\<close>: server, gateway, links and any number of robots as one machine.
  \<^item> \<open>EndToEnd\<close>: that machine behind the bridge and the browser. \<open>C2Faults\<close>: the ghost of a real
    robot, and what goes wrong.
  \<^item> \<open>OperatorGui\<close>: the desktop client, \<open>MainViewModel.cs\<close> with its feeds and converters; \<open>DesktopTrip\<close>:
    that client in front of the server and the robots.
  \<^item> this theory: the properties that span components of the client.

  Correspondence. A class or a component with state is a record whose fields are the private
  fields, \<open>useState\<close> cells and refs; a method, handler or effect is one function from the record
  to the new record and what it emits (callbacks, messages, transport calls, camera moves), in the
  order of the code; each component has a \<open>step\<close> over its events and a \<open>session\<close> (the step folded
  over any list of events from the initial state), and most properties hold of every session.
  On the C++ side an organ is a record of its fields and an operation that runs under one lock is
  one function; where threads interleave, a step is what happens under one lock, and the
  steps come in any order (\<open>store_step\<close>, \<open>core_step\<close>, \<open>gateway_step\<close>, \<open>sim_step\<close>, \<open>system_step\<close>). The
  lifecycle of a command is the inductive relation \<open>lifecycle\<close>, the runs of the gateway the
  inductive predicate \<open>gateway_run\<close>.
  Loops over a frame are \<open>foldl\<close> or \<open>run\<close>, so everything terminates by structure and no fuel is
  used. Caps and schedules are those of the code: 200 alerts, 100 audit entries, 50 trail points,
  backoff from 500 to 5000 ms, 40 ticks of retention (a command lives at most 42 ticks: two to
  be applied, 40 to be retained).

  What the groups of lemmas show. Alerts: the engine refines per-robot edge detectors, and the feed
  the history it logs. Connections: the bridge and its clients agree, the gRPC source and the
  browser socket have one stream or one pending retry and recover from every state, the last
  reported status is true. Messages: what is sent reads back at its type exactly when its numbers
  are finite, of the texts the model reads only \<open>null\<close> ends the bridge, and a malformed command is
  refused.
  Commands: the gate, the acknowledgement of every command (one, or two where the bridge errs), its
  way through JSON and back, its timeline in the simulator and in every entry of the audit log, and
  what happens to a command that cannot be sent. Picture: markers, ghosts, orbits and symbols show what the frame says, with the simulator
  the projected geometry is the true one, and its robots are inside the generated mission. Where
  the code departs from its comments, a theorem states what it does.
  Server: the organs meet their contracts (newest sample by number, health by silence, lifecycle,
  expiry and bounded retention), the store is linearizable, the registry never dangles, commands
  go down a link in order, also when writes fail. Whole system: what robots execute is what operators
  ordered, what operators are shown is what robots answered and never goes back, a command makes the
  full way from the browser to a robot's motion and back to the audit log. Faults: a
  reused id, a relinked, a restarted and a newly seen robot, a late command. Desktop: the two views
  of the selection agree and a command goes to what is highlighted, Fit All fits, the chips show
  the last report, a command makes the full way and back.

  Idealisations. Arithmetic on numbers is exact: no rounding, no negative zero, and no overflow. A
  finite operation on finite numbers is finite here, where doubles beyond about \<open>1.8e308\<close> overflow to
  infinity (and on to NaN), so nothing is claimed about the finiteness of what the simulator or a
  robot reports for parameters of such magnitude. Sequence numbers and ages are unbounded integers
  in the client, telemetry numbers are 64-bit words in C++; \<open>elapsed\<close> is the exact sum of its ticks.
  Strings are lists of characters, with the few others the program prints given by their UTF-8 bytes.
  JSON is modelled from the parsed value on, with the keys of an object distinct. Two violations of
  \<open>types.ts\<close> that raise no exception are outside the model: a command id that is neither \<open>null\<close> nor a
  string, and an array of targets with an element that is not a string (\<open>Gateway.mistyped\<close>). A browser
  is followed as long as what it is sent reads at its type. Frames of the gRPC source are taken as
  well-typed. Keys of \<open>outcomes\<close> are in insertion order. An event of the page is processed to the end,
  its passive effects included, before the next event; the page commits before these effects and
  again after them (\<open>App.page_commits\<close>). React compares the dependencies of an effect by identity;
  \<open>map_commit\<close> has an argument for the objects that are new with an old value.

  The desktop client handles one event at a time on the dispatcher's thread; a binding of its window
  appears as the assignment it makes. In C++ a time point is an integer number of nanoseconds, without the bounds of its
  \<open>int64\<close>; an \<open>unordered_map\<close> is an association list whose order no property depends on; a clock
  reading is an argument of the step that reads it, and may be any, except where a property says that
  the clock has not gone back (\<open>CommandTracker.up_to\<close>); a stream delivers in order, late or never.

  Parameters. Third-party code and the host are arguments: turf's point-in-polygon test
  (\<open>inside\<close>), its \<open>buffer\<close> and \<open>union\<close>, the evaluation of a map expression (whose \<open>match\<close> rule of the
  style specification is a hypothesis where it matters), milsymbol (\<open>svg\<close>), \<open>localeCompare\<close>, \<open>toLocaleTimeString\<close>, the clock, the zoom of the
  map. The gRPC library is the environment of \<open>GrpcSource.grpc_life\<close>, whose documented contract
  \<open>transport_ok\<close> is that a stream ends with one terminal event, an error or an end, and delivers
  nothing after it; \<open>second_terminal_event_doubles\<close> shows what the source does without it. The
  server's gRPC callbacks obey \<open>RobotGateway.grpc_ok\<close> (an operation completes when it is outstanding,
  \<open>OnDone\<close> comes last). The stub that \<open>proto.ts\<close> loads is the parameter \<open>ser\<close> of \<open>EndToEnd\<close>, with its
  documented behaviour \<open>faithful_stub\<close>.

  Not modelled. \<open>proto.ts\<close> (a call of the protocol loader), \<open>main.tsx\<close>, the build configuration, style
  sheets, the map's controls and resize observer, console output (but for the exception that composing
  a line of it can raise in the bridge), the committed fixture (data).
  In C++: command-line parsing, process start and teardown, tests and probes. In C#: the window's layout.
\<close>

section \<open>The browser behind the bridge\<close>

text \<open>A browser that opens its socket and is then delivered texts, here as the values that
  \<open>JSON.parse\<close> reads. \<open>useSwarm\<close> casts what it parsed to \<open>ServerMessage\<close> without a check; at a value
  that is not of that type the model stops (\<open>None\<close>), since its state has no place for it.\<close>

fun on_texts :: "swarm_hook \<Rightarrow> json list \<Rightarrow> swarm_hook option" where
  "on_texts h [] = Some h"
| "on_texts h (v # vs) =
     (case dec_server_message v of None \<Rightarrow> None | Some m \<Rightarrow> on_texts (swarm_step h (WsMessage 0 m)) vs)"

definition browse :: "json list \<Rightarrow> swarm_hook option" where
  "browse vs = on_texts (swarm_step mounted_swarm (WsOpen 0)) vs"

text \<open>What \<open>ws.send(JSON.stringify(m))\<close> puts on the wire to a socket.\<close>

definition texts_to :: "nat \<Rightarrow> bridge_out list \<Rightarrow> json list" where
  "texts_to ws os = map (\<lambda>m. wire (enc_server_message m)) (sent_to ws os)"

definition receive :: "swarm_hook \<Rightarrow> server_message list \<Rightarrow> swarm_hook" where
  "receive h ms = foldl on_ws_message h ms"

lemma on_texts_receive:
  "sh_sockets h = [OPEN] \<Longrightarrow> list_all message_ok ms \<Longrightarrow>
     on_texts h (map (\<lambda>m. wire (enc_server_message m)) ms) = Some (receive h ms)"
  by (induction ms arbitrary: h) (simp_all add: receive_def message_codec.round_trip)

lemma browse_receive:
  "list_all message_ok ms \<Longrightarrow> browse (map (\<lambda>m. wire (enc_server_message m)) ms) =
     Some (receive (on_open (set_socket 0 OPEN mounted_swarm)) ms)"
  by (simp add: browse_def on_texts_receive mounted_swarm_def connect_def on_open_def set_socket_def)

lemma receive_frame:
  "last_of is_swarm ms = map_option SwarmMsg f \<Longrightarrow>
     sh_frame (receive h ms) = (case f of None \<Rightarrow> sh_frame h | Some s \<Rightarrow> Some s)"
proof (induction ms arbitrary: f rule: rev_induct)
  case Nil
  then show ?case by (cases f) (simp_all add: receive_def)
next
  case (snoc m ms)
  then show ?case
    using snoc.IH[of f] by (cases m) (auto simp: receive_def last_of_append split: option.splits)
qed

lemma receive_ws [simp]: "ss_ws (sh_status (receive h ms)) = ss_ws (sh_status h)"
proof (induction ms rule: rev_induct)
  case (snoc m ms)
  then show ?case by (cases m) (simp_all add: receive_def)
qed (simp add: receive_def)

lemma receive_status:
  "last_of is_status ms = Some (StatusMsg conn kind detail) \<Longrightarrow>
     sh_status (receive h ms) =
       \<lparr>ss_ws = ss_ws (sh_status h), ss_source = Some kind, ss_connected = conn, ss_detail = detail\<rparr>"
proof (induction ms rule: rev_induct)
  case Nil
  then show ?case by simp
next
  case (snoc m ms)
  then show ?case
    using receive_ws[of h ms] by (cases m) (auto simp: receive_def last_of_append)
qed

section \<open>Commands from the browser to the simulator and back\<close>

lemma sent_intent:
  assumes "swarm_sendCommand now h i = (h', c, [CommandMsg j])"
  shows "j = i\<lparr>in_command_id := Some c\<rparr>"
  using assms by (auto simp: swarm_sendCommand_def split_beta Let_def split: if_splits)

lemma newest_status:
  assumes "k < 40" "in_command_id i = Some c"
  shows "\<exists>cs. command_statuses (((\<lambda>s. fst (tick s)) ^^ k) (fst (fake_sendCommand s i))) =
    cs @ [\<lparr>cs_command_id = c,
      cs_targets = map (\<lambda>r. let t = fake_target (fs_robots s) (in_params i) r in
        \<lparr>tg_robot_id = r, tg_state = life_state k (tp_state t), tg_detail = tp_detail t\<rparr>) (in_targets i)\<rparr>]"
proof -
  let ?c = "\<lparr>fc_command_id = c, fc_targets = map (fake_target (fs_robots s) (in_params i)) (in_targets i),
     fc_retire = int RETAIN_TICKS\<rparr>"
  note timeline = age_command_timeline[of ?c "fs_robots s" "in_params i" "in_targets i"]
  have "fs_commands (fst (fake_sendCommand s i)) = fs_commands s @ [?c]"
    using assms(2) by (simp add: fake_sendCommand_def issue_fake_id_def)
  moreover have "0 < fc_retire ((age_command ^^ j) ?c)" if "j \<le> k" for j
  proof -
    from timeline[of j] have "fc_retire ?c - int j \<le> fc_retire ((age_command ^^ j) ?c)" by simp
    with that assms(1) show ?thesis by (simp add: RETAIN_TICKS_def)
  qed
  ultimately obtain cs' where
    "fs_commands (((\<lambda>s. fst (tick s)) ^^ k) (fst (fake_sendCommand s i))) = cs' @ [(age_command ^^ k) ?c]"
    using newest_command by blast
  with timeline[of k] show ?thesis
    by (simp add: command_statuses_def Let_def life_target_def life_state_def fake_target_def
        split: option.split)
qed

lemma tick_emits:
  "f \<in> set (frames_emitted (snd (tick s))) \<Longrightarrow> sw_commands f = command_statuses (fst (tick s))"
  by (auto simp: tick_def Let_def emit_frame_def command_statuses_def frames_emitted_def split: if_splits)

lemma last_of_map:
  "last_of (\<lambda>t. k t = r) (map g rs) = map_option g (last_of (\<lambda>x. k (g x) = r) rs)"
  by (induction rs) (auto split: option.split)

lemma last_of_holds: "last_of p xs = Some y \<Longrightarrow> p y"
  by (induction xs) (auto split: option.splits if_splits)

lemma last_of_self: "r \<in> set rs \<Longrightarrow> last_of (\<lambda>x. x = r) rs = Some r"
  using last_of_None[of "\<lambda>x. x = r" rs] last_of_holds[of "\<lambda>x. x = r" rs]
  by (cases "last_of (\<lambda>x. x = r) rs") auto

lemma reported_newest:
  assumes "sw_commands f = cs @ [\<lparr>cs_command_id = c, cs_targets = map g rs\<rparr>]" "r \<in> set rs"
    and "\<And>x. tg_robot_id (g x) = x"
  shows "reported c r f = Some (tg_state (g r))"
  using assms(2) by (simp add: reported_def assms(1) last_of_append last_of_map assms(3) last_of_self)

section \<open>From a breach to the map\<close>

text \<open>Only listed alerts can be acknowledged from the rendered tree, so the alert invariant
  survives every event of the application.\<close>

definition acks_listed :: "alert list \<Rightarrow> action \<Rightarrow> bool" where
  "acks_listed as a \<longleftrightarrow> (\<forall>i. a = Ack i \<longrightarrow> i \<in> al_id ` set as)"

lemma panels_acks [simp]:
  "all_acts (acks_listed as) (StatusBar robots status osm n sy AllStop (ToggleSa k) ToggleBasemap FitAllRobots)"
  "all_acts (acks_listed as) (Roster cmp robots sel Select)"
  "all_acts (acks_listed as) (LayerToggles vis ToggleLayer sav ToggleSa)"
  "all_acts (acks_listed as) (CommandPanel sel cp EditSpeed EditRadius Apply)"
  "all_acts (acks_listed as) (AuditStrip fmt entries opened ToggleAudit)"
  "all_acts (acks_listed as) (CommandStrip commands)"
  "all_acts (acks_listed as) (ConfirmDialog t l d c Confirm Cancel)"
  by (simp_all add: acks_listed_def StatusBar_def Roster_def roster_row_def LayerToggles_def toggle_row_def
      LAYER_ROWS_def SA_ROWS_def CommandPanel_def AuditStrip_def audit_row_def audit_chip_def
      CommandStrip_def strip_row_def strip_chip_def ConfirmDialog_def Let_def list.pred_map
      comp_def list.pred_True)

lemma row_acks:
  "a \<in> set as \<Longrightarrow> all_acts (acks_listed as) (alert_row fmt acked Ack FlyToRobot a)"
  by (simp add: alert_row_def acks_listed_def Let_def)

lemma feed_acks [simp]: "all_acts (acks_listed as) (AlertFeed fmt as acked n Ack AckAll FlyToRobot)"
proof -
  have "list_all (all_acts (acks_listed as)) (map (alert_row fmt acked Ack FlyToRobot) (rev as))"
    by (auto simp: list_all_iff row_acks)
  moreover have "acks_listed as AckAll" by (simp add: acks_listed_def)
  ultimately show ?thesis by (simp add: AlertFeed_def Let_def)
qed

lemma App_view_acks: "all_acts (acks_listed (ua_alerts (ap_alerts app))) (App_view cmp fmt app)"
  by (simp add: App_view_def App_panels_def split: option.split)

lemma act_alerts:
  assumes "hook_inv (ap_alerts app)" "acks_listed (ua_alerts (ap_alerts app)) a"
  shows "hook_inv (ap_alerts (fst (app_act now app a))) \<and>
    ua_alerts (ap_alerts (fst (app_act now app a))) = ua_alerts (ap_alerts app)"
  using assms
  by (cases a) (auto simp: onAllStop_def issueCommand_def onConfirm_def doSend_def split_beta Let_def
      acks_listed_def ack_def[of _ "ap_alerts app"] ackAll_def[of "ap_alerts app"]
      intro: hook_inv_ack[unfolded ack_def] hook_inv_ackAll[unfolded ackAll_def] split: option.split)

lemma acts_alerts:
  "hook_inv (ap_alerts app) \<Longrightarrow> list_all (acks_listed (ua_alerts (ap_alerts app))) as \<Longrightarrow>
     hook_inv (ap_alerts (fst (run (app_act now) app as)))"
proof (induction as arbitrary: app)
  case (Cons a as)
  with act_alerts[of app a now] show ?case by (simp add: split_beta)
qed simp

lemma after_event_alerts [simp]: "ap_alerts (fst (after_event now r)) = ap_alerts (fst r)"
  by (simp add: after_event_def demo_effect_def onAllStop_def issueCommand_def doSend_def split_beta Let_def)

lemma step_alerts:
  "hook_inv (ap_alerts app) \<Longrightarrow> hook_inv (ap_alerts (fst (app_step inside cmp fmt app ev)))"
proof (cases ev)
  case (Socket now e)
  assume "hook_inv (ap_alerts app)"
  then show ?thesis by (simp add: Socket app_step.simps Let_def frame_effects_def hook_inv_frame)
next
  case (Dom now kind e path)
  assume "hook_inv (ap_alerts app)"
  from acts_alerts[OF this all_acts_dispatch[OF App_view_acks]] show ?thesis
    by (simp add: Dom app_step.simps)
next
  case (OnMap now a)
  assume "hook_inv (ap_alerts app)"
  moreover have "acks_listed (ua_alerts (ap_alerts app)) (map_to_action a)"
    by (cases a) (simp_all add: acks_listed_def)
  ultimately show ?thesis using act_alerts by (simp add: OnMap app_step.simps)
qed

interpretation app_alerts: io_machine "app_step inside cmp fmt" "\<lambda>app. hook_inv (ap_alerts app)" "\<lambda>_. True"
  for inside cmp fmt
  by unfold_locales (simp_all add: step_alerts list_all_iff)

lemma alerts_session: "hook_inv (ap_alerts (app_session inside cmp fmt demo evs))"
  unfolding app_session_def
  by (rule app_alerts.run_inv) (simp add: mounted_app_def Let_def hook_inv_new)

text \<open>A robot seen outside that was not known to be outside raises a critical geofence alert.\<close>

lemma breach_alerted:
  assumes "r \<in> set (sw_robots f)" "distinct (map rb_id (sw_robots f))" "rb_link_status r \<noteq> LINK_LOST"
    and "\<not> inside (tl_x (rb_telemetry r)) (tl_y (rb_telemetry r))"
    and "map_of (prevInside e) (rb_id r) \<noteq> Some False"
  shows "\<exists>a \<in> set (snd (ingest inside e f now)).
    al_kind a = GeofenceAlert \<and> al_robotId a = rb_id r \<and> al_severity a = Critical"
proof -
  have "frames_obs (fence_obs inside (rb_id r)) (f, now) = [False]"
    using obs_of_member[OF assms(2,1), of "fence_obs inside (rb_id r)"] assms(3,4)
    by (simp add: frames_obs_def fence_obs_def)
  moreover have edge: "fence_spec (map_of (prevInside e) (rb_id r)) False = (Some False, [Critical])"
    using assms(5) by (cases "map_of (prevInside e) (rb_id r)") auto
  ultimately have "concat (map (sev_of GeofenceAlert (rb_id r)) (snd (ingest inside e f now))) = [Critical]"
    using fence_frame.step_refines[where i = "rb_id r" and inside = inside and s = e and e = "(f, now)"] edge
    by simp
  then have "Critical \<in> set (concat (map (sev_of GeofenceAlert (rb_id r)) (snd (ingest inside e f now))))"
    by simp
  then show ?thesis by (auto simp: sev_of_def split: if_splits)
qed

lemma latest_all: "length ys \<le> n \<Longrightarrow> set ys \<subseteq> set (latest n (xs @ ys))"
  by (simp add: latest_def)

lemma breach_critical:
  assumes "hook_inv h" "a \<in> set (snd (ingest inside (ua_engine h) f now))"
    and "al_kind a = GeofenceAlert" "al_severity a = Critical"
    and "length (snd (ingest inside (ua_engine h) f now)) \<le> 200"
  shows "al_robotId a \<in> set (criticalRobots (on_alert_frame inside h (Some f) now)) \<and>
    ua_breachPulseNonce (on_alert_frame inside h (Some f) now) = Suc (ua_breachPulseNonce h)"
proof -
  obtain e created where i: "ingest inside (ua_engine h) f now = (e, created)" by force
  with numbered_ingest[of "ua_engine h" inside f now] created_fresh[OF assms(1)]
  have "al_id a \<notin> set (ua_acked h)" using assms(2) by fastforce
  moreover have "a \<in> set (latest 200 (ua_alerts h @ created))"
    using latest_all[of created 200 "ua_alerts h"] assms(2,5) i by auto
  ultimately show ?thesis
    using assms(2-4) i
    by (auto simp: on_alert_frame_def criticalRobots_def unacked_def push_alerts_def MAX_ALERTS_def Let_def)
qed

lemma demo_effect_swarm: "sh_frame (ap_swarm (fst (demo_effect now app))) = sh_frame (ap_swarm app)"
  by (simp add: demo_effect_def onAllStop_def issueCommand_def doSend_def swarm_sendCommand_def
      issue_web_id_def split_beta Let_def split: option.split)

lemma after_event_frame [simp]:
  "sh_frame (ap_swarm (fst (after_event now r))) = sh_frame (ap_swarm (fst r))"
  by (simp add: after_event_def split_beta Let_def demo_effect_swarm)

lemma last_of_distinct:
  "r \<in> set rs \<Longrightarrow> distinct (map k rs) \<Longrightarrow> last_of (\<lambda>q. k q = k r) rs = Some r"
proof (induction rs)
  case (Cons q qs)
  show ?case
  proof (cases "r \<in> set qs")
    case True
    with Cons show ?thesis by simp
  next
    case False
    with Cons.prems have "last_of (\<lambda>p. k p = k r) qs = None" by (auto simp: last_of_None image_iff)
    with False Cons.prems show ?thesis by simp
  qed
qed simp

lemma effects_markers [simp]:
  "mv_markers (basemap_effect p mv) = mv_markers mv"
  "mv_markers (layers_effect p mv) = mv_markers mv"
  "mv_markers (pulse_effect now p mv) = mv_markers mv"
  by (simp_all add: basemap_effect_def layers_effect_def pulse_effect_def set_layout_def Let_def)

lemma effects_host [simp]:
  "mv_created (basemap_effect p mv) = mv_created mv" "mv_ready (basemap_effect p mv) = mv_ready mv"
  "mv_created (layers_effect p mv) = mv_created mv" "mv_ready (layers_effect p mv) = mv_ready mv"
  by (simp_all add: basemap_effect_def layers_effect_def set_layout_def)

lemma run_effect_field: "(\<And>s. g (eff s) = g s) \<Longrightarrow> g (run_effect c eff mv) = g mv"
  by (simp add: run_effect_def)

text \<open>The ghosts only ever add the recovery flash to a marker.\<close>

definition marker_face :: "string \<Rightarrow> map_view \<Rightarrow> (bool \<times> lnglat) option" where
  "marker_face i mv = map_option (\<lambda>m. (mk_critical m, mk_lnglat m)) (map_of (mv_markers mv) i)"

lemma face_sync_ghost: "marker_face i (sync_ghost v mv r) = marker_face i mv"
  by (simp add: marker_face_def sync_ghost_def flash_def Let_def split: option.split)

lemma face_syncGhosts: "marker_face i (syncGhosts f v mv) = marker_face i mv"
proof -
  have "marker_face i (foldl (sync_ghost v) mv rs) = marker_face i mv" for rs
    by (induction rs rule: rev_induct) (simp_all add: face_sync_ghost)
  then show ?thesis by (simp add: syncGhosts_def Let_def) (simp add: marker_face_def)
qed

lemma face_redraw:
  assumes "mv_created mv" "last_of (\<lambda>q. rb_id q = i) (robots_in (mp_frame p)) = Some r"
  shows "marker_face i (redraw_effect svg p mv) = Some (i \<in> set (mp_critical p), robot_pos r)"
proof -
  have i: "rb_id r = i" using last_of_holds[OF assms(2)] by simp
  have "marker_face i (syncMarkers svg (mp_frame p) (mp_selected p) (mp_critical p) sb mv') =
      Some (i \<in> set (mp_critical p), robot_pos r)" for sb mv'
    using synced_markers[where i = i and f = "mp_frame p" and svg = svg and sel = "mp_selected p" and
        critical = "mp_critical p" and symbols = sb and mv = mv'] assms(2)
    by (auto simp: marker_face_def marker_shows_def i)
  then show ?thesis using assms(1) by (simp add: redraw_effect_def Let_def face_syncGhosts)
qed

lemma face_run_effects:
  "marker_face i (run_effect c (basemap_effect p) mv) = marker_face i mv"
  "marker_face i (run_effect c (layers_effect p) mv) = marker_face i mv"
  "marker_face i (run_effect c (pulse_effect now p) mv) = marker_face i mv"
  by (simp_all add: run_effect_def marker_face_def)

text \<open>What a commit does to the marker of a robot in its frame, and to the pulse of the fence.\<close>

lemma commit_face:
  assumes "mv_created mv" "mp_frame p = Some f" "last_of (\<lambda>q. rb_id q = i) (sw_robots f) = Some r"
  shows "marker_face i (fst (map_commit svg True t zoom (Some q) p mv)) =
    Some (i \<in> set (mp_critical p), robot_pos r)"
proof -
  let ?mv = "mv\<lparr>mv_frameRef := Some f, mv_osmRef := mp_basemap_osm p\<rparr>"
  have "marker_face i (redraw_effect svg p ?mv) = Some (i \<in> set (mp_critical p), robot_pos r)"
    using assms by (intro face_redraw) (simp_all add: robots_in_def)
  then show ?thesis
    by (simp add: map_commit_def Let_def face_run_effects assms(2)) (simp add: run_effect_def)
qed

lemma commit_host:
  "mv_created (fst (map_commit svg True t zoom (Some q) p mv)) = mv_created mv"
  "mv_ready (fst (map_commit svg True t zoom (Some q) p mv)) = mv_ready mv"
  by (simp_all add: map_commit_def Let_def run_effect_def pulse_effect_def)

lemma commit_pulse:
  assumes "mv_created mv" "mv_ready mv" "mp_breachNonce p = Suc (mp_breachNonce q)"
  shows "mv_pulse (fst (map_commit svg True t zoom (Some q) p mv)) = Some t"
  using assms by (simp add: map_commit_def Let_def run_effect_field[of mv_created] run_effect_field[of mv_ready])
    (simp add: run_effect_def when_changed_def pulse_effect_def)

lemma quiet_effects_pulse [simp]:
  "mv_pulse (basemap_effect p mv) = mv_pulse mv" "mv_pulse (layers_effect p mv) = mv_pulse mv"
  by (simp_all add: basemap_effect_def layers_effect_def set_layout_def)

lemma commit_no_pulse:
  assumes "mp_breachNonce p = mp_breachNonce q"
  shows "mv_pulse (fst (map_commit svg True t zoom (Some q) p mv)) = mv_pulse mv"
  using assms by (simp add: map_commit_def Let_def run_effect_def when_changed_def)

section \<open>Properties\<close>

text \<open>C4: The browser mirrors the bridge: at every moment of every run of the bridge, with either
  source, a browser whose socket is open, to which everything sent has been delivered as JSON, and
  to which no frame with a number that is not finite was sent, shows the bridge's cached frame, its
  connection state, its source and its status text, however late it connected. (Infinity and NaN
  become \<open>null\<close> in JSON; that the simulator can be brought to send them is
  \<open>overflowing_speed_breaks_frames\<close>.)\<close>

theorem browser_mirrors_bridge:
  assumes "ws \<in> set (br_open (fst (bridge_session argv evs)))"
    and "list_all message_ok (sent_to ws (snd (bridge_session argv evs)))"
  shows "\<exists>h. browse (texts_to ws (snd (bridge_session argv evs))) = Some h \<and>
    sh_frame h = br_lastFrame (fst (bridge_session argv evs)) \<and>
    sh_status h =
      \<lparr>ss_ws = True, ss_source = Some (source_kind_of (br_source (fst (bridge_session argv evs)))),
       ss_connected = br_connected (fst (bridge_session argv evs)),
       ss_detail = br_statusDetail (fst (bridge_session argv evs))\<rparr>"
proof -
  let ?b = "fst (bridge_session argv evs)" and ?ms = "sent_to ws (snd (bridge_session argv evs))"
  let ?h = "on_open (set_socket 0 OPEN mounted_swarm)"
  from in_sync_session[of argv evs] assms(1) have told: "told ?b ?ms" by (simp add: in_sync_def)
  have start: "sh_frame ?h = None" "ss_ws (sh_status ?h)"
    by (simp_all add: on_open_def set_socket_def mounted_swarm_def connect_def)
  from told have "sh_frame (receive ?h ?ms) = br_lastFrame ?b"
    using receive_frame[of ?ms "br_lastFrame ?b" ?h] start
    by (simp add: told_def split: option.splits)
  moreover from told have "sh_status (receive ?h ?ms) = \<lparr>ss_ws = ss_ws (sh_status ?h),
      ss_source = Some (source_kind_of (br_source ?b)), ss_connected = br_connected ?b,
      ss_detail = br_statusDetail ?b\<rparr>"
    by (intro receive_status) (simp add: told_def status_msg_def)
  ultimately show ?thesis
    using start browse_receive[OF assms(2)] by (simp add: texts_to_def)
qed

text \<open>A command makes the round trip: issued on an open socket and carried by the bridge to the
  simulator, its audit entry shows, for every target, after whatever frames came before and then
  the frame of tick \<open>k + 1\<close>, exactly the lifecycle state of that tick: SENT for two ticks, then
  APPLIED for the targets the simulator knows, and ROBOT_OFFLINE at once for the others.\<close>

theorem command_round_trip:
  assumes "swarm_sendCommand now h i = (h', c, [CommandMsg j])"
    and "r \<in> set (in_targets i)" "k < 39"
    and "f \<in> set (frames_emitted (snd (tick (((\<lambda>s. fst (tick s)) ^^ k) (fst (fake_sendCommand s j))))))"
  shows "map (\<lambda>x. map_of (ae_outcomes x) r)
      (audit_session [] (Record c i stop ts # map (\<lambda>g. AuditFrame (Some g)) (fs @ [f]))) =
    [Some (life_state (Suc k) (tp_state (fake_target (fs_robots s) (in_params i) r)))]"
proof -
  note j = sent_intent[OF assms(1)]
  let ?g = "\<lambda>r. let t = fake_target (fs_robots s) (in_params i) r in
    \<lparr>tg_robot_id = r, tg_state = life_state (Suc k) (tp_state t), tg_detail = tp_detail t\<rparr>"
  from newest_status[of "Suc k" j c s] assms(3) obtain cs where
    "sw_commands f = cs @ [\<lparr>cs_command_id = c, cs_targets = map ?g (in_targets i)\<rparr>]"
    using tick_emits[OF assms(4)] by (auto simp: j)
  then have "reported c r f = Some (tg_state (?g r))"
    using assms(2) by (rule reported_newest) (simp add: Let_def)
  then have "last_known x (map (reported c r) (fs @ [f])) =
      Some (life_state (Suc k) (tp_state (fake_target (fs_robots s) (in_params i) r)))" for x
    by (simp add: last_known_def Let_def)
  with frames_outcome[OF keys_ok_new, of r c i stop ts "fs @ [f]"] show ?thesis
    by (simp add: audit_session_def record_command_def push_entry_def MAX_ENTRIES_def)
      (simp add: new_entry_def)
qed

theorem browser_mirrors_bridge_witness:
  "map_option sh_status (browse (texts_to 7 (snd (bridge_session [''--fake''] [Connect 7])))) =
     Some \<lparr>ss_ws = True, ss_source = Some Fake, ss_connected = True,
      ss_detail = ''fake simulator running (no C2 server needed)''\<rparr>"
proof -
  note start = fake_bridge_starts
  have open': "7 \<in> set (br_open (fst (bridge_session [''--fake''] [Connect 7])))"
    by (simp add: bridge_session_def start bridge_step.simps on_connection_def Let_def)
  have "list_all message_ok (sent_to 7 (snd (bridge_session [''--fake''] [Connect 7])))"
    by (simp add: bridge_session_def start bridge_step.simps on_connection_def Let_def status_msg_def)
  from browser_mirrors_bridge[OF open' this] show ?thesis
    by (auto simp: bridge_session_def start bridge_step.simps on_connection_def Let_def)
qed

theorem command_round_trip_witness:
  "map (\<lambda>x. map_of (ae_outcomes x) ''R-01'')
      (audit_session [] [Record ''c'' \<lparr>in_command_id = Some ''c'', in_targets = [''R-01''], in_params = no_params\<rparr> False 0,
         AuditFrame (Some (hd (frames_emitted (snd (tick (fst (fake_sendCommand (fake_onFrame new_fake_source)
           \<lparr>in_command_id = Some ''c'', in_targets = [''R-01''], in_params = no_params\<rparr>)))))))]) =
    [Some CMD_SENT]"
proof -
  let ?i = "\<lparr>in_command_id = Some ''c'', in_targets = [''R-01''], in_params = no_params\<rparr>"
  let ?h = "set_socket 0 OPEN mounted_swarm" and ?s = "fake_onFrame new_fake_source"
  have send: "swarm_sendCommand 0 ?h ?i = (?h, ''c'', [CommandMsg ?i])"
    by (simp add: swarm_sendCommand_def issue_web_id_def ws_current_def set_socket_def mounted_swarm_def
        connect_def)
  have r: "''R-01'' \<in> set (in_targets ?i)" and k: "(0::nat) < 39" by simp_all
  have "frames_emitted (snd (tick (((\<lambda>s. fst (tick s)) ^^ 0) (fst (fake_sendCommand ?s ?i))))) \<noteq> []"
    by (simp add: tick_def Let_def emit_frame_def frames_emitted_def fake_sendCommand_def issue_fake_id_def
        fake_onFrame_def)
  then have f: "hd (frames_emitted (snd (tick (((\<lambda>s. fst (tick s)) ^^ 0) (fst (fake_sendCommand ?s ?i)))))) \<in>
      set (frames_emitted (snd (tick (((\<lambda>s. fst (tick s)) ^^ 0) (fst (fake_sendCommand ?s ?i))))))"
    by (rule hd_in_set)
  from command_round_trip[OF send r k f, of False 0 "[]"] show ?thesis
    by (simp add: fake_onFrame_def fake_target_def robotById_def new_fake_source_def fake_robot_of_def
        life_state_def)
qed

text \<open>C9: A breach reaches the map: a frame shows a robot that is not LOST outside the fence, and the
  robot was not known to be outside. The page then commits twice: the first commit has the frame,
  moves the robot's marker there with the flash it had before, and starts no pulse; the second, after
  the alert engine has run as a passive effect of the first, has the marker flash as critical, at
  that position, and (once the map has loaded) starts the pulse of the fence outline, whatever the
  session was before, what had been acknowledged, and what else the frame reports (as long as the
  frame lists each robot once and raises at most 200 alerts, which is what the feed keeps).\<close>

theorem breach_reaches_the_map:
  assumes "frame_arrives (ap_swarm (app_session inside cmp fmt demo evs)) (WsMessage k (SwarmMsg f))"
    and "r \<in> set (sw_robots f)" "distinct (map rb_id (sw_robots f))" "rb_link_status r \<noteq> LINK_LOST"
    and "\<not> inside (tl_x (rb_telemetry r)) (tl_y (rb_telemetry r))"
    and "map_of (prevInside (ua_engine (ap_alerts (app_session inside cmp fmt demo evs)))) (rb_id r) \<noteq> Some False"
    and "length (snd (ingest inside (ua_engine (ap_alerts (app_session inside cmp fmt demo evs))) f (int now))) \<le> 200"
    and "mv_created mv"
  shows "let app = app_session inside cmp fmt demo evs;
      ps = page_commits inside cmp fmt app (Socket now (WsMessage k (SwarmMsg f)));
      mv1 = fst (map_commit svg True t1 zoom1 (Some (app_map_props app)) (ps ! 0) mv);
      mv2 = fst (map_commit svg True t2 zoom2 (Some (ps ! 0)) (ps ! 1) mv1)
    in (\<exists>m. map_of (mv_markers mv1) (rb_id r) = Some m \<and> mk_lnglat m = robot_pos r \<and>
          (mk_critical m \<longleftrightarrow> rb_id r \<in> set (criticalRobots (ap_alerts app)))) \<and>
       mv_pulse mv1 = mv_pulse mv \<and>
       (\<exists>m. map_of (mv_markers mv2) (rb_id r) = Some m \<and> mk_critical m \<and> mk_lnglat m = robot_pos r) \<and>
       (mv_ready mv \<longrightarrow> mv_pulse mv2 = Some t2)"
proof -
  let ?app = "app_session inside cmp fmt demo evs"
  let ?ev = "Socket now (WsMessage k (SwarmMsg f))"
  let ?app1 = "fst (first_render cmp fmt ?app ?ev)"
  let ?app2 = "fst (passive_effects inside ?app ?ev (first_render cmp fmt ?app ?ev))"
  let ?h = "on_alert_frame inside (ap_alerts ?app) (Some f) (int now)"
  let ?mv1 = "fst (map_commit svg True t1 zoom1 (Some (app_map_props ?app)) (app_map_props ?app1) mv)"
  from breach_alerted[of r f inside "ua_engine (ap_alerts ?app)" "int now", OF assms(2-6)] obtain a where
    a: "a \<in> set (snd (ingest inside (ua_engine (ap_alerts ?app)) f (int now)))"
      "al_kind a = GeofenceAlert" "al_robotId a = rb_id r" "al_severity a = Critical" by blast
  note crit = breach_critical[OF alerts_session a(1,2,4) assms(7), unfolded a(3)]
  have app1: "sh_frame (ap_swarm ?app1) = Some f" "ap_alerts ?app1 = ap_alerts ?app"
    using assms(1) by simp_all
  have app2: "sh_frame (ap_swarm ?app2) = Some f" "ap_alerts ?app2 = ?h"
    using assms(1) by (simp_all add: frame_effects_def after_event_frame)
  have last: "last_of (\<lambda>q. rb_id q = rb_id r) (sw_robots f) = Some r"
    using assms(2,3) by (rule last_of_distinct)
  have frame: "mp_frame (app_map_props ?app1) = Some f" "mp_frame (app_map_props ?app2) = Some f"
    using app1 app2 by (simp_all add: app_map_props_def)
  have nonce: "mp_breachNonce (app_map_props ?app1) = mp_breachNonce (app_map_props ?app)"
    "mp_breachNonce (app_map_props ?app2) = Suc (mp_breachNonce (app_map_props ?app1))"
    using crit app1 app2 by (simp_all add: app_map_props_def)
  have face: "mp_critical (app_map_props ?app1) = criticalRobots (ap_alerts ?app)"
    "rb_id r \<in> set (mp_critical (app_map_props ?app2))"
    using crit app1 app2 by (simp_all add: app_map_props_def)
  have host: "mv_created ?mv1" "mv_ready ?mv1 = mv_ready mv" using assms(8) by (simp_all add: commit_host)
  note first = commit_face[OF assms(8) frame(1) last, of svg t1 zoom1 "app_map_props ?app"]
    commit_no_pulse[OF nonce(1), of svg t1 zoom1 mv]
  note second = commit_face[OF host(1) frame(2) last, of svg t2 zoom2 "app_map_props ?app1"]
    commit_pulse[OF host(1) _ nonce(2), of svg t2 zoom2]
  from first second face host(2) show ?thesis
    unfolding page_commits_def Let_def by (auto simp: marker_face_def simp del: first_render.simps passive_effects.simps)
qed

theorem breach_reaches_the_map_witness:
  "let inside = (\<lambda>x y. x < Fin 100);
       app = app_session inside (\<lambda>a b. 0) (\<lambda>t. '''') confirm_query [Socket 1 (WsOpen 0)];
       f = sample_frame [sample_robot ''R-1'' LINK_LIVE (Fin 200)] [];
       ps = page_commits inside (\<lambda>a b. 0) (\<lambda>t. '''') app (Socket 2 (WsMessage 0 (SwarmMsg f)));
       mv1 = fst (map_commit (\<lambda>_. '''') True 7 14 (Some (app_map_props app)) (ps ! 0)
         (new_map_view\<lparr>mv_created := True, mv_ready := True\<rparr>))
   in mv_pulse mv1 = None \<and>
      mv_pulse (fst (map_commit (\<lambda>_. '''') True 8 14 (Some (ps ! 0)) (ps ! 1) mv1)) = Some 8"
proof -
  let ?in = "\<lambda>x y. x < Fin 100"
  let ?app = "app_session ?in (\<lambda>a b. 0) (\<lambda>t. '''') confirm_query [Socket 1 (WsOpen 0)]"
  let ?r = "sample_robot ''R-1'' LINK_LIVE (Fin 200)" and ?f = "sample_frame [sample_robot ''R-1'' LINK_LIVE (Fin 200)] []"
  let ?mv = "new_map_view\<lparr>mv_created := True, mv_ready := True\<rparr>"
  have app: "sh_sockets (ap_swarm ?app) = [OPEN]" "ua_engine (ap_alerts ?app) = new_engine"
    by (simp_all add: app_session_def app_step.simps mounted_app_def mounted_swarm_def connect_def after_event_def
        demo_effect_def allIds_def app_robots_def robots_in_def on_open_def set_socket_def new_alerts_hook_def Let_def)
  have f: "sw_robots ?f = [?r]" "sw_commands ?f = []" by (simp_all add: sample_frame_def)
  have "frame_arrives (ap_swarm ?app) (WsMessage 0 (SwarmMsg ?f))"
    by (simp add: app(1) del: One_nat_def)
  moreover have "?r \<in> set (sw_robots ?f)" "distinct (map rb_id (sw_robots ?f))" by (simp_all add: f)
  moreover have "rb_link_status ?r \<noteq> LINK_LOST" "\<not> ?in (tl_x (rb_telemetry ?r)) (tl_y (rb_telemetry ?r))"
    by (simp_all add: sample_robot_def)
  moreover have "map_of (prevInside (ua_engine (ap_alerts ?app))) (rb_id ?r) \<noteq> Some False"
    by (simp add: app(2) del: One_nat_def) (simp add: new_engine_def)
  moreover have "length (snd (ingest ?in (ua_engine (ap_alerts ?app)) ?f (int 2))) \<le> 200"
    by (simp add: app(2) ingest_def f cmd_targets_def del: One_nat_def)
      (simp add: robot_step_def link_step_def fence_step_def new_engine_def mk_def sample_robot_def Let_def)
  moreover have "mv_created ?mv" "mv_ready ?mv" "mv_pulse ?mv = None" by (simp_all add: new_map_view_def)
  ultimately show ?thesis
    using breach_reaches_the_map[of ?in "\<lambda>a b. 0" "\<lambda>t. ''''" confirm_query "[Socket 1 (WsOpen 0)]" 0 ?f ?r 2 ?mv
        "\<lambda>_. ''''" 7 14 8 14]
    unfolding Let_def by metis
qed

section \<open>The simulator inside its mission\<close>

lemma steady_inside: "list_all id bs \<Longrightarrow> p \<noteq> Some False \<Longrightarrow> snd (run fence_spec p bs) = []"
proof (induction bs arbitrary: p)
  case (Cons b bs)
  then show ?case by (cases p) (simp_all add: split_beta)
qed simp

text \<open>C34: No false alarm: a client whose fence contains what is well inside the mission's buffers
  raises no geofence alert about any robot of the simulator, over any session in which nobody
  commands it, whatever the clock says and whatever else the client does with the frames.\<close>

theorem uncommanded_simulator_no_breach:
  assumes "list_all uncommanded evs"
    and "\<And>x y. mission_covers (x, y) \<Longrightarrow> inside (Fin x) (Fin y)"
    and "map fst fs = frames_emitted (snd (run fake_step new_fake_source evs))"
  shows "concat (map (sev_of GeofenceAlert i) (snd (ingest_all inside new_engine fs))) = []"
proof -
  have quiet: "fs_commands new_fake_source = [] \<and> fs_robots new_fake_source = fs_robots new_fake_source"
    by (simp add: new_fake_source_def)
  have "list_all id (fence_obs inside i r)" if "r \<in> set (sw_robots f)" "f \<in> fst ` set fs" for f r
  proof -
    have "f \<in> set (frames_emitted (snd (run fake_step new_fake_source evs)))"
      using that(2) assms(3) by (metis list.set_map)
    then have "EmitFrame f \<in> set (snd (run fake_step new_fake_source evs))"
      by (simp add: frames_emitted_iff)
    with uncommanded_fake.run_keeps[OF quiet assms(1)] that(1) have "robot_covered r"
      by (fastforce simp: list_all_iff)
    then show ?thesis using assms(2) by (auto simp: robot_covered_def fence_obs_def)
  qed
  then have "list_all id (concat (map (frames_obs (fence_obs inside i)) fs))"
    by (fastforce simp: frames_obs_def list_all_iff)
  from steady_inside[OF this, of None] show ?thesis
    using fence_frame.run_refines[where i = i and inside = inside and s = new_engine and es = fs]
    by (simp add: ingest_all_def new_engine_def)
qed

theorem uncommanded_simulator_no_breach_witness:
  "concat (map (sev_of GeofenceAlert ''R-03'') (snd (ingest_all
     (\<lambda>x y. case (x, y) of (Fin a, Fin b) \<Rightarrow> mission_covers (a, b) | _ \<Rightarrow> False) new_engine
     (map (\<lambda>f. (f, 7)) (frames_emitted (snd (run fake_step new_fake_source [FakeOnFrame, FakeStart, FakeTimer]))))))) = []"
  by (rule uncommanded_simulator_no_breach[where evs = "[FakeOnFrame, FakeStart, FakeTimer]"])
    (simp_all add: comp_def)

section \<open>A command through every component\<close>

text \<open>C7: A command through the whole system: a command with finite parameters that a browser issues on
  its open socket is put into JSON, read by the bridge of any session in front of the simulator,
  acknowledged by its id to that browser, run by the simulator, and reported in the frame of every
  later tick; the frame is put into JSON, read back unchanged by the browser, and the audit log
  then shows, for every target, the state of its lifecycle at that tick, whatever frames came
  before. (Arithmetic is exact: parameters so large or small that doubles overflow are not meant.)\<close>

theorem operator_round_trip:
  assumes "ag_fake (parseArgs argv)" "list_all finite_event evs" "b = fst (bridge_session argv evs)"
    and "br_alive b" "ws \<in> set (br_open b)" "br_source b = FakeSrc s"
    and "swarm_sendCommand now h i = (h', c, [m])" "params_finite (in_params i)"
    and "on_text t b ws (Some (wire (enc_client_message m))) = Some (b0, os0)"
    and "r \<in> set (in_targets i)" "k < 39"
  shows "os0 = [WsSend ws (AckMsg c True ''fake'')] \<and>
    (\<exists>f. last_of is_swarm (sent_to ws (snd (run bridge_step b0 (replicate (Suc k) FakeTick)))) = Some (SwarmMsg f) \<and>
      dec_server_message (wire (enc_server_message (SwarmMsg f))) = Some (SwarmMsg f) \<and>
      map (\<lambda>x. map_of (ae_outcomes x) r)
        (audit_session [] (Record c i stop ts # map (\<lambda>g. AuditFrame (Some g)) (fs @ [f]))) =
      [Some (life_state (Suc k) (tp_state (fake_target (fs_robots s) (in_params i) r)))])"
proof -
  obtain j where m: "m = CommandMsg j" by (cases m) simp
  note send = assms(7)[unfolded m]
  have j: "j = i\<lparr>in_command_id := Some c\<rparr>" using send by (rule sent_intent)
  then have "finite_intent j = j" using assms(8) by (simp add: finite_intent_same finite_params_same)
  then have reads: "on_text t b ws (Some (wire (enc_client_message m))) = Some (on_command t b ws j)"
    by (simp only: m client_text_read)
  have b0: "b0 = b\<lparr>br_source := FakeSrc (fst (fake_sendCommand s j))\<rparr>" and os0: "os0 = [WsSend ws (AckMsg c True ''fake'')]"
    using assms(6,9) reads by (auto simp: split_beta command_defs ack_msg_def fake_sendCommand_def issue_fake_id_def j)
  have clients: "distinct (br_clients b)" "ws \<in> set (br_clients b)"
    using in_sync_session[of argv evs] assms(3,5) by (auto simp: in_sync_def)
  have b0_ok: "br_alive b0" "br_source b0 = FakeSrc (fst (fake_sendCommand s j))" "sim_running b0"
    "distinct (br_clients b0)" "ws \<in> set (br_open b0)" "ws \<in> set (br_clients b0)"
    using running_session[of argv evs] assms(3-6) clients by (auto simp: b0 sim_running_def)
  have fin: "bridge_finite b0"
    using typed_session[OF assms(1,2)] assms(3,6,8) j fake_finite_send[of s j] by (simp add: b0 bridge_finite_def)
  let ?bk = "fst (run bridge_step b0 (replicate k FakeTick))"
  let ?sk = "((\<lambda>s. fst (tick s)) ^^ k) (fst (fake_sendCommand s j))"
  from ticks_run[OF b0_ok, of k] b0_ok(4-6) obtain f where
    f: "frames_emitted (snd (tick ?sk)) = [f]" "sent_to ws (snd (bridge_step ?bk FakeTick)) = [SwarmMsg f]"
    using tick_step[of ?bk ?sk ws] by (auto simp: Let_def)
  have run: "run bridge_step b0 (replicate (Suc k) FakeTick) =
      (fst (bridge_step ?bk FakeTick), snd (run bridge_step b0 (replicate k FakeTick)) @ snd (bridge_step ?bk FakeTick))"
    using run_append[of bridge_step b0 "replicate k FakeTick" "[FakeTick]"]
    by (simp add: replicate_append_same[symmetric] split_beta)
  have "list_all out_typed (snd (run bridge_step b0 (replicate (Suc k) FakeTick)))"
    using typed_bridge.run_keeps[OF fin] by (simp add: list_all_length del: replicate_Suc)
  moreover have "SwarmMsg f \<in> set (sent_to ws (snd (run bridge_step b0 (replicate (Suc k) FakeTick))))"
    using f(2) by (simp add: run del: replicate_Suc)
  ultimately have "message_ok (SwarmMsg f)" by (rule typed_sent)
  then have wired: "dec_server_message (wire (enc_server_message (SwarmMsg f))) = Some (SwarmMsg f)"
    by (rule message_codec.round_trip)
  have told: "last_of is_swarm (sent_to ws (snd (run bridge_step b0 (replicate (Suc k) FakeTick)))) = Some (SwarmMsg f)"
    using f(2) by (simp add: run last_of_append del: replicate_Suc)
  have "f \<in> set (frames_emitted (snd (tick ?sk)))" using f(1) by simp
  note audited = command_round_trip[OF send assms(10,11) this, of stop ts fs]
  from os0 told wired audited show ?thesis by (intro conjI exI[of _ f])
qed

theorem operator_round_trip_witness:
  "snd (the (on_text 0 (fst (bridge_session [''--fake''] [Connect 7])) 7
      (Some (wire (enc_client_message (CommandMsg
        \<lparr>in_command_id = Some ''c'', in_targets = [''R-01''], in_params = no_params\<rparr>)))))) =
    [WsSend 7 (AckMsg ''c'' True ''fake'')]"
proof -
  let ?b = "fst (bridge_session [''--fake''] [Connect 7])"
  let ?i = "\<lparr>in_command_id = Some ''c'', in_targets = [''R-01''], in_params = no_params\<rparr>"
  let ?h = "set_socket 0 OPEN mounted_swarm"
  let ?t = "Some (wire (enc_client_message (CommandMsg ?i)))"
  have fake: "ag_fake (parseArgs [''--fake''])" by (simp add: parseArgs_def default_args_def)
  have b: "br_alive ?b" "7 \<in> set (br_open ?b)"
    "br_source ?b = FakeSrc (fst (fake_start (fake_onFrame (fake_onStatus new_fake_source))))"
    by (simp_all add: bridge_session_def fake_bridge_starts bridge_step.simps on_connection_def Let_def)
  have send: "swarm_sendCommand 0 ?h ?i = (?h, ''c'', [CommandMsg ?i])"
    by (simp add: swarm_sendCommand_def issue_web_id_def ws_current_def set_socket_def mounted_swarm_def connect_def)
  obtain b0 os0 where answer: "on_text 0 ?b 7 ?t = Some (b0, os0)"
    by (metis client_text_read surj_pair)
  have rest: "list_all finite_event [Connect 7]" "params_finite (in_params ?i)" "''R-01'' \<in> set (in_targets ?i)"
    "(0::nat) < 39" by simp_all
  from operator_round_trip[OF fake rest(1) refl b send rest(2) answer rest(3,4), of False 0 "[]"]
  show ?thesis by (simp only: answer option.sel snd_conv)
qed

end
